(* ===== verification/Prelude.thy ===== *)
theory Prelude
  imports Main "HOL-Library.Word" "HOL-Library.Char_ord" "HOL-Library.List_Lexorder"
    "HOL-Library.AList" "HOL-Library.Multiset"
begin

text \<open>
  Shared vocabulary of the development: how Go's types are read in HOL, the
  collections the component theories declare their facts into, and generic facts
  about words, sorting and association lists.

  \<^item> A Go \<^verbatim>\<open>uint16\<close>, \<^verbatim>\<open>uint32\<close> or \<^verbatim>\<open>uint64\<close> is a word of that width, so
    \<open>+\<close> wraps exactly where the program's counters wrap.
  \<^item> A Go \<^verbatim>\<open>string\<close>, and every named string type of the program, is a HOL
    \<open>string\<close>: a list of bytes. Values outside the declared constants are therefore
    in the model, which is what the \<^verbatim>\<open>Valid\<close> methods have to refuse, and Go's
    byte-wise order on strings is the list order of \<open>List_Lexorder\<close>.
  \<^item> A Go slice that is only read or appended to is a list; \<^verbatim>\<open>nil\<close> and the empty slice
    are the same list wherever the program does not tell them apart.
  \<^item> A Go map that the program iterates over is an association list with distinct keys.
  \<^item> A function returning \<^verbatim>\<open>error\<close> returns \<open>'e option\<close> (\<open>None\<close> is \<^verbatim>\<open>nil\<close>); one
    returning a value and an error returns \<open>'e + 'a\<close> (\<open>Inl\<close> is the error).
\<close>

type_synonym u16 = "16 word"
type_synonym u32 = "32 word"
type_synonym u64 = "64 word"

text \<open>\<^verbatim>\<open>control.Tick\<close> is an \<^verbatim>\<open>int64\<close> that the read model only compares.\<close>

type_synonym tick = int

text \<open>
  \<^verbatim>\<open>time.Time\<close>: nanoseconds since January 1, year 1, 00:00:00 UTC (the instant
  \<^verbatim>\<open>IsZero\<close> tests for) and whether the location is \<^verbatim>\<open>time.UTC\<close>.
\<close>

record gotime =
  time_instant :: int
  time_utc :: bool

definition IsZero :: "gotime \<Rightarrow> bool" where
  "IsZero t \<longleftrightarrow> time_instant t = 0"

text \<open>String constants of the source, unfolded when a proof evaluates them.\<close>

named_theorems go_consts

text \<open>Facts that turn a successful result into what it guarantees.\<close>

named_theorems ok_dests

section \<open>Words\<close>

lemma word_pred_ge:
  fixes n m :: "'a::len word"
  assumes "n < m" shows "n \<le> m - 1"
  using assms by unat_arith

lemma word_pred_ge_succ:
  fixes a b :: "'a::len word"
  assumes "a + 1 < b" "a < b"
  shows "a + 1 \<le> b - 1"
  using assms by unat_arith

lemma word_succ_nonzero:
  fixes a b :: "'a::len word"
  assumes "a < b"
  shows "a + 1 \<noteq> 0"
  using assms by unat_arith

lemma word_less_succ:
  fixes a b :: "'a::len word"
  assumes "a < b"
  shows "a < a + 1" "a + 1 \<le> b"
  using assms by unat_arith+

lemma unat_add_of_nat:
  fixes a :: "'a::len word"
  assumes "unat a + n < 2 ^ LENGTH('a)"
  shows "unat (a + of_nat n) = unat a + n"
  using assms by (simp add: unat_word_ariths unat_of_nat)

section \<open>Sorting\<close>

text \<open>
  \<^verbatim>\<open>sort.Slice\<close> with a comparison on a key. Wherever the program sorts, the keys of the slice are
  distinct (\<open>sort_key_distinct_unique\<close>), so the result does not depend on the algorithm. The
  one exception is the order in which a resuming runtime re-accepts retained records; nothing
  proved about it depends on how ties fall. On ties the model keeps the given order, which is what
  Go's insertion sort does for slices of up to twelve elements.
\<close>

definition sort_slice :: "('a \<Rightarrow> 'k::linorder) \<Rightarrow> 'a list \<Rightarrow> 'a list" where
  "sort_slice k xs = sort_key k xs"

lemma set_sort_slice [simp]: "set (sort_slice k xs) = set xs"
  by (simp add: sort_slice_def)

lemma length_sort_slice [simp]: "length (sort_slice k xs) = length xs"
  by (simp add: sort_slice_def)

lemma distinct_sort_slice [simp]: "distinct (sort_slice k xs) = distinct xs"
  by (simp add: sort_slice_def)

lemma sorted_sort_slice [simp]: "sorted (map k (sort_slice k xs))"
  by (simp add: sort_slice_def)

lemma mset_sort_slice [simp]: "mset (sort_slice k xs) = mset xs"
  by (simp add: sort_slice_def)

lemma sort_slice_Nil [simp]: "sort_slice k [] = []"
  by (simp add: sort_slice_def)

lemma sort_slice_eq_Nil [simp]: "sort_slice k xs = [] \<longleftrightarrow> xs = []"
  by (metis length_0_conv length_sort_slice)

lemma sort_slice_sorted: "sorted (map k xs) \<Longrightarrow> sort_slice k xs = xs"
  by (simp add: sort_slice_def sort_key_id_if_sorted)

lemma sort_key_distinct_unique:
  assumes m: "mset ys = mset xs" and s: "sorted (map k ys)" and d: "distinct (map k xs)"
  shows "sort_slice k xs = ys"
proof (rule map_sorted_distinct_set_unique)
  have sets: "set ys = set xs" using m by (rule mset_eq_setD)
  show "inj_on k (set (sort_slice k xs) \<union> set ys)"
    using d sets by (simp add: distinct_map)
  have "mset (map k ys) = mset (map k xs)" "mset (map k (sort_slice k xs)) = mset (map k xs)"
    using m by simp_all
  then show "distinct (map k ys)" "distinct (map k (sort_slice k xs))"
    using d mset_eq_imp_distinct_iff by blast+
  show "set (sort_slice k xs) = set ys" using sets by simp
qed (use s in simp_all)

section \<open>First failure of a loop of checks\<close>

text \<open>\<^verbatim>\<open>for _, x := range xs { if err := f(x); err != nil { return err } }\<close>\<close>

fun first_error :: "('a \<Rightarrow> 'e option) \<Rightarrow> 'a list \<Rightarrow> 'e option" where
  "first_error f [] = None"
| "first_error f (x # xs) = (case f x of Some e \<Rightarrow> Some e | None \<Rightarrow> first_error f xs)"

lemma then_check_None_iff [simp]:
  "(case x of None \<Rightarrow> y | Some e \<Rightarrow> Some e) = None \<longleftrightarrow> x = None \<and> y = None"
  by (cases x) simp_all

lemma first_error_None_iff [simp]: "first_error f xs = None \<longleftrightarrow> (\<forall>x\<in>set xs. f x = None)"
  by (induction xs) (auto split: option.splits)

section \<open>Runs of a stateful operation\<close>

fun run_steps :: "('s \<Rightarrow> 'i \<Rightarrow> 'o \<times> 's) \<Rightarrow> 's \<Rightarrow> 'i list \<Rightarrow> 'o list \<times> 's" where
  "run_steps step s [] = ([], s)"
| "run_steps step s (i # is) =
     (let (o1, s1) = step s i; (os, s2) = run_steps step s1 is in (o1 # os, s2))"

lemma length_run_steps [simp]: "length (fst (run_steps step s is)) = length is"
  by (induction "is" arbitrary: s) (auto split: prod.splits simp: Let_def, metis fst_conv)

lemma run_steps_append:
  "run_steps step s (is @ js) =
     (let (os, s1) = run_steps step s is; (ps, s2) = run_steps step s1 js in (os @ ps, s2))"
  by (induction "is" arbitrary: s) (auto split: prod.splits simp: Let_def)

text \<open>An operation that keeps an invariant keeps it over every run.\<close>

locale invariant_step =
  fixes step :: "'s \<Rightarrow> 'i \<Rightarrow> 'o \<times> 's" and inv :: "'s \<Rightarrow> bool"
  assumes step_inv: "inv s \<Longrightarrow> inv (snd (step s i))"
begin

lemma run_inv: "inv s \<Longrightarrow> inv (snd (run_steps step s is))"
proof (induction "is" arbitrary: s)
  case (Cons i "is")
  then show ?case using step_inv[of s i] by (auto split: prod.splits simp: Let_def) (metis snd_conv)
qed simp

end

text \<open>
  An operation that hands out consecutive positions of a 64-bit order: \<open>position\<close> is the last
  one handed out and \<open>assigned\<close> the one an outcome took, if it took one.
\<close>

locale numbering =
  fixes step :: "'s \<Rightarrow> 'i \<Rightarrow> 'o \<times> 's"
    and position :: "'s \<Rightarrow> u64" and assigned :: "'o \<Rightarrow> u64 option"
  assumes takes_next: "assigned (fst (step s i)) = Some p \<Longrightarrow>
      p = position s + 1 \<and> position (snd (step s i)) = p"
    and takes_none: "assigned (fst (step s i)) = None \<Longrightarrow> position (snd (step s i)) = position s"
begin

lemma run_positions:
  assumes "run_steps step s is = (os, s')"
  shows "List.map_filter assigned os =
      map (\<lambda>n. position s + of_nat (Suc n)) [0..<length (List.map_filter assigned os)] \<and>
    position s' = position s + of_nat (length (List.map_filter assigned os))"
  using assms
proof (induction "is" arbitrary: s os s')
  case (Cons i "is")
  obtain o1 s1 os1 where st: "step s i = (o1, s1)" and rest: "run_steps step s1 is = (os1, s')"
    and os: "os = o1 # os1"
    using Cons.prems by (auto split: prod.splits simp: Let_def)
  note IH = Cons.IH[OF rest]
  let ?k = "length (List.map_filter assigned os1)"
  show ?case
  proof (cases "assigned o1")
    case None
    then show ?thesis using IH takes_none[of s i] st os by (simp add: map_filter_simps)
  next
    case (Some p)
    then have p: "p = position s + 1" "position s1 = p" using takes_next[of s i] st by auto
    have "map (\<lambda>n. position s + of_nat (Suc n)) [0..<Suc ?k] =
        (position s + 1) # map (\<lambda>n. position s + 1 + of_nat (Suc n)) [0..<?k]"
      by (simp add: map_upt_Suc algebra_simps del: upt_Suc)
    with IH p Some os show ?thesis by (simp add: map_filter_simps algebra_simps del: upt_Suc)
  qed
qed (simp add: map_filter_simps)

text \<open>Short of the end of the order no position is handed out twice.\<close>

lemma run_positions_distinct:
  assumes "run_steps step s is = (os, s')" "unat (position s) + length is < 2 ^ 64"
  shows "distinct (List.map_filter assigned os)" "sorted (List.map_filter assigned os)"
proof -
  let ?ps = "List.map_filter assigned os"
  have "length os = length is" using assms(1) by (metis fst_conv length_run_steps)
  then have len: "unat (position s) + length ?ps < 2 ^ 64"
    using assms(2) length_filter_le[of "\<lambda>x. assigned x \<noteq> None" os]
    by (simp add: List.map_filter_def)
  have u: "unat (position s + of_nat (Suc n)) = unat (position s) + Suc n" if "n < length ?ps" for n
    using unat_add_of_nat[of "position s" "Suc n"] that len by simp
  have ps: "?ps = map (\<lambda>n. position s + of_nat (Suc n)) [0..<length ?ps]"
    using run_positions[OF assms(1)] by blast
  have "map unat ?ps = map (\<lambda>n. unat (position s) + Suc n) [0..<length ?ps]"
    by (subst ps) (simp add: u del: of_nat_Suc)
  moreover have "sorted_wrt (<) (map (\<lambda>n. unat (position s) + Suc n) [0..<length ?ps])"
    by (simp add: sorted_wrt_map sorted_wrt_iff_nth_less)
  ultimately have "sorted_wrt (<) (map unat ?ps)" by simp
  then have "sorted_wrt (<) ?ps"
    unfolding sorted_wrt_map
    by (rule sorted_wrt_mono_rel[rotated]) (simp add: word_less_nat_alt)
  then show "distinct ?ps" "sorted ?ps" by (simp_all add: strict_sorted_iff)
qed

end

section \<open>Association lists\<close>

lemma set_alist_update_subset: "set (AList.update k v al) \<subseteq> insert (k, v) (set al)"
  by (induction al) auto

lemma map_of_alist_update [simp]:
  "map_of (AList.update k v al) k' = (if k' = k then Some v else map_of al k')"
  by (simp add: update_conv')

end
