(* ===== verification/Ownership.thy ===== *)
theory Ownership
  imports Fact
begin

text \<open>
  The compiled ownership envelope (\<^verbatim>\<open>internal/safety/connectivity.go\<close>): which source
  may speak about which component, in which privilege domain and in which role.
  \<open>init_envelope\<close> is the package's \<^verbatim>\<open>init\<close>, its panics included; the locale
  \<open>ownership_envelope\<close> is the contract the acceptor and the reducer rely on, and the
  interpretation \<open>owned\<close> discharges it for the compiled table.
\<close>

section \<open>Declarations\<close>

type_synonym source_role = string

definition RoleAuthoritative :: source_role where [go_consts]: "RoleAuthoritative = ''authoritative''"
definition RoleCorroborating :: source_role where [go_consts]: "RoleCorroborating = ''corroborating''"

datatype ownership_error =
    ErrUnknownSource source_id component
  | ErrDomainMismatch domain domain
  | ErrCorroboratingWrite source_id component

record SourceDeclaration =
  sd_Source :: source_id
  sd_Domain :: domain
  sd_Component :: component
  sd_Role :: source_role

definition connectivitySources :: "SourceDeclaration list" where
  "connectivitySources =
    [\<lparr>sd_Source = ''root.network'', sd_Domain = DomainRoot,
       sd_Component = ComponentPhysicalNetwork, sd_Role = RoleAuthoritative\<rparr>,
     \<lparr>sd_Source = ''root.network'', sd_Domain = DomainRoot,
       sd_Component = ComponentDefaultPath, sd_Role = RoleAuthoritative\<rparr>,
     \<lparr>sd_Source = ''root.dns'', sd_Domain = DomainRoot,
       sd_Component = ComponentDNS, sd_Role = RoleAuthoritative\<rparr>,
     \<lparr>sd_Source = ''root.routes'', sd_Domain = DomainRoot,
       sd_Component = ComponentScopedRoutes, sd_Role = RoleAuthoritative\<rparr>,
     \<lparr>sd_Source = ''root.transports'', sd_Domain = DomainRoot,
       sd_Component = ComponentTransports, sd_Role = RoleAuthoritative\<rparr>,
     \<lparr>sd_Source = ''root.relays'', sd_Domain = DomainRoot,
       sd_Component = ComponentRelays, sd_Role = RoleAuthoritative\<rparr>,
     \<lparr>sd_Source = ''user.access'', sd_Domain = DomainUser,
       sd_Component = ComponentUserAccess, sd_Role = RoleAuthoritative\<rparr>,
     \<lparr>sd_Source = ''user.session'', sd_Domain = DomainUser,
       sd_Component = ComponentSessionExpiry, sd_Role = RoleAuthoritative\<rparr>,
     \<lparr>sd_Source = ''root.probe'', sd_Domain = DomainRoot,
       sd_Component = ComponentDefaultPath, sd_Role = RoleCorroborating\<rparr>,
     \<lparr>sd_Source = ''root.probe'', sd_Domain = DomainRoot,
       sd_Component = ComponentDNS, sd_Role = RoleCorroborating\<rparr>,
     \<lparr>sd_Source = ''root.probe'', sd_Domain = DomainRoot,
       sd_Component = ComponentRelays, sd_Role = RoleCorroborating\<rparr>,
     \<lparr>sd_Source = ''user.probe'', sd_Domain = DomainUser,
       sd_Component = ComponentUserAccess, sd_Role = RoleCorroborating\<rparr>]"

section \<open>Package initialisation\<close>

text \<open>The three panics of \<^verbatim>\<open>init\<close>.\<close>

datatype init_panic =
    DeclaredTwice source_id component
  | TwoAuthorities component source_id source_id
  | NoAuthority component

type_synonym by_key = "((source_id \<times> component) \<times> SourceDeclaration) list"
type_synonym authorities = "(component \<times> SourceDeclaration) list"

fun init_declare ::
  "SourceDeclaration list \<Rightarrow> by_key \<Rightarrow> authorities \<Rightarrow> init_panic + by_key \<times> authorities" where
  "init_declare [] ks as = Inr (ks, as)"
| "init_declare (d # ds) ks as =
     (let key = (sd_Source d, sd_Component d) in
      if map_of ks key \<noteq> None then Inl (DeclaredTwice (sd_Source d) (sd_Component d))
      else (let ks' = AList.update key d ks in
        if sd_Role d \<noteq> RoleAuthoritative then init_declare ds ks' as
        else (case map_of as (sd_Component d) of
                Some existing \<Rightarrow> Inl (TwoAuthorities (sd_Component d) (sd_Source existing) (sd_Source d))
              | None \<Rightarrow> init_declare ds ks' (AList.update (sd_Component d) d as))))"

definition init_envelope :: "SourceDeclaration list \<Rightarrow> init_panic + by_key \<times> authorities" where
  "init_envelope ds =
     (case init_declare ds [] [] of
        Inl panic \<Rightarrow> Inl panic
      | Inr (ks, as) \<Rightarrow>
          (case find (\<lambda>c. map_of as c = None) Components of
             Some c \<Rightarrow> Inl (NoAuthority c)
           | None \<Rightarrow> Inr (ks, as)))"

text \<open>The package variables after \<^verbatim>\<open>init\<close> (nil maps if it panicked).\<close>

definition connectivityByKey :: by_key where
  "connectivityByKey = (case init_envelope connectivitySources of Inr (ks, as) \<Rightarrow> ks | Inl _ \<Rightarrow> [])"

definition connectivityAuthorities :: authorities where
  "connectivityAuthorities =
     (case init_envelope connectivitySources of Inr (ks, as) \<Rightarrow> as | Inl _ \<Rightarrow> [])"

section \<open>Queries\<close>

definition ConnectivityAuthority :: "component \<Rightarrow> SourceDeclaration option" where
  "ConnectivityAuthority c = map_of connectivityAuthorities c"

definition ConnectivitySourceComponents :: "source_id \<Rightarrow> component list" where
  "ConnectivitySourceComponents s =
     filter (\<lambda>c. map_of connectivityByKey (s, c) \<noteq> None) Components"

definition ConnectivitySources :: "SourceDeclaration list" where
  "ConnectivitySources = connectivitySources"

definition ClassifyConnectivityFact :: "Fact \<Rightarrow> domain \<Rightarrow> ownership_error + source_role" where
  "ClassifyConnectivityFact f authenticated =
     (if f_Domain f \<noteq> authenticated then Inl (ErrDomainMismatch (f_Domain f) authenticated)
      else (case map_of connectivityByKey (f_SourceID f, f_Component f) of
              None \<Rightarrow> Inl (ErrUnknownSource (f_SourceID f) (f_Component f))
            | Some d \<Rightarrow>
                if sd_Domain d \<noteq> authenticated then Inl (ErrDomainMismatch (sd_Domain d) authenticated)
                else Inr (sd_Role d)))"

definition ValidateAuthoritativeConnectivityFact :: "Fact \<Rightarrow> domain \<Rightarrow> ownership_error option" where
  "ValidateAuthoritativeConnectivityFact f authenticated =
     (case ClassifyConnectivityFact f authenticated of
        Inl e \<Rightarrow> Some e
      | Inr role \<Rightarrow>
          if role \<noteq> RoleAuthoritative
          then Some (ErrCorroboratingWrite (f_SourceID f) (f_Component f)) else None)"

section \<open>What initialisation establishes\<close>

text \<open>
  The invariant of the loop, for any declaration list: what the two maps hold is exactly
  what was declared, and an authority is the only authoritative declaration of its
  component.
\<close>

definition envelope_inv :: "SourceDeclaration set \<Rightarrow> by_key \<Rightarrow> authorities \<Rightarrow> bool" where
  "envelope_inv D ks as \<longleftrightarrow>
     (\<forall>s c d. map_of ks (s, c) = Some d \<longleftrightarrow> d \<in> D \<and> sd_Source d = s \<and> sd_Component d = c) \<and>
     (\<forall>c d. map_of as c = Some d \<longleftrightarrow> d \<in> D \<and> sd_Component d = c \<and> sd_Role d = RoleAuthoritative)"

lemma envelope_inv_empty: "envelope_inv {} [] []"
  by (simp add: envelope_inv_def)

lemma envelope_inv_declare:
  assumes "envelope_inv D ks as" "map_of ks (sd_Source d, sd_Component d) = None"
    "sd_Role d \<noteq> RoleAuthoritative"
  shows "envelope_inv (insert d D) (AList.update (sd_Source d, sd_Component d) d ks) as"
  using assms unfolding envelope_inv_def
  by (auto simp: update_conv') (metis option.distinct(1))+

lemma envelope_inv_declare_authority:
  assumes "envelope_inv D ks as" "map_of ks (sd_Source d, sd_Component d) = None"
    "sd_Role d = RoleAuthoritative" "map_of as (sd_Component d) = None"
  shows "envelope_inv (insert d D) (AList.update (sd_Source d, sd_Component d) d ks)
    (AList.update (sd_Component d) d as)"
  using assms unfolding envelope_inv_def
  by (auto simp: update_conv') (metis option.distinct(1))+

lemma init_declare_inv:
  "init_declare ds ks as = Inr (ks', as') \<Longrightarrow> envelope_inv D ks as \<Longrightarrow>
     envelope_inv (D \<union> set ds) ks' as'"
proof (induction ds ks as arbitrary: D rule: init_declare.induct)
  case (1 ks as)
  then show ?case by simp
next
  case (2 d ds ks as)
  note step = "2.prems"(1)[unfolded init_declare.simps Let_def]
  have fresh: "map_of ks (sd_Source d, sd_Component d) = None"
    using step by (simp split: if_splits)
  have ins: "D \<union> set (d # ds) = insert d D \<union> set ds" by auto
  show ?case
  proof (cases "sd_Role d = RoleAuthoritative")
    case False
    with step fresh have "init_declare ds (AList.update (sd_Source d, sd_Component d) d ks) as
        = Inr (ks', as')" by simp
    then show ?thesis
      using "2.IH"(1)[OF refl _ refl False _ envelope_inv_declare] fresh False "2.prems"(2) ins by auto
  next
    case True
    with step fresh have none: "map_of as (sd_Component d) = None"
      by (simp split: option.splits)
    with step fresh True have "init_declare ds (AList.update (sd_Source d, sd_Component d) d ks)
        (AList.update (sd_Component d) d as) = Inr (ks', as')" by simp
    then show ?thesis
      using "2.IH"(2)[OF refl _ refl _ none _ envelope_inv_declare_authority] fresh True
        "2.prems"(2) none ins by auto
  qed
qed

lemma init_envelope_inv:
  assumes "init_envelope ds = Inr (ks, as)"
  shows "envelope_inv (set ds) ks as" "c \<in> set Components \<Longrightarrow> map_of as c \<noteq> None"
proof -
  obtain r where r: "init_declare ds [] [] = Inr r" and f: "find (\<lambda>c. map_of as c = None) Components = None"
    and "r = (ks, as)"
    using assms by (auto simp: init_envelope_def split: sum.splits option.splits)
  then show "envelope_inv (set ds) ks as"
    using init_declare_inv[OF _ envelope_inv_empty, of ds ks as] by simp
  show "c \<in> set Components \<Longrightarrow> map_of as c \<noteq> None"
    using f by (auto simp: find_None_iff)
qed

text \<open>The compiled table does not panic, and its two maps are the declared ones.\<close>

lemma init_envelope_connectivitySources:
  "init_envelope connectivitySources = Inr (connectivityByKey, connectivityAuthorities)"
proof -
  have "\<exists>r. init_envelope connectivitySources = Inr r"
    by (simp add: init_envelope_def connectivitySources_def go_consts Components_def Let_def)
  then show ?thesis
    by (auto simp: connectivityByKey_def connectivityAuthorities_def split: sum.splits)
qed

lemmas compiled_envelope = init_envelope_inv[OF init_envelope_connectivitySources]

lemma compiled_roles: "d \<in> set connectivitySources \<Longrightarrow> sd_Component d \<in> set Components"
  by (auto simp: connectivitySources_def Components_def)

section \<open>The contract of the envelope\<close>

text \<open>
  What a client may assume: \<open>declared s c\<close> is the declaration binding a source to a component,
  \<open>authority c\<close> the owner of a component and \<open>speaks s\<close> the components of a source.
\<close>

locale ownership_envelope =
  fixes declared :: "source_id \<Rightarrow> component \<Rightarrow> SourceDeclaration option"
    and authority :: "component \<Rightarrow> SourceDeclaration option"
    and speaks :: "source_id \<Rightarrow> component list"
  assumes declared_key: "declared s c = Some d \<Longrightarrow> sd_Source d = s \<and> sd_Component d = c"
    and declared_component: "declared s c = Some d \<Longrightarrow> c \<in> set Components"
    and authority_iff: "authority c = Some d \<longleftrightarrow>
          declared (sd_Source d) c = Some d \<and> sd_Role d = RoleAuthoritative"
    and authority_total: "c \<in> set Components \<Longrightarrow> authority c \<noteq> None"
    and speaks_iff: "c \<in> set (speaks s) \<longleftrightarrow> declared s c \<noteq> None"
    and speaks_distinct: "distinct (speaks s)"
begin

lemma single_owner:
  assumes "declared s c = Some d" "declared s' c = Some d'"
    "sd_Role d = RoleAuthoritative" "sd_Role d' = RoleAuthoritative"
  shows "s = s'" "d = d'"
proof -
  have "sd_Source d = s" "sd_Source d' = s'" using assms(1,2) declared_key by blast+
  with assms have "authority c = Some d" "authority c = Some d'" by (auto simp: authority_iff)
  then show "d = d'" by simp
  with \<open>sd_Source d = s\<close> \<open>sd_Source d' = s'\<close> show "s = s'" by simp
qed

lemma owner_exists:
  assumes "c \<in> set Components"
  shows "\<exists>!s. \<exists>d. declared s c = Some d \<and> sd_Role d = RoleAuthoritative"
proof -
  obtain d where "authority c = Some d" using authority_total[OF assms] by auto
  then have "declared (sd_Source d) c = Some d" "sd_Role d = RoleAuthoritative"
    by (simp_all add: authority_iff)
  then show ?thesis using single_owner(1) by blast
qed

lemma speaks_nonempty: "declared s c = Some d \<Longrightarrow> speaks s \<noteq> []"
  using speaks_iff[of c s] by (cases "speaks s") auto

lemma speaks_subset: "set (speaks s) \<subseteq> set Components"
  using speaks_iff declared_component by fastforce

lemma speaks_bounded: "length (speaks s) \<le> 8"
proof -
  have "length (speaks s) = card (set (speaks s))"
    using speaks_distinct by (simp add: distinct_card)
  also have "\<dots> \<le> card (set Components)" by (rule card_mono[OF finite_set speaks_subset])
  also have "\<dots> = 8" by (simp add: distinct_card)
  finally show ?thesis .
qed

end

definition declared_as :: "source_id \<Rightarrow> component \<Rightarrow> SourceDeclaration option" where
  "declared_as s c = map_of connectivityByKey (s, c)"

interpretation owned: ownership_envelope declared_as ConnectivityAuthority ConnectivitySourceComponents
proof unfold_locales
  note inv = compiled_envelope(1)[unfolded envelope_inv_def]
  show "declared_as s c = Some d \<Longrightarrow> sd_Source d = s \<and> sd_Component d = c" for s c d
    using inv by (simp add: declared_as_def)
  show comp: "declared_as s c = Some d \<Longrightarrow> c \<in> set Components" for s c d
    using inv compiled_roles by (auto simp: declared_as_def)
  show "ConnectivityAuthority c = Some d \<longleftrightarrow>
      declared_as (sd_Source d) c = Some d \<and> sd_Role d = RoleAuthoritative" for c d
    using inv by (auto simp: declared_as_def ConnectivityAuthority_def)
  show "c \<in> set Components \<Longrightarrow> ConnectivityAuthority c \<noteq> None" for c
    using compiled_envelope(2) by (simp add: ConnectivityAuthority_def)
  show "c \<in> set (ConnectivitySourceComponents s) \<longleftrightarrow> declared_as s c \<noteq> None" for c s
    using comp by (auto simp: ConnectivitySourceComponents_def declared_as_def)
  show "distinct (ConnectivitySourceComponents s)" for s
    by (simp add: ConnectivitySourceComponents_def)
qed

lemma Classify_ok [ok_dests]:
  assumes "ClassifyConnectivityFact f authenticated = Inr role"
  shows "f_Domain f = authenticated"
    "\<exists>d. declared_as (f_SourceID f) (f_Component f) = Some d \<and> 
      sd_Domain d = authenticated \<and> sd_Role d = role"
  using assms
  by (auto simp: ClassifyConnectivityFact_def declared_as_def split: if_splits option.splits)

end
