(* ===== verification/Canonical.thy ===== *)
theory Canonical
  imports Fact
begin

text \<open>
  Canonical encodings and content addresses (\<^verbatim>\<open>internal/policy/canonical.go\<close>) and the
  strict fact codec built on them (\<^verbatim>\<open>Encode\<close>, \<^verbatim>\<open>Digest\<close> and \<^verbatim>\<open>Decode\<close> of
  \<^verbatim>\<open>internal/connectivity/codec.go\<close>).

  What \<^verbatim>\<open>encoding/json\<close> sees of a struct is a tree of its tagged fields, \<^verbatim>\<open>omitempty\<close>
  included; the trees are built here field by field. The text of a tree, the RFC 8785
  transformation of the third-party canonicalizer, the SHA-256 digest and the streaming
  decoder are the fields of the parameter \<open>codec\<close>.
\<close>

section \<open>Trees of tagged fields\<close>

datatype json =
    JNull
  | JBool bool
  | JInt int
  | JString string
  | JTime gotime
  | JArray "json list"
  | JObject "(string \<times> json) list"

text \<open>A pointer field tagged \<^verbatim>\<open>omitempty\<close>, and scalar and slice fields tagged so.\<close>

definition omit_ptr :: "string \<Rightarrow> ('a \<Rightarrow> json) \<Rightarrow> 'a option \<Rightarrow> (string \<times> json) list" where
  "omit_ptr n j x = (case x of None \<Rightarrow> [] | Some v \<Rightarrow> [(n, j v)])"

definition omit_when :: "bool \<Rightarrow> string \<Rightarrow> json \<Rightarrow> (string \<times> json) list" where
  "omit_when z n j = (if z then [] else [(n, j)])"

definition or_else :: "'a option \<Rightarrow> 'a option \<Rightarrow> 'a option" where
  "or_else a b = (case a of None \<Rightarrow> b | Some _ \<Rightarrow> a)"

lemma or_else_None [simp]: "or_else a None = a" "or_else None b = b"
  by (simp_all add: or_else_def split: option.splits)

lemma map_of_omit_ptr [simp]:
  "map_of (omit_ptr n j x @ xs) k =
     or_else (if k = n then map_option j x else None) (map_of xs k)"
  by (simp add: omit_ptr_def or_else_def split: option.splits)

lemma map_of_omit_ptr_last [simp]:
  "map_of (omit_ptr n j x) k = (if k = n then map_option j x else None)"
  by (simp add: omit_ptr_def split: option.splits)

section \<open>Canonical JSON and SHA-256 (canonical.go)\<close>

record codec =
  cd_marshal :: "json \<Rightarrow> string option"
  cd_transform :: "string \<Rightarrow> string option"
  cd_sha256 :: "string \<Rightarrow> string"

definition MaxCanonicalJSONSize :: nat where "MaxCanonicalJSONSize = 1024 * 1024"

datatype canonical_error = ErrInvalidCanonicalJSON

definition Canonicalize :: "codec \<Rightarrow> string \<Rightarrow> canonical_error + string" where
  "Canonicalize cd encoded =
     (if length encoded = 0 \<or> length encoded > MaxCanonicalJSONSize then Inl ErrInvalidCanonicalJSON
      else (case cd_transform cd encoded of
              None \<Rightarrow> Inl ErrInvalidCanonicalJSON
            | Some canonical \<Rightarrow>
                if length canonical = 0 \<or> length canonical > MaxCanonicalJSONSize
                then Inl ErrInvalidCanonicalJSON else Inr canonical))"

definition MarshalCanonical :: "codec \<Rightarrow> json \<Rightarrow> canonical_error + string" where
  "MarshalCanonical cd v =
     (case cd_marshal cd v of
        None \<Rightarrow> Inl ErrInvalidCanonicalJSON
      | Some encoded \<Rightarrow> Canonicalize cd encoded)"

definition SHA256Hex :: "codec \<Rightarrow> string \<Rightarrow> string" where
  "SHA256Hex cd content = cd_sha256 cd content"

definition CanonicalSHA256 :: "codec \<Rightarrow> json \<Rightarrow> canonical_error + string \<times> string" where
  "CanonicalSHA256 cd v =
     (case MarshalCanonical cd v of
        Inl e \<Rightarrow> Inl e
      | Inr canonical \<Rightarrow> Inr (SHA256Hex cd canonical, canonical))"

lemma Canonicalize_ok [ok_dests]:
  "Canonicalize cd e = Inr c \<Longrightarrow> c \<noteq> '''' \<and> length c \<le> MaxCanonicalJSONSize"
  by (auto simp: Canonicalize_def split: if_splits option.splits)

lemma MarshalCanonical_ok [ok_dests]:
  "MarshalCanonical cd v = Inr c \<Longrightarrow> c \<noteq> '''' \<and> length c \<le> MaxCanonicalJSONSize"
  by (auto simp: MarshalCanonical_def dest: Canonicalize_ok split: option.splits)

section \<open>The tree of a fact\<close>

definition json_PhysicalNetwork :: "PhysicalNetworkPayload \<Rightarrow> json" where
  "json_PhysicalNetwork p = JObject [(''link_class'', JString (pn_LinkClass p)),
     (''link_up'', JBool (pn_LinkUp p)), (''has_carrier'', JBool (pn_HasCarrier p))]"

definition json_DefaultPath :: "DefaultPathPayload \<Rightarrow> json" where
  "json_DefaultPath p = JObject [(''path_class'', JString (dp_PathClass p)),
     (''gateway_present'', JBool (dp_GatewayPresent p))]"

definition json_DNS :: "DNSPayload \<Rightarrow> json" where
  "json_DNS p = JObject [(''resolver_class'', JString (dns_ResolverClass p)),
     (''responding'', JBool (dns_Responding p)),
     (''scoped_domains'', JInt (uint (dns_ScopedDomains p))),
     (''failing_domains'', JInt (uint (dns_FailingDomains p)))]"

definition json_ScopedRoutes :: "ScopedRoutesPayload \<Rightarrow> json" where
  "json_ScopedRoutes p = JObject [(''configured'', JInt (uint (sr_Configured p))),
     (''installed'', JInt (uint (sr_Installed p))),
     (''conflicting'', JInt (uint (sr_Conflicting p))),
     (''missing'', JInt (uint (sr_Missing p)))]"

definition json_Transports :: "TransportsPayload \<Rightarrow> json" where
  "json_Transports p = JObject [(''configured'', JInt (uint (tr_Configured p))),
     (''ready'', JInt (uint (tr_Ready p))), (''degraded'', JInt (uint (tr_Degraded p)))]"

definition json_Relays :: "RelaysPayload \<Rightarrow> json" where
  "json_Relays p = JObject [(''configured'', JInt (uint (rl_Configured p))),
     (''reachable'', JInt (uint (rl_Reachable p))), (''reserve'', JInt (uint (rl_Reserve p))),
     (''selected_class'', JString (rl_SelectedClass p))]"

definition json_UserAccess :: "UserAccessPayload \<Rightarrow> json" where
  "json_UserAccess p = JObject [(''profile_class'', JString (ua_ProfileClass p)),
     (''connected'', JBool (ua_Connected p)), (''authenticated'', JBool (ua_Authenticated p))]"

definition json_SessionExpiry :: "SessionExpiryPayload \<Rightarrow> json" where
  "json_SessionExpiry p = JObject [(''expiry_class'', JString (se_ExpiryClass p)),
     (''sessions'', JInt (uint (se_Sessions p)))]"

definition json_Payload :: "Payload \<Rightarrow> json" where
  "json_Payload p = JObject (
     omit_ptr ''physical_network'' json_PhysicalNetwork (pl_PhysicalNetwork p) @
     omit_ptr ''default_path'' json_DefaultPath (pl_DefaultPath p) @
     omit_ptr ''dns'' json_DNS (pl_DNS p) @
     omit_ptr ''scoped_routes'' json_ScopedRoutes (pl_ScopedRoutes p) @
     omit_ptr ''managed_transports'' json_Transports (pl_Transports p) @
     omit_ptr ''relay_ingress'' json_Relays (pl_Relays p) @
     omit_ptr ''user_access'' json_UserAccess (pl_UserAccess p) @
     omit_ptr ''session_expiry'' json_SessionExpiry (pl_SessionExpiry p))"

definition json_Fact :: "Fact \<Rightarrow> json" where
  "json_Fact f = JObject [
     (''schema'', JString (f_Schema f)),
     (''version'', JInt (uint (f_Version f))),
     (''event_id'', JString (f_EventID f)),
     (''domain'', JString (f_Domain f)),
     (''component'', JString (f_Component f)),
     (''source_id'', JString (f_SourceID f)),
     (''boot_id'', JString (f_BootID f)),
     (''source_sequence'', JInt (uint (f_SourceSequence f))),
     (''observed_at'', JTime (f_ObservedAt f)),
     (''monotonic_tick'', JInt (f_MonotonicTick f)),
     (''freshness_deadline'', JInt (f_FreshnessDeadline f)),
     (''lifecycle'', JString (f_Lifecycle f)),
     (''reason'', JString (f_Reason f)),
     (''baseline'', JBool (f_Baseline f)),
     (''payload'', json_Payload (f_Payload f))]"

section \<open>Encode, Digest, Decode (codec.go)\<close>

definition Encode :: "codec \<Rightarrow> Fact \<Rightarrow> fact_error + string" where
  "Encode cd f =
     (case Fact_Validate f of
        Some e \<Rightarrow> Inl e
      | None \<Rightarrow>
          (case MarshalCanonical cd (json_Fact f) of
             Inl _ \<Rightarrow> Inl (ErrInvalidEncoding '''')
           | Inr canonical \<Rightarrow>
               if length canonical > MaxEncodedFactBytes
               then Inl (ErrInvalidEncoding ''encoded size'') else Inr canonical))"

definition Digest :: "codec \<Rightarrow> Fact \<Rightarrow> fact_error + string" where
  "Digest cd f =
     (case Encode cd f of Inl e \<Rightarrow> Inl e | Inr canonical \<Rightarrow> Inr (SHA256Hex cd canonical))"

text \<open>
  \<open>decode bytes\<close> is the strict \<^verbatim>\<open>json.Decoder\<close> on \<^verbatim>\<open>bytes\<close>: the fact it fills in and
  whether \<^verbatim>\<open>More\<close> reports trailing data, or \<open>None\<close> for a decoding error.
\<close>

definition Decode :: "codec \<Rightarrow> (string \<Rightarrow> (Fact \<times> bool) option) \<Rightarrow> string \<Rightarrow> fact_error + Fact" where
  "Decode cd decode encoded =
     (if length encoded = 0 \<or> length encoded > MaxEncodedFactBytes
        then Inl (ErrInvalidEncoding ''size'')
      else (case decode encoded of
              None \<Rightarrow> Inl (ErrInvalidEncoding ''decode'')
            | Some (f, trailing) \<Rightarrow>
                if trailing then Inl (ErrInvalidEncoding ''trailing data'')
                else (case Fact_Validate f of
                        Some e \<Rightarrow> Inl e
                      | None \<Rightarrow>
                          (case MarshalCanonical cd (json_Fact f) of
                             Inl _ \<Rightarrow> Inl (ErrInvalidEncoding '''')
                           | Inr canonical \<Rightarrow>
                               if canonical \<noteq> encoded then Inl ErrNotCanonical else Inr f))))"

section \<open>The tree determines the fact\<close>

lemma inj_json_PhysicalNetwork: "inj json_PhysicalNetwork"
  by (rule injI, rule PhysicalNetworkPayload.equality) (simp_all add: json_PhysicalNetwork_def word_uint_eq_iff)

lemma inj_json_DefaultPath: "inj json_DefaultPath"
  by (rule injI, rule DefaultPathPayload.equality) (simp_all add: json_DefaultPath_def word_uint_eq_iff)

lemma inj_json_DNS: "inj json_DNS"
  by (rule injI, rule DNSPayload.equality) (simp_all add: json_DNS_def word_uint_eq_iff)

lemma inj_json_ScopedRoutes: "inj json_ScopedRoutes"
  by (rule injI, rule ScopedRoutesPayload.equality) (simp_all add: json_ScopedRoutes_def word_uint_eq_iff)

lemma inj_json_Transports: "inj json_Transports"
  by (rule injI, rule TransportsPayload.equality) (simp_all add: json_Transports_def word_uint_eq_iff)

lemma inj_json_Relays: "inj json_Relays"
  by (rule injI, rule RelaysPayload.equality) (simp_all add: json_Relays_def word_uint_eq_iff)

lemma inj_json_UserAccess: "inj json_UserAccess"
  by (rule injI, rule UserAccessPayload.equality) (simp_all add: json_UserAccess_def word_uint_eq_iff)

lemma inj_json_SessionExpiry: "inj json_SessionExpiry"
  by (rule injI, rule SessionExpiryPayload.equality) (simp_all add: json_SessionExpiry_def word_uint_eq_iff)

lemmas inj_payload_members = inj_json_PhysicalNetwork inj_json_DefaultPath inj_json_DNS inj_json_ScopedRoutes
  inj_json_Transports inj_json_Relays inj_json_UserAccess inj_json_SessionExpiry

lemmas inj_payload_options = inj_payload_members[THEN option.inj_map, THEN injD]

lemma json_Payload_inject: "json_Payload p = json_Payload q \<longleftrightarrow> p = q"
proof
  assume "json_Payload p = json_Payload q"
  then have "map_of (case json_Payload p of JObject xs \<Rightarrow> xs | _ \<Rightarrow> []) k =
      map_of (case json_Payload q of JObject xs \<Rightarrow> xs | _ \<Rightarrow> []) k" for k by simp
  note members = this[unfolded json_Payload_def json.case]
  show "p = q"
    using members[of "''physical_network''"] members[of "''default_path''"] members[of "''dns''"]
      members[of "''scoped_routes''"] members[of "''managed_transports''"]
      members[of "''relay_ingress''"] members[of "''user_access''"] members[of "''session_expiry''"]
    by (intro Payload.equality) (simp_all add: inj_payload_options del: map_of_append)
qed simp

lemma json_Fact_inject: "json_Fact f = json_Fact g \<longleftrightarrow> f = g"
proof
  assume "json_Fact f = json_Fact g"
  then show "f = g"
    by (intro Fact.equality) (simp_all add: json_Fact_def json_Payload_inject word_uint_eq_iff)
qed simp

lemma Encode_ok [ok_dests]:
  assumes "Encode cd f = Inr s"
  shows "Fact_Validate f = None" "MarshalCanonical cd (json_Fact f) = Inr s"
    "s \<noteq> ''''" "length s \<le> MaxEncodedFactBytes"
  using assms MarshalCanonical_ok[of cd "json_Fact f" s]
  by (auto simp: Encode_def split: option.splits sum.splits if_splits)

lemma Decode_ok [ok_dests]:
  assumes "Decode cd decode s = Inr f"
  shows "Encode cd f = Inr s" "decode s = Some (f, False)"
  using assms by (auto simp: Decode_def Encode_def split: option.splits sum.splits if_splits)

end
