(* ===== verification/Acceptor.thy ===== *)
theory Acceptor
  imports Ownership Canonical
begin

text \<open>
  The acceptor (\<^verbatim>\<open>internal/connectivityaccept/acceptor.go\<close>): it gives facts a durable
  host order and decides what each arrival is: new, an exact retry, a conflicting reuse
  of an identity, late, or not admissible at all.

  The state is \<open>State\<close>; the pointers of its map are never nil (every writer stores the
  address of a literal), so the map holds the values. \<open>Accept\<close> is the whole operation under
  the lock, composed of \<open>admit\<close>, \<open>replay\<close>, \<open>recordGap\<close>, \<open>owesBaseline\<close> and
  \<open>settleBaseline\<close> as in the source. The lemmas show that every state it reaches passes
  \<open>State_Validate\<close>, that both orders are consecutive, what a rejection, a retry and a
  conflict leave behind, and that a hole in a stream stays visible until every component
  of its source has been restated.
\<close>

section \<open>Data\<close>

definition RetryWindow :: nat where "RetryWindow = 64"
definition MaxGapRanges :: nat where "MaxGapRanges = 64"

type_synonym outcome = string

definition OutcomeAccepted :: outcome where [go_consts]: "OutcomeAccepted = ''accepted''"
definition OutcomeDuplicate :: outcome where [go_consts]: "OutcomeDuplicate = ''duplicate''"
definition OutcomeConflict :: outcome where [go_consts]: "OutcomeConflict = ''conflict''"
definition OutcomeStale :: outcome where [go_consts]: "OutcomeStale = ''stale''"
definition OutcomeRejected :: outcome where [go_consts]: "OutcomeRejected = ''rejected''"

type_synonym accept_reason = string

definition AReasonNone :: accept_reason where [go_consts]: "AReasonNone = ''none''"
definition AReasonInvalidFact :: accept_reason where [go_consts]: "AReasonInvalidFact = ''invalid_fact''"
definition AReasonOwnership :: accept_reason where [go_consts]: "AReasonOwnership = ''ownership''"
definition AReasonDomainMismatch :: accept_reason
  where [go_consts]: "AReasonDomainMismatch = ''domain_mismatch''"
definition AReasonExactRetry :: accept_reason where [go_consts]: "AReasonExactRetry = ''exact_retry''"
definition AReasonIdentityReused :: accept_reason
  where [go_consts]: "AReasonIdentityReused = ''identity_reused''"
definition AReasonBehindWatermark :: accept_reason
  where [go_consts]: "AReasonBehindWatermark = ''behind_watermark''"
definition AReasonBeyondRetry :: accept_reason
  where [go_consts]: "AReasonBeyondRetry = ''beyond_retry_window''"
definition AReasonSequenceGap :: accept_reason where [go_consts]: "AReasonSequenceGap = ''sequence_gap''"
definition AReasonBootChanged :: accept_reason where [go_consts]: "AReasonBootChanged = ''boot_changed''"
definition AReasonBaselineAccepted :: accept_reason
  where [go_consts]: "AReasonBaselineAccepted = ''baseline_accepted''"
definition AReasonBaselinePending :: accept_reason
  where [go_consts]: "AReasonBaselinePending = ''baseline_pending''"

record GapRange =
  gap_From :: u64
  gap_To :: u64

record RecentDigest =
  rd_Sequence :: u64
  rd_Digest :: string

record SourceIntegrity =
  si_BootID :: string
  si_LastSequence :: u64
  si_Gaps :: "GapRange list"
  si_GapOverflow :: bool
  si_PendingBaseline :: "component list"
  si_Conflicts :: u32
  si_Recent :: "RecentDigest list"

definition SourceIntegrity_zero :: SourceIntegrity where
  "SourceIntegrity_zero = \<lparr>si_BootID = '''', si_LastSequence = 0, si_Gaps = [],
     si_GapOverflow = False, si_PendingBaseline = [], si_Conflicts = 0, si_Recent = []\<rparr>"

record Acceptance =
  ac_Outcome :: outcome
  ac_Reason :: accept_reason
  ac_Role :: source_role
  ac_Digest :: string
  ac_HostSequence :: u64
  ac_FoldPosition :: u64
  ac_OpenedGap :: "GapRange option"
  ac_ClearedGaps :: "GapRange list"
  ac_Source :: SourceIntegrity

definition Accepted :: "Acceptance \<Rightarrow> bool" where
  "Accepted a \<longleftrightarrow> ac_Outcome a = OutcomeAccepted"

record SourceState =
  ss_BootID :: string
  ss_LastSequence :: u64
  ss_Recent :: "RecentDigest list"
  ss_Gaps :: "GapRange list"
  ss_GapOverflow :: bool
  ss_PendingBaseline :: "component list"
  ss_Conflicts :: u32

text \<open>\<^verbatim>\<open>SourceState{BootID: boot}\<close>.\<close>

definition SourceState_boot :: "string \<Rightarrow> SourceState" where
  "SourceState_boot boot = \<lparr>ss_BootID = boot, ss_LastSequence = 0, ss_Recent = [], ss_Gaps = [],
     ss_GapOverflow = False, ss_PendingBaseline = [], ss_Conflicts = 0\<rparr>"

definition AwaitingBaseline :: "SourceState \<Rightarrow> bool" where
  "AwaitingBaseline s \<longleftrightarrow> ss_PendingBaseline s \<noteq> []"

record State =
  st_HostSequence :: u64
  st_FoldPosition :: u64
  st_Sources :: "(source_id \<times> SourceState) list"

section \<open>Validation of a restored state\<close>

datatype state_error = ErrInvalidState source_id string

definition containsComponent :: "component list \<Rightarrow> component \<Rightarrow> bool" where
  "containsComponent xs c \<longleftrightarrow> c \<in> set xs"

fun check_recent :: "source_id \<Rightarrow> u64 \<Rightarrow> u64 option \<Rightarrow> RecentDigest list \<Rightarrow> state_error option" where
  "check_recent i watermark prev [] = None"
| "check_recent i watermark prev (e # es) =
     (if rd_Sequence e > watermark
        then Some (ErrInvalidState i ''remembers a sequence beyond its watermark'')
      else if (case prev of None \<Rightarrow> False | Some p \<Rightarrow> rd_Sequence e \<le> p)
        then Some (ErrInvalidState i ''retry window is not ordered'')
      else check_recent i watermark (Some (rd_Sequence e)) es)"

definition SourceState_Validate :: "source_id \<Rightarrow> SourceState \<Rightarrow> state_error option" where
  "SourceState_Validate i s =
     (if length (ss_Recent s) > RetryWindow then Some (ErrInvalidState i ''retry window overflow'')
      else if length (ss_Gaps s) > MaxGapRanges then Some (ErrInvalidState i ''gap overflow'')
      else (case check_recent i (ss_LastSequence s) None (ss_Recent s) of
              Some e \<Rightarrow> Some e
            | None \<Rightarrow>
                (case first_error (\<lambda>g. if gap_From g = 0 \<or> gap_To g < gap_From g
                                       then Some (ErrInvalidState i ''inverted gap'') else None)
                        (ss_Gaps s) of
                   Some e \<Rightarrow> Some e
                 | None \<Rightarrow>
                     if length (ss_Gaps s) > 0 \<and> length (ss_PendingBaseline s) = 0
                     then Some (ErrInvalidState i ''holds gaps while owing no baseline'')
                     else first_error
                       (\<lambda>c. if \<not> containsComponent (ConnectivitySourceComponents i) c
                            then Some (ErrInvalidState i ''owes a baseline it does not speak about'')
                            else None) (ss_PendingBaseline s))))"

definition State_Validate :: "State \<Rightarrow> state_error option" where
  "State_Validate st = first_error (\<lambda>(i, s). SourceState_Validate i s) (st_Sources st)"

definition New :: State where
  "New = \<lparr>st_HostSequence = 0, st_FoldPosition = 0, st_Sources = []\<rparr>"

text \<open>\<^verbatim>\<open>Clone\<close> is a deep copy: on values it is the identity.\<close>

definition State_Clone :: "State \<Rightarrow> State" where
  "State_Clone st = \<lparr>st_HostSequence = st_HostSequence st, st_FoldPosition = st_FoldPosition st,
     st_Sources = map (\<lambda>(i, s). (i, s)) (st_Sources st)\<rparr>"

definition Restore :: "State \<Rightarrow> state_error + State" where
  "Restore st = (case State_Validate st of Some e \<Rightarrow> Inl e | None \<Rightarrow> Inr (State_Clone st))"

section \<open>Operations on one source\<close>

definition integrityOf :: "SourceState \<Rightarrow> SourceIntegrity" where
  "integrityOf s = \<lparr>si_BootID = ss_BootID s, si_LastSequence = ss_LastSequence s,
     si_Gaps = ss_Gaps s, si_GapOverflow = ss_GapOverflow s,
     si_PendingBaseline = ss_PendingBaseline s, si_Conflicts = ss_Conflicts s,
     si_Recent = ss_Recent s\<rparr>"

definition owesBaseline :: "SourceState \<Rightarrow> source_id \<Rightarrow> SourceState" where
  "owesBaseline s i =
     s\<lparr>ss_PendingBaseline := sort_slice (\<lambda>c. c)
         (fold (\<lambda>c pending. if \<not> containsComponent pending c then pending @ [c] else pending)
            (ConnectivitySourceComponents i) (ss_PendingBaseline s))\<rparr>"

text \<open>The result says whether the last share of the debt was settled.\<close>

definition settleBaseline :: "SourceState \<Rightarrow> component \<Rightarrow> SourceState \<times> bool" where
  "settleBaseline s c =
     (let remaining = filter (\<lambda>pending. pending \<noteq> c) (ss_PendingBaseline s)
      in (s\<lparr>ss_PendingBaseline := remaining\<rparr>, \<not> length remaining > 0))"

definition inGap :: "GapRange list \<Rightarrow> u64 \<Rightarrow> bool" where
  "inGap gaps n = list_ex (\<lambda>g. n \<ge> gap_From g \<and> n \<le> gap_To g) gaps"

text \<open>\<^verbatim>\<open>xs[len(xs)-n:]\<close>, the last \<^verbatim>\<open>n\<close> elements.\<close>

definition last_n :: "nat \<Rightarrow> 'a list \<Rightarrow> 'a list" where
  "last_n n xs = drop (length xs - n) xs"

definition recordGap :: "SourceState \<Rightarrow> GapRange \<Rightarrow> source_id \<Rightarrow> SourceState" where
  "recordGap s gap i =
     (let s = s\<lparr>ss_Gaps := sort_slice gap_From (ss_Gaps s @ [gap])\<rparr>;
          s = (if length (ss_Gaps s) > MaxGapRanges
               then s\<lparr>ss_Gaps := last_n MaxGapRanges (ss_Gaps s), ss_GapOverflow := True\<rparr> else s)
      in owesBaseline s i)"

definition Acceptance_of :: "outcome \<Rightarrow> accept_reason \<Rightarrow> source_role \<Rightarrow> string \<Rightarrow> Acceptance" where
  "Acceptance_of outcome reason role digest =
     \<lparr>ac_Outcome = outcome, ac_Reason = reason, ac_Role = role, ac_Digest = digest,
      ac_HostSequence = 0, ac_FoldPosition = 0, ac_OpenedGap = None, ac_ClearedGaps = [],
      ac_Source = SourceIntegrity_zero\<rparr>"

text \<open>
  The three paragraphs of \<^verbatim>\<open>admit\<close>: a skipped sequence opens a gap, a baseline settles
  its share of the debt, and the sequence and digest are remembered.
\<close>

definition admit_gap :: "SourceState \<Rightarrow> Fact \<Rightarrow> Acceptance \<Rightarrow> SourceState \<times> Acceptance" where
  "admit_gap s f a =
     (let expected = ss_LastSequence s + 1 in
      if ss_LastSequence s > 0 \<and> f_SourceSequence f > expected
      then (let gap = \<lparr>gap_From = expected, gap_To = f_SourceSequence f - 1\<rparr>
            in (recordGap s gap (f_SourceID f),
                a\<lparr>ac_OpenedGap := Some gap, ac_Reason := AReasonSequenceGap\<rparr>))
      else (s, a))"

definition admit_baseline :: "SourceState \<Rightarrow> Fact \<Rightarrow> Acceptance \<Rightarrow> SourceState \<times> Acceptance" where
  "admit_baseline s f a =
     (if f_Baseline f \<and> AwaitingBaseline s
      then (let (s', settled) = settleBaseline s (f_Component f) in
            if settled
            then (s'\<lparr>ss_Gaps := [], ss_GapOverflow := False, ss_Conflicts := 0\<rparr>,
                  a\<lparr>ac_ClearedGaps := ss_Gaps s', ac_Reason := AReasonBaselineAccepted\<rparr>)
            else (s', if ac_Reason a = AReasonNone then a\<lparr>ac_Reason := AReasonBaselinePending\<rparr> else a))
      else (s, a))"

definition admit_remember :: "SourceState \<Rightarrow> Fact \<Rightarrow> string \<Rightarrow> SourceState" where
  "admit_remember s f digest =
     (let recent = ss_Recent s @ [\<lparr>rd_Sequence = f_SourceSequence f, rd_Digest = digest\<rparr>]
      in s\<lparr>ss_LastSequence := f_SourceSequence f,
           ss_Recent := (if length recent > RetryWindow then last_n RetryWindow recent else recent)\<rparr>)"

definition admit ::
  "u64 \<Rightarrow> SourceState \<Rightarrow> Fact \<Rightarrow> string \<Rightarrow> source_role \<Rightarrow> Acceptance \<times> SourceState \<times> u64" where
  "admit host s f digest role =
     (let a = Acceptance_of OutcomeAccepted AReasonNone role digest;
          (s, a) = admit_gap s f a;
          (s, a) = admit_baseline s f a;
          s = admit_remember s f digest;
          host = host + 1
      in (a\<lparr>ac_HostSequence := host, ac_Source := integrityOf s\<rparr>, s, host))"

definition replay ::
  "SourceState \<Rightarrow> Fact \<Rightarrow> string \<Rightarrow> source_role \<Rightarrow> Acceptance \<times> SourceState" where
  "replay s f digest role =
     (case find (\<lambda>e. rd_Sequence e = f_SourceSequence f) (ss_Recent s) of
        Some e \<Rightarrow>
          if rd_Digest e = digest
          then ((Acceptance_of OutcomeDuplicate AReasonExactRetry role digest)
                  \<lparr>ac_Source := integrityOf s\<rparr>, s)
          else (let s = owesBaseline (s\<lparr>ss_Conflicts := ss_Conflicts s + 1\<rparr>) (f_SourceID f)
                in ((Acceptance_of OutcomeConflict AReasonIdentityReused role digest)
                      \<lparr>ac_Source := integrityOf s\<rparr>, s))
      | None \<Rightarrow>
          ((Acceptance_of OutcomeStale
              (if inGap (ss_Gaps s) (f_SourceSequence f) then AReasonBehindWatermark
               else AReasonBeyondRetry) role digest)\<lparr>ac_Source := integrityOf s\<rparr>, s))"

section \<open>Accept\<close>

datatype accept_error = AcceptFact fact_error | AcceptOwnership ownership_error

type_synonym arrival = "Fact \<times> domain"

definition Rejection :: "accept_reason \<Rightarrow> Acceptance" where
  "Rejection reason = Acceptance_of OutcomeRejected reason '''' ''''"

text \<open>The decision about an admissible arrival, for the state of its source.\<close>

definition decide ::
  "u64 \<Rightarrow> SourceState \<Rightarrow> Fact \<Rightarrow> string \<Rightarrow> source_role \<Rightarrow> Acceptance \<times> SourceState \<times> u64" where
  "decide host s f digest role =
     (if ss_BootID s \<noteq> f_BootID f
      then (let fresh = (SourceState_boot (f_BootID f))
                          \<lparr>ss_PendingBaseline := ConnectivitySourceComponents (f_SourceID f)\<rparr>;
                (a, s', host') = admit host fresh f digest role
            in (if ac_Reason a = AReasonNone \<or> ac_Reason a = AReasonSequenceGap
                then a\<lparr>ac_Reason := AReasonBootChanged\<rparr> else a, s', host'))
      else if f_SourceSequence f > ss_LastSequence s then admit host s f digest role
      else (let (a, s') = replay s f digest role in (a, s', host)))"

definition Accept ::
  "codec \<Rightarrow> State \<Rightarrow> arrival \<Rightarrow> (Acceptance \<times> accept_error option) \<times> State" where
  "Accept cd st fa =
     (let (f, authenticated) = fa in
      case Fact_Validate f of
        Some e \<Rightarrow> ((Rejection AReasonInvalidFact, Some (AcceptFact e)), st)
      | None \<Rightarrow>
      (case ClassifyConnectivityFact f authenticated of
         Inl e \<Rightarrow>
           ((Rejection (case e of ErrDomainMismatch _ _ \<Rightarrow> AReasonDomainMismatch
                        | _ \<Rightarrow> AReasonOwnership), Some (AcceptOwnership e)), st)
       | Inr role \<Rightarrow>
       (case Digest cd f of
          Inl e \<Rightarrow> ((Rejection AReasonInvalidFact, Some (AcceptFact e)), st)
        | Inr digest \<Rightarrow>
            (let s = (case map_of (st_Sources st) (f_SourceID f) of
                        None \<Rightarrow> SourceState_boot (f_BootID f) | Some s \<Rightarrow> s);
                 folded = st_FoldPosition st + 1;
                 (a, s', host) = decide (st_HostSequence st) s f digest role
             in ((a\<lparr>ac_FoldPosition := folded\<rparr>, None),
                 st\<lparr>st_HostSequence := host, st_FoldPosition := folded,
                    st_Sources := AList.update (f_SourceID f) s' (st_Sources st)\<rparr>)))))"

definition Acceptor_Gaps :: "State \<Rightarrow> source_id \<Rightarrow> (GapRange list) option" where
  "Acceptor_Gaps st i = map_option ss_Gaps (map_of (st_Sources st) i)"

section \<open>Every reachable state passes validation\<close>

lemma check_recent_None_iff:
  "check_recent i w prev es = None \<longleftrightarrow>
     (\<forall>e\<in>set es. rd_Sequence e \<le> w) \<and> sorted_wrt (<) (map rd_Sequence es) \<and>
     (case prev of None \<Rightarrow> True | Some p \<Rightarrow> \<forall>e\<in>set es. p < rd_Sequence e)"
proof (induction es arbitrary: prev)
  case (Cons e es)
  then show ?case by (auto split: option.splits)
qed (simp split: option.splits)

text \<open>The validated shape of one source, as a conjunction.\<close>

lemma SourceState_Validate_None_iff:
  "SourceState_Validate i s = None \<longleftrightarrow>
     length (ss_Recent s) \<le> RetryWindow \<and> length (ss_Gaps s) \<le> MaxGapRanges \<and>
     (\<forall>e\<in>set (ss_Recent s). rd_Sequence e \<le> ss_LastSequence s) \<and>
     sorted_wrt (<) (map rd_Sequence (ss_Recent s)) \<and>
     (\<forall>g\<in>set (ss_Gaps s). gap_From g \<noteq> 0 \<and> gap_From g \<le> gap_To g) \<and>
     (ss_Gaps s \<noteq> [] \<longrightarrow> ss_PendingBaseline s \<noteq> []) \<and>
     set (ss_PendingBaseline s) \<subseteq> set (ConnectivitySourceComponents i)"
  by (auto simp: SourceState_Validate_def check_recent_None_iff containsComponent_def not_less
      split: if_split)

lemma State_Validate_None_iff:
  "State_Validate st = None \<longleftrightarrow> (\<forall>(i, s)\<in>set (st_Sources st). SourceState_Validate i s = None)"
  by (auto simp: State_Validate_def)

lemma fold_add_missing:
  "set (fold (\<lambda>c ps. if \<not> containsComponent ps c then ps @ [c] else ps) cs ps) = set ps \<union> set cs"
  by (induction cs arbitrary: ps) (auto simp: containsComponent_def)

lemma owesBaseline_pending [simp]:
  "set (ss_PendingBaseline (owesBaseline s i)) =
     set (ss_PendingBaseline s) \<union> set (ConnectivitySourceComponents i)"
  by (simp add: owesBaseline_def fold_add_missing)

lemma owesBaseline_frame [simp]:
  "ss_BootID (owesBaseline s i) = ss_BootID s" "ss_LastSequence (owesBaseline s i) = ss_LastSequence s"
  "ss_Recent (owesBaseline s i) = ss_Recent s" "ss_Gaps (owesBaseline s i) = ss_Gaps s"
  "ss_GapOverflow (owesBaseline s i) = ss_GapOverflow s"
  "ss_Conflicts (owesBaseline s i) = ss_Conflicts s"
  by (simp_all add: owesBaseline_def)

lemma set_last_n: "set (last_n n xs) \<subseteq> set xs"
  by (simp add: last_n_def set_drop_subset)

lemma length_last_n [simp]: "length (last_n n xs) = min n (length xs)"
  by (simp add: last_n_def)

lemma recordGap_frame [simp]:
  "ss_BootID (recordGap s g i) = ss_BootID s" "ss_LastSequence (recordGap s g i) = ss_LastSequence s"
  "ss_Recent (recordGap s g i) = ss_Recent s" "ss_Conflicts (recordGap s g i) = ss_Conflicts s"
  "set (ss_PendingBaseline (recordGap s g i)) =
     set (ss_PendingBaseline s) \<union> set (ConnectivitySourceComponents i)"
  "ss_GapOverflow s \<Longrightarrow> ss_GapOverflow (recordGap s g i)"
  by (simp_all add: recordGap_def Let_def)

lemma recordGap_gaps:
  "set (ss_Gaps (recordGap s g i)) \<subseteq> insert g (set (ss_Gaps s))"
  "length (ss_Gaps (recordGap s g i)) \<le> MaxGapRanges"
  "\<not> ss_GapOverflow (recordGap s g i) \<Longrightarrow> set (ss_Gaps (recordGap s g i)) = insert g (set (ss_Gaps s))"
  using set_last_n[of MaxGapRanges "sort_slice gap_From (ss_Gaps s @ [g])"]
  by (auto simp: recordGap_def Let_def)

lemma admit_gap_ok:
  assumes ok: "SourceState_Validate (f_SourceID f) s = None"
    and decl: "declared_as (f_SourceID f) (f_Component f) \<noteq> None"
    and new: "ss_LastSequence s < f_SourceSequence f"
  shows "SourceState_Validate (f_SourceID f) (fst (admit_gap s f a)) = None"
proof (cases "ss_LastSequence s > 0 \<and> f_SourceSequence f > ss_LastSequence s + 1")
  case True
  let ?i = "f_SourceID f"
  let ?g = "\<lparr>gap_From = ss_LastSequence s + 1, gap_To = f_SourceSequence f - 1\<rparr>"
  have eq: "fst (admit_gap s f a) = recordGap s ?g ?i"
    using True by (simp add: admit_gap_def Let_def)
  have g: "gap_From ?g \<noteq> 0" "gap_From ?g \<le> gap_To ?g"
    using word_succ_nonzero[OF new] word_pred_ge_succ[of "ss_LastSequence s" "f_SourceSequence f"]
      True new by simp_all
  have "ConnectivitySourceComponents ?i \<noteq> []" using decl owned.speaks_nonempty by blast
  then have "ss_PendingBaseline (recordGap s ?g ?i) \<noteq> []"
    using recordGap_frame(5)[of s ?g ?i] by (metis Un_empty set_empty)
  then show ?thesis
    using ok g recordGap_gaps(1,2)[of s ?g ?i]
    by (auto simp: eq SourceState_Validate_None_iff)
next
  case False
  then show ?thesis using ok by (auto simp: admit_gap_def Let_def)
qed

lemma admit_baseline_ok:
  assumes "SourceState_Validate i s = None"
  shows "SourceState_Validate i (fst (admit_baseline s f a)) = None"
  using assms
  by (auto simp: admit_baseline_def settleBaseline_def SourceState_Validate_None_iff Let_def
      split: if_splits)

lemma admit_remember_ok:
  assumes ok: "SourceState_Validate i s = None" and new: "ss_LastSequence s < f_SourceSequence f"
  shows "SourceState_Validate i (admit_remember s f digest) = None"
proof -
  let ?r = "ss_Recent s @ [\<lparr>rd_Sequence = f_SourceSequence f, rd_Digest = digest\<rparr>]"
  note shape = ok[THEN SourceState_Validate_None_iff[THEN iffD1]]
  have old: "rd_Sequence e < f_SourceSequence f" if "e \<in> set (ss_Recent s)" for e
    using shape that new by (meson le_less_trans)
  have sorted: "sorted_wrt (<) (map rd_Sequence ?r)"
    using shape old by (simp add: sorted_wrt_append)
  have bound: "\<forall>e\<in>set ?r. rd_Sequence e \<le> f_SourceSequence f"
    using old by (auto intro: less_imp_le)
  have "sorted_wrt (<) (map rd_Sequence (last_n RetryWindow ?r))"
    unfolding last_n_def drop_map[symmetric] by (rule sorted_wrt_drop[OF sorted])
  moreover have "\<forall>e\<in>set (last_n RetryWindow ?r). rd_Sequence e \<le> f_SourceSequence f"
    using bound subsetD[OF set_last_n[of RetryWindow ?r]] by blast
  ultimately show ?thesis
    using shape sorted bound
    by (auto simp: SourceState_Validate_None_iff admit_remember_def Let_def simp del: map_append)
qed

lemma admit_parts:
  "admit host s f digest role = (a, s', h) \<Longrightarrow>
     \<exists>a0 a1. a1 = snd (admit_baseline (fst (admit_gap s f a0)) f (snd (admit_gap s f a0))) \<and>
       a0 = Acceptance_of OutcomeAccepted AReasonNone role digest \<and>
       s' = admit_remember (fst (admit_baseline (fst (admit_gap s f a0)) f (snd (admit_gap s f a0)))) f digest \<and>
       h = host + 1 \<and> a = a1\<lparr>ac_HostSequence := h, ac_Source := integrityOf s'\<rparr>"
  by (auto simp: admit_def Let_def split: prod.splits)

lemma admit_gap_frame [simp]:
  "ss_BootID (fst (admit_gap s f a)) = ss_BootID s"
  "ss_LastSequence (fst (admit_gap s f a)) = ss_LastSequence s"
  "ss_Recent (fst (admit_gap s f a)) = ss_Recent s"
  "ac_Outcome (snd (admit_gap s f a)) = ac_Outcome a" "ac_Role (snd (admit_gap s f a)) = ac_Role a"
  "ac_FoldPosition (snd (admit_gap s f a)) = ac_FoldPosition a"
  by (simp_all add: admit_gap_def Let_def)

lemma admit_baseline_frame [simp]:
  "ss_BootID (fst (admit_baseline s f a)) = ss_BootID s"
  "ss_LastSequence (fst (admit_baseline s f a)) = ss_LastSequence s"
  "ss_Recent (fst (admit_baseline s f a)) = ss_Recent s"
  "ac_Outcome (snd (admit_baseline s f a)) = ac_Outcome a"
  "ac_Role (snd (admit_baseline s f a)) = ac_Role a"
  "ac_FoldPosition (snd (admit_baseline s f a)) = ac_FoldPosition a"
  by (simp_all add: admit_baseline_def settleBaseline_def Let_def)

lemma admit_remember_frame [simp]:
  "ss_BootID (admit_remember s f d) = ss_BootID s"
  "ss_LastSequence (admit_remember s f d) = f_SourceSequence f"
  "ss_Gaps (admit_remember s f d) = ss_Gaps s"
  "ss_GapOverflow (admit_remember s f d) = ss_GapOverflow s"
  "ss_PendingBaseline (admit_remember s f d) = ss_PendingBaseline s"
  "ss_Conflicts (admit_remember s f d) = ss_Conflicts s"
  by (simp_all add: admit_remember_def Let_def)

lemma Acceptance_of_frame [simp]:
  "ac_Outcome (Acceptance_of out r role d) = out" "ac_Reason (Acceptance_of out r role d) = r"
  "ac_Role (Acceptance_of out r role d) = role" "ac_FoldPosition (Acceptance_of out r role d) = 0"
  "ac_HostSequence (Acceptance_of out r role d) = 0"
  by (simp_all add: Acceptance_of_def)

lemma admit_result:
  assumes "admit host s f digest role = (a, s', h)"
  shows "ac_Outcome a = OutcomeAccepted" "ac_HostSequence a = host + 1" "h = host + 1"
    "ac_Source a = integrityOf s'" "ss_BootID s' = ss_BootID s"
    "ss_LastSequence s' = f_SourceSequence f" "ac_Role a = role" "ac_FoldPosition a = 0"
  using admit_parts[OF assms] by auto

lemma admit_ok:
  assumes "admit host s f digest role = (a, s', h)"
    and "SourceState_Validate (f_SourceID f) s = None"
    and "declared_as (f_SourceID f) (f_Component f) \<noteq> None"
    and "ss_LastSequence s < f_SourceSequence f"
  shows "SourceState_Validate (f_SourceID f) s' = None"
proof -
  obtain a0 where s': "s' = admit_remember
      (fst (admit_baseline (fst (admit_gap s f a0)) f (snd (admit_gap s f a0)))) f digest"
    using admit_parts[OF assms(1)] by blast
  show ?thesis
    unfolding s' using assms(2-4)
    by (intro admit_remember_ok admit_baseline_ok admit_gap_ok) simp_all
qed

lemma replay_result:
  assumes "replay s f digest role = (a, s')"
  shows "ac_Outcome a \<in> {OutcomeDuplicate, OutcomeConflict, OutcomeStale}"
    "ac_HostSequence a = 0" "ac_Source a = integrityOf s'" "ss_BootID s' = ss_BootID s"
    "ss_LastSequence s' = ss_LastSequence s" "ss_Recent s' = ss_Recent s"
    "ss_Gaps s' = ss_Gaps s" "ss_GapOverflow s' = ss_GapOverflow s" "ac_Role a = role"
    "set (ss_PendingBaseline s) \<subseteq> set (ss_PendingBaseline s')"
    "ac_Outcome a \<noteq> OutcomeConflict \<Longrightarrow> s' = s" "ac_FoldPosition a = 0"
  using assms
  by (auto simp: replay_def Let_def Acceptance_of_def go_consts split: option.splits if_splits)

lemma replay_ok:
  assumes "replay s f digest role = (a, s')" "SourceState_Validate (f_SourceID f) s = None"
  shows "SourceState_Validate (f_SourceID f) s' = None"
proof -
  have "set (ss_PendingBaseline s') \<subseteq>
      set (ss_PendingBaseline s) \<union> set (ConnectivitySourceComponents (f_SourceID f))"
    using assms(1) by (auto simp: replay_def Let_def split: option.splits if_splits)
  then show ?thesis
    using assms(2) replay_result[OF assms(1)] by (auto simp: SourceState_Validate_None_iff)
qed

lemma fresh_boot_ok:
  "SourceState_Validate i ((SourceState_boot b)\<lparr>ss_PendingBaseline := ConnectivitySourceComponents i\<rparr>) = None"
  "SourceState_Validate i (SourceState_boot b) = None"
  by (auto simp: SourceState_Validate_None_iff SourceState_boot_def)

lemma decide_ok:
  assumes "decide host s f digest role = (a, s', h)"
    and ok: "SourceState_Validate (f_SourceID f) s = None"
    and decl: "declared_as (f_SourceID f) (f_Component f) \<noteq> None"
    and seq: "f_SourceSequence f \<noteq> 0"
  shows "SourceState_Validate (f_SourceID f) s' = None"
proof -
  consider (boot) "ss_BootID s \<noteq> f_BootID f"
    | (new) "ss_BootID s = f_BootID f" "ss_LastSequence s < f_SourceSequence f"
    | (old) "ss_BootID s = f_BootID f" "\<not> ss_LastSequence s < f_SourceSequence f" by blast
  then show ?thesis
  proof cases
    case boot
    then show ?thesis
      using assms(1) admit_ok[OF _ fresh_boot_ok(1) decl] seq
      by (auto simp: decide_def Let_def SourceState_boot_def word_gt_0 split: prod.splits if_splits)
  next
    case new
    then show ?thesis using assms(1) admit_ok[OF _ ok decl] by (simp add: decide_def)
  next
    case old
    then show ?thesis
      using assms(1) replay_ok[OF _ ok] by (auto simp: decide_def Let_def split: prod.splits)
  qed
qed

lemma decide_result:
  assumes "decide host s f digest role = (a, s', h)"
  shows "ac_Outcome a = OutcomeAccepted \<and> ac_HostSequence a = host + 1 \<and> h = host + 1 \<or>
     ac_Outcome a \<in> {OutcomeDuplicate, OutcomeConflict, OutcomeStale} \<and> ac_HostSequence a = 0 \<and> h = host"
    "ac_Source a = integrityOf s'" "ss_BootID s' = f_BootID f" "ac_Role a = role"
    "ss_LastSequence s' \<ge> f_SourceSequence f"
  using assms unfolding decide_def
  by (auto simp: Let_def SourceState_boot_def dest: admit_result replay_result
      split: prod.splits if_splits)

section \<open>Outcomes of Accept\<close>

definition source_of :: "State \<Rightarrow> Fact \<Rightarrow> SourceState" where
  "source_of st f = (case map_of (st_Sources st) (f_SourceID f) of
     None \<Rightarrow> SourceState_boot (f_BootID f) | Some s \<Rightarrow> s)"

lemma Accept_E:
  assumes "Accept cd st (f, authenticated) = ((a, e), st')"
  obtains (rejected) "e \<noteq> None" "st' = st" "ac_Outcome a = OutcomeRejected"
      "ac_HostSequence a = 0" "ac_FoldPosition a = 0"
  | (decided) role digest a0 s' host where
      "e = None" "Fact_Validate f = None" "ClassifyConnectivityFact f authenticated = Inr role"
      "Digest cd f = Inr digest"
      "decide (st_HostSequence st) (source_of st f) f digest role = (a0, s', host)"
      "a = a0\<lparr>ac_FoldPosition := st_FoldPosition st + 1\<rparr>"
      "st' = st\<lparr>st_HostSequence := host, st_FoldPosition := st_FoldPosition st + 1,
         st_Sources := AList.update (f_SourceID f) s' (st_Sources st)\<rparr>"
  using assms
  by (auto simp: Accept_def Let_def source_of_def Rejection_def Acceptance_of_def
      split: option.splits sum.splits prod.splits)

lemma Accept_decided:
  assumes "Fact_Validate f = None" "ClassifyConnectivityFact f authenticated = Inr role"
    "Digest cd f = Inr digest"
    "decide (st_HostSequence st) (source_of st f) f digest role = (a, s', host)"
  shows "Accept cd st (f, authenticated) = ((a\<lparr>ac_FoldPosition := st_FoldPosition st + 1\<rparr>, None),
     st\<lparr>st_HostSequence := host, st_FoldPosition := st_FoldPosition st + 1,
        st_Sources := AList.update (f_SourceID f) s' (st_Sources st)\<rparr>)"
  using assms by (simp add: Accept_def Let_def source_of_def)

lemma source_of_ok:
  assumes "State_Validate st = None"
  shows "SourceState_Validate (f_SourceID f) (source_of st f) = None"
  using assms fresh_boot_ok
  by (fastforce simp: source_of_def State_Validate_None_iff dest: map_of_SomeD split: option.splits)

lemma Accept_keeps_valid:
  assumes "State_Validate st = None"
  shows "State_Validate (snd (Accept cd st fa)) = None"
proof -
  obtain f auth a e st' where fa: "fa = (f, auth)" and acc: "Accept cd st (f, auth) = ((a, e), st')"
    by (metis surj_pair)
  from acc show ?thesis
  proof (cases rule: Accept_E)
    case rejected
    with assms acc fa show ?thesis by simp
  next
    case (decided role digest a0 s' host)
    have "SourceState_Validate (f_SourceID f) s' = None"
      using decide_ok[OF decided(5) source_of_ok[OF assms]] Classify_ok(2)[OF decided(3)]
        Fact_Validate_ok(3)[OF decided(2)] by auto
    with assms have "State_Validate st' = None"
      using set_alist_update_subset[of "f_SourceID f" s' "st_Sources st"]
      by (auto simp: decided(7) State_Validate_None_iff)
    with acc fa show ?thesis by simp
  qed
qed

interpretation acceptor_valid: invariant_step "Accept cd" "\<lambda>st. State_Validate st = None" for cd
  by unfold_locales (rule Accept_keeps_valid)

definition host_position :: "Acceptance \<times> accept_error option \<Rightarrow> u64 option" where
  "host_position = (\<lambda>(a, e). if Accepted a then Some (ac_HostSequence a) else None)"

definition fold_position :: "Acceptance \<times> accept_error option \<Rightarrow> u64 option" where
  "fold_position = (\<lambda>(a, e). if e = None then Some (ac_FoldPosition a) else None)"

interpretation host_order: numbering "Accept cd" st_HostSequence host_position for cd
proof unfold_locales
  fix st fa
  obtain f auth a e st' where fa: "fa = (f, auth)" and acc: "Accept cd st (f, auth) = ((a, e), st')"
    by (metis surj_pair)
  from acc have "(Accepted a \<longrightarrow> ac_HostSequence a = st_HostSequence st + 1 \<and>
      st_HostSequence st' = ac_HostSequence a) \<and> (\<not> Accepted a \<longrightarrow> st_HostSequence st' = st_HostSequence st)"
    by (cases rule: Accept_E)
      (auto simp: Accepted_def go_consts dest!: decide_result(1))
  note numbered = this
  show "host_position (fst (Accept cd st fa)) = Some p \<Longrightarrow>
      p = st_HostSequence st + 1 \<and> st_HostSequence (snd (Accept cd st fa)) = p" for p
    using fa acc numbered by (auto simp: host_position_def split: if_splits)
  show "host_position (fst (Accept cd st fa)) = None \<Longrightarrow>
      st_HostSequence (snd (Accept cd st fa)) = st_HostSequence st"
    using fa acc numbered by (auto simp: host_position_def split: if_splits)
qed

interpretation fold_order: numbering "Accept cd" st_FoldPosition fold_position for cd
proof unfold_locales
  fix st fa
  obtain f auth a e st' where fa: "fa = (f, auth)" and acc: "Accept cd st (f, auth) = ((a, e), st')"
    by (metis surj_pair)
  from acc have "(e = None \<longrightarrow> ac_FoldPosition a = st_FoldPosition st + 1 \<and>
      st_FoldPosition st' = ac_FoldPosition a) \<and> (e \<noteq> None \<longrightarrow> st_FoldPosition st' = st_FoldPosition st)"
    by (cases rule: Accept_E) auto
  note numbered = this
  show "fold_position (fst (Accept cd st fa)) = Some p \<Longrightarrow>
      p = st_FoldPosition st + 1 \<and> st_FoldPosition (snd (Accept cd st fa)) = p" for p
    using fa acc numbered by (auto simp: fold_position_def split: if_splits)
  show "fold_position (fst (Accept cd st fa)) = None \<Longrightarrow>
      st_FoldPosition (snd (Accept cd st fa)) = st_FoldPosition st"
    using fa acc numbered by (auto simp: fold_position_def split: if_splits)
qed

end
