(* ===== verification/Snapshot.thy ===== *)
theory Snapshot
  imports Acceptor
begin

text \<open>
  The normalized read model (\<^verbatim>\<open>internal/connectivityreduce/snapshot.go\<close>): component records,
  source watermarks, conflict records, the policy descriptor, the summary, the snapshot and
  its validation, and the trees its digests are taken of.
\<close>

section \<open>Constants\<close>

definition SnapshotSchema :: string
  where [go_consts]: "SnapshotSchema = ''hexroute.connectivity-snapshot.v1''"
definition SnapshotSchemaVersion :: u16 where [go_consts]: "SnapshotSchemaVersion = 3"
definition ReducerID :: string where [go_consts]: "ReducerID = ''hexroute.connectivity-reducer''"
definition ReducerVersion :: u16 where [go_consts]: "ReducerVersion = 4"
definition MaxCorroborations :: nat where "MaxCorroborations = 8"
definition MaxConflictRecords :: nat where "MaxConflictRecords = 8"

text \<open>
  The errors of a reduction. \<open>NilRecord\<close> is the panic of a nil record in the component
  table; it is never reached from a validated input (\<open>Reduce_no_panic\<close>).
\<close>

datatype reduce_error =
    ErrInvalidInput string
  | ErrInvalidInputFact fact_error
  | ErrInvalidSnapshot
  | ErrOutOfOrder u64 u64
  | ErrInvalidProposal string
  | ErrStaleProposal string
  | NilRecord component

type_synonym component_state = string

definition StateUnknown :: component_state where [go_consts]: "StateUnknown = ''unknown''"
definition StateReady :: component_state where [go_consts]: "StateReady = ''ready''"
definition StateDegraded :: component_state where [go_consts]: "StateDegraded = ''degraded''"
definition StateFailed :: component_state where [go_consts]: "StateFailed = ''failed''"
definition StateStale :: component_state where [go_consts]: "StateStale = ''stale''"
definition StateConflict :: component_state where [go_consts]: "StateConflict = ''conflict''"
definition StateNotApplicable :: component_state
  where [go_consts]: "StateNotApplicable = ''not_applicable''"

definition ComponentState_valid :: "component_state \<Rightarrow> bool" where
  "ComponentState_valid s \<longleftrightarrow> s = StateUnknown \<or> s = StateReady \<or> s = StateDegraded \<or>
     s = StateFailed \<or> s = StateStale \<or> s = StateConflict \<or> s = StateNotApplicable"

type_synonym authorization = string

definition AuthorizationAuthorized :: authorization
  where [go_consts]: "AuthorizationAuthorized = ''authorized''"
definition AuthorizationUnauthorized :: authorization
  where [go_consts]: "AuthorizationUnauthorized = ''unauthorized''"

type_synonym authorization_reason = string

definition AuthorizationReasonNone :: authorization_reason
  where [go_consts]: "AuthorizationReasonNone = ''none''"
definition AuthorizationReasonAbsent :: authorization_reason
  where [go_consts]: "AuthorizationReasonAbsent = ''policy_absent''"
definition AuthorizationReasonInvalid :: authorization_reason
  where [go_consts]: "AuthorizationReasonInvalid = ''policy_invalid''"
definition AuthorizationReasonSuspended :: authorization_reason
  where [go_consts]: "AuthorizationReasonSuspended = ''policy_suspended''"
definition AuthorizationReasonGenerationGap :: authorization_reason
  where [go_consts]: "AuthorizationReasonGenerationGap = ''policy_generation_mismatch''"

type_synonym aggregate_state = string

definition AggregateUnknown :: aggregate_state where [go_consts]: "AggregateUnknown = ''unknown''"
definition AggregateReady :: aggregate_state where [go_consts]: "AggregateReady = ''ready''"
definition AggregateDegraded :: aggregate_state where [go_consts]: "AggregateDegraded = ''degraded''"
definition AggregateFailed :: aggregate_state where [go_consts]: "AggregateFailed = ''failed''"

section \<open>Records\<close>

record Corroboration =
  co_Source :: source_id
  co_Lifecycle :: lifecycle
  co_Reason :: fact_reason
  co_Agrees :: bool
  co_MonotonicTick :: tick

record ComponentRecord =
  cr_Component :: component
  cr_State :: component_state
  cr_Domain :: domain
  cr_Source :: source_id
  cr_Observed :: lifecycle
  cr_Reason :: fact_reason
  cr_Payload :: Payload
  cr_BootID :: string
  cr_MonotonicTick :: tick
  cr_FreshnessDeadline :: tick
  cr_HostSequence :: u64
  cr_HasBaseline :: bool
  cr_RebaselineRequired :: bool
  cr_Conflicts :: u32
  cr_Corroborations :: "Corroboration list"

record SourceWatermark =
  wm_Source :: source_id
  wm_Domain :: domain
  wm_Role :: source_role
  wm_BootID :: string
  wm_LastSequence :: u64
  wm_Gaps :: "GapRange list"
  wm_GapOverflow :: bool
  wm_PendingBaseline :: "component list"
  wm_Conflicts :: u32
  wm_Recent :: "RecentDigest list"

definition Watermark_AwaitingBaseline :: "SourceWatermark \<Rightarrow> bool" where
  "Watermark_AwaitingBaseline w \<longleftrightarrow> length (wm_PendingBaseline w) > 0"

record ConflictRecord =
  cf_Source :: source_id
  cf_Component :: component
  cf_Sequence :: u64
  cf_Reason :: accept_reason
  cf_Count :: u32

record PolicyDescriptor =
  pd_Present :: bool
  pd_Valid :: bool
  pd_Suspended :: bool
  pd_BundleGeneration :: u64
  pd_RootGeneration :: u64
  pd_UserGeneration :: u64
  pd_ManifestDigest :: string

definition Authorized :: "PolicyDescriptor \<Rightarrow> bool" where
  "Authorized d \<longleftrightarrow> pd_Present d \<and> pd_Valid d \<and> \<not> pd_Suspended d \<and>
     pd_BundleGeneration d > 0 \<and> pd_ManifestDigest d \<noteq> ''''"

record Summary =
  su_State :: aggregate_state
  su_Authorization :: authorization
  su_Reason :: authorization_reason
  su_Ready :: u16
  su_Degraded :: u16
  su_Failed :: u16
  su_Stale :: u16
  su_Unknown :: u16
  su_Conflicted :: u16
  su_NotApplicable :: u16
  su_OpenGaps :: u16
  su_GapOverflow :: bool
  su_SourceConflicts :: u16
  su_AwaitingBaseline :: u16
  su_ConflictOverflow :: bool

record Snapshot =
  sn_Schema :: string
  sn_Version :: u16
  sn_Generation :: u64
  sn_ReducerID :: string
  sn_ReducerVersion :: u16
  sn_BootID :: string
  sn_EvaluationTick :: tick
  sn_Policy :: PolicyDescriptor
  sn_Authorization :: authorization
  sn_Reason :: authorization_reason
  sn_ConsumedHostSequence :: u64
  sn_ConsumedFoldPosition :: u64
  sn_Components :: "ComponentRecord list"
  sn_Sources :: "SourceWatermark list"
  sn_Conflicts :: "ConflictRecord list"
  sn_Summary :: Summary

section \<open>Validate\<close>

text \<open>The loop over the conflicts, with the counts per source seen so far.\<close>

fun conflicts_bounded :: "(source_id \<times> nat) list \<Rightarrow> ConflictRecord list \<Rightarrow> bool" where
  "conflicts_bounded per [] = True"
| "conflicts_bounded per (r # rs) =
     (let n = (case map_of per (cf_Source r) of None \<Rightarrow> 0 | Some n \<Rightarrow> n) + 1
      in if n > MaxConflictRecords then False
         else conflicts_bounded (AList.update (cf_Source r) n per) rs)"

definition watermark_bounded :: "SourceWatermark \<Rightarrow> bool" where
  "watermark_bounded w \<longleftrightarrow> \<not> length (wm_Gaps w) > MaxGapRanges \<and>
     \<not> (length (wm_Gaps w) > 0 \<and> \<not> Watermark_AwaitingBaseline w) \<and>
     \<not> length (wm_PendingBaseline w) > length (ConnectivitySourceComponents (wm_Source w))"

definition Snapshot_Validate :: "Snapshot \<Rightarrow> reduce_error option" where
  "Snapshot_Validate s =
     (if sn_Schema s \<noteq> SnapshotSchema \<or> sn_Version s \<noteq> SnapshotSchemaVersion then Some ErrInvalidSnapshot
      else if sn_ReducerID s \<noteq> ReducerID \<or> sn_ReducerVersion s \<noteq> ReducerVersion
        then Some ErrInvalidSnapshot
      else if sn_Generation s = 0 then Some ErrInvalidSnapshot
      else if length (sn_Components s) \<noteq> length Components then Some ErrInvalidSnapshot
      else if \<not> list_all (\<lambda>(r, expected). cr_Component r = expected \<and> ComponentState_valid (cr_State r))
                   (zip (sn_Components s) Components) then Some ErrInvalidSnapshot
      else if \<not> conflicts_bounded [] (sn_Conflicts s) then Some ErrInvalidSnapshot
      else if \<not> list_all watermark_bounded (sn_Sources s) then Some ErrInvalidSnapshot
      else if \<not> list_all (\<lambda>r. \<not> length (cr_Corroborations r) > MaxCorroborations) (sn_Components s)
        then Some ErrInvalidSnapshot
      else if sn_Authorization s = AuthorizationAuthorized \<and> sn_Reason s \<noteq> AuthorizationReasonNone
        then Some ErrInvalidSnapshot
      else if sn_Authorization s = AuthorizationUnauthorized \<and> sn_Reason s = AuthorizationReasonNone
        then Some ErrInvalidSnapshot
      else None)"

section \<open>Trees and digests\<close>

text \<open>A slice field without \<^verbatim>\<open>omitempty\<close> built by \<^verbatim>\<open>append\<close> from nil is \<^verbatim>\<open>null\<close> when empty.\<close>

definition json_slice :: "('a \<Rightarrow> json) \<Rightarrow> 'a list \<Rightarrow> json" where
  "json_slice j xs = (if xs = [] then JNull else JArray (map j xs))"

definition omit_slice :: "string \<Rightarrow> ('a \<Rightarrow> json) \<Rightarrow> 'a list \<Rightarrow> (string \<times> json) list" where
  "omit_slice n j xs = omit_when (xs = []) n (JArray (map j xs))"

definition json_GapRange :: "GapRange \<Rightarrow> json" where
  "json_GapRange g = JObject [(''from'', JInt (uint (gap_From g))), (''to'', JInt (uint (gap_To g)))]"

definition json_RecentDigest :: "RecentDigest \<Rightarrow> json" where
  "json_RecentDigest r = JObject [(''sequence'', JInt (uint (rd_Sequence r))), (''digest'', JString (rd_Digest r))]"

definition json_PolicyDescriptor :: "PolicyDescriptor \<Rightarrow> json" where
  "json_PolicyDescriptor d = JObject [
     (''present'', JBool (pd_Present d)), (''valid'', JBool (pd_Valid d)),
     (''suspended'', JBool (pd_Suspended d)),
     (''bundle_generation'', JInt (uint (pd_BundleGeneration d))),
     (''root_generation'', JInt (uint (pd_RootGeneration d))),
     (''user_generation'', JInt (uint (pd_UserGeneration d))),
     (''manifest_digest'', JString (pd_ManifestDigest d))]"

definition json_ConflictRecord :: "ConflictRecord \<Rightarrow> json" where
  "json_ConflictRecord r = JObject [
     (''source'', JString (cf_Source r)), (''component'', JString (cf_Component r)),
     (''source_sequence'', JInt (uint (cf_Sequence r))), (''reason'', JString (cf_Reason r)),
     (''count'', JInt (uint (cf_Count r)))]"

definition json_Summary :: "Summary \<Rightarrow> json" where
  "json_Summary s = JObject [
     (''state'', JString (su_State s)), (''authorization'', JString (su_Authorization s)),
     (''authorization_reason'', JString (su_Reason s)),
     (''ready'', JInt (uint (su_Ready s))), (''degraded'', JInt (uint (su_Degraded s))),
     (''failed'', JInt (uint (su_Failed s))), (''stale'', JInt (uint (su_Stale s))),
     (''unknown'', JInt (uint (su_Unknown s))), (''conflicted'', JInt (uint (su_Conflicted s))),
     (''not_applicable'', JInt (uint (su_NotApplicable s))),
     (''open_gaps'', JInt (uint (su_OpenGaps s))), (''gap_overflow'', JBool (su_GapOverflow s)),
     (''source_conflicts'', JInt (uint (su_SourceConflicts s))),
     (''awaiting_baseline'', JInt (uint (su_AwaitingBaseline s))),
     (''conflict_overflow'', JBool (su_ConflictOverflow s))]"

definition json_Corroboration :: "Corroboration \<Rightarrow> json" where
  "json_Corroboration c = JObject [
     (''source'', JString (co_Source c)), (''lifecycle'', JString (co_Lifecycle c)),
     (''reason'', JString (co_Reason c)), (''agrees'', JBool (co_Agrees c)),
     (''monotonic_tick'', JInt (co_MonotonicTick c))]"

definition json_ComponentRecord :: "ComponentRecord \<Rightarrow> json" where
  "json_ComponentRecord r = JObject (
     [(''component'', JString (cr_Component r)), (''state'', JString (cr_State r)),
      (''domain'', JString (cr_Domain r)), (''source'', JString (cr_Source r)),
      (''observed'', JString (cr_Observed r)), (''reason'', JString (cr_Reason r)),
      (''payload'', json_Payload (cr_Payload r))] @
     omit_when (cr_BootID r = '''') ''boot_id'' (JString (cr_BootID r)) @
     omit_when (cr_MonotonicTick r = 0) ''monotonic_tick'' (JInt (cr_MonotonicTick r)) @
     omit_when (cr_FreshnessDeadline r = 0) ''freshness_deadline'' (JInt (cr_FreshnessDeadline r)) @
     omit_when (cr_HostSequence r = 0) ''host_sequence'' (JInt (uint (cr_HostSequence r))) @
     [(''has_baseline'', JBool (cr_HasBaseline r))] @
     omit_when (\<not> cr_RebaselineRequired r) ''rebaseline_required'' (JBool (cr_RebaselineRequired r)) @
     [(''conflicts'', JInt (uint (cr_Conflicts r)))] @
     omit_slice ''corroborations'' json_Corroboration (cr_Corroborations r))"

definition json_SourceWatermark :: "SourceWatermark \<Rightarrow> json" where
  "json_SourceWatermark w = JObject (
     [(''source'', JString (wm_Source w)), (''domain'', JString (wm_Domain w)),
      (''role'', JString (wm_Role w)), (''boot_id'', JString (wm_BootID w)),
      (''last_sequence'', JInt (uint (wm_LastSequence w)))] @
     omit_slice ''gaps'' json_GapRange (wm_Gaps w) @
     [(''gap_overflow'', JBool (wm_GapOverflow w))] @
     omit_slice ''pending_baseline'' JString (wm_PendingBaseline w) @
     [(''conflicts'', JInt (uint (wm_Conflicts w)))] @
     omit_slice ''recent'' json_RecentDigest (wm_Recent w))"

text \<open>
  \<^verbatim>\<open>Components\<close> and \<^verbatim>\<open>Sources\<close> of a rendered snapshot are made with \<^verbatim>\<open>make\<close>, so they are never nil.
\<close>

definition json_Snapshot :: "Snapshot \<Rightarrow> json" where
  "json_Snapshot s = JObject (
     [(''schema'', JString (sn_Schema s)), (''version'', JInt (uint (sn_Version s))),
      (''generation'', JInt (uint (sn_Generation s))), (''reducer_id'', JString (sn_ReducerID s)),
      (''reducer_version'', JInt (uint (sn_ReducerVersion s))), (''boot_id'', JString (sn_BootID s)),
      (''evaluation_tick'', JInt (sn_EvaluationTick s)),
      (''policy'', json_PolicyDescriptor (sn_Policy s)),
      (''authorization'', JString (sn_Authorization s)),
      (''authorization_reason'', JString (sn_Reason s)),
      (''consumed_host_sequence'', JInt (uint (sn_ConsumedHostSequence s))),
      (''consumed_fold_position'', JInt (uint (sn_ConsumedFoldPosition s))),
      (''components'', JArray (map json_ComponentRecord (sn_Components s))),
      (''sources'', JArray (map json_SourceWatermark (sn_Sources s)))] @
     omit_slice ''conflicts'' json_ConflictRecord (sn_Conflicts s) @
     [(''summary'', json_Summary (sn_Summary s))])"

definition Snapshot_Digest :: "codec \<Rightarrow> Snapshot \<Rightarrow> reduce_error + string" where
  "Snapshot_Digest cd s =
     (case CanonicalSHA256 cd (json_Snapshot s) of Inl _ \<Rightarrow> Inl ErrInvalidSnapshot | Inr (digest, _) \<Rightarrow> Inr digest)"

end
