(* ===== verification/Desired.thy ===== *)
theory Desired
  imports Snapshot
begin

text \<open>
  Desired state from effective policy (\<^verbatim>\<open>internal/connectivityreduce/desired.go\<close>).
\<close>

definition DesiredSchema :: string
  where [go_consts]: "DesiredSchema = ''hexroute.connectivity-desired.v1''"
definition DesiredSchemaVersion :: u16 where [go_consts]: "DesiredSchemaVersion = 1"
definition DiffSchema :: string where [go_consts]: "DiffSchema = ''hexroute.connectivity-diff.v1''"
definition DiffSchemaVersion :: u16 where [go_consts]: "DiffSchemaVersion = 1"
definition ProposalSchema :: string
  where [go_consts]: "ProposalSchema = ''hexroute.connectivity-proposal.v1''"
definition ProposalSchemaVersion :: u16 where [go_consts]: "ProposalSchemaVersion = 1"

record Expectation =
  ex_Lifecycle :: lifecycle
  ex_PathClass :: "string option"
  ex_ResolverClass :: "string option"
  ex_SelectedClass :: "string option"
  ex_ProfileClass :: "string option"
  ex_MinInstalledRoutes :: "u16 option"
  ex_MinReadyTransports :: "u16 option"
  ex_MinReachableRelays :: "u16 option"

text \<open>\<^verbatim>\<open>Expectation{Lifecycle: l}\<close>.\<close>

definition Expectation_of :: "lifecycle \<Rightarrow> Expectation" where
  "Expectation_of l = \<lparr>ex_Lifecycle = l, ex_PathClass = None, ex_ResolverClass = None,
     ex_SelectedClass = None, ex_ProfileClass = None, ex_MinInstalledRoutes = None,
     ex_MinReadyTransports = None, ex_MinReachableRelays = None\<rparr>"

record ComponentPolicy =
  cp_Component :: component
  cp_Managed :: bool
  cp_Expect :: Expectation

record EffectivePolicy =
  ep_Descriptor :: PolicyDescriptor
  ep_Components :: "ComponentPolicy list"

record DesiredComponent =
  dc_Component :: component
  dc_Domain :: domain
  dc_Managed :: bool
  dc_Expect :: Expectation

record DesiredState =
  ds_Schema :: string
  ds_Version :: u16
  ds_Policy :: PolicyDescriptor
  ds_Authorized :: bool
  ds_Components :: "DesiredComponent list"

text \<open>The local closure \<^verbatim>\<open>allowed\<close>, guarded by the pin being set.\<close>

definition pin_allowed :: "'a option \<Rightarrow> bool \<Rightarrow> string \<Rightarrow> reduce_error option" where
  "pin_allowed pin condition pinned =
     (if pin \<noteq> None \<and> \<not> condition then Some (ErrInvalidInput (''cannot pin '' @ pinned)) else None)"

definition validateExpectation :: "component \<Rightarrow> Expectation \<Rightarrow> reduce_error option" where
  "validateExpectation c e =
     (if ex_Lifecycle e \<noteq> LifecycleReady \<and> ex_Lifecycle e \<noteq> LifecycleNotApplicable
        then Some (ErrInvalidInput ''cannot be required'')
      else first_error (\<lambda>err. err) [
        pin_allowed (ex_PathClass e) (c = ComponentDefaultPath) ''path class'',
        pin_allowed (ex_ResolverClass e) (c = ComponentDNS) ''resolver class'',
        pin_allowed (ex_SelectedClass e) (c = ComponentRelays) ''selected class'',
        pin_allowed (ex_ProfileClass e) (c = ComponentUserAccess) ''profile class'',
        pin_allowed (ex_MinInstalledRoutes e) (c = ComponentScopedRoutes) ''route count'',
        pin_allowed (ex_MinReadyTransports e) (c = ComponentTransports) ''transport count'',
        pin_allowed (ex_MinReachableRelays e) (c = ComponentRelays) ''relay count''])"

text \<open>The loop that fills \<^verbatim>\<open>byComponent\<close>.\<close>

fun desire_entries ::
  "(component \<times> ComponentPolicy) list \<Rightarrow> ComponentPolicy list \<Rightarrow>
   reduce_error + (component \<times> ComponentPolicy) list" where
  "desire_entries by_component [] = Inr by_component"
| "desire_entries by_component (entry # entries) =
     (if \<not> Component_Valid (cp_Component entry) then Inl (ErrInvalidInput ''component'')
      else if map_of by_component (cp_Component entry) \<noteq> None
        then Inl (ErrInvalidInput ''component declared twice'')
      else (case (if cp_Managed entry then validateExpectation (cp_Component entry) (cp_Expect entry) else None) of
              Some err \<Rightarrow> Inl err
            | None \<Rightarrow> desire_entries (AList.update (cp_Component entry) entry by_component) entries))"

text \<open>The loop over the components, in order; a component without an owner is an error.\<close>

definition desire_component ::
  "bool \<Rightarrow> (component \<times> ComponentPolicy) list \<Rightarrow> component \<Rightarrow> SourceDeclaration \<Rightarrow> DesiredComponent" where
  "desire_component authorized by_component c declaration =
     (let managed = (case map_of by_component c of
                       None \<Rightarrow> False | Some entry \<Rightarrow> cp_Managed entry \<and> authorized)
      in \<lparr>dc_Component = c, dc_Domain = sd_Domain declaration, dc_Managed = managed,
          dc_Expect = (case map_of by_component c of
                         Some entry \<Rightarrow> if managed then cp_Expect entry
                                       else Expectation_of LifecycleNotApplicable
                       | None \<Rightarrow> Expectation_of LifecycleNotApplicable)\<rparr>)"

fun desire_components ::
  "bool \<Rightarrow> (component \<times> ComponentPolicy) list \<Rightarrow> component list \<Rightarrow> reduce_error + DesiredComponent list" where
  "desire_components authorized by_component [] = Inr []"
| "desire_components authorized by_component (c # cs) =
     (case ConnectivityAuthority c of
        None \<Rightarrow> Inl (ErrInvalidInput ''component has no owner'')
      | Some declaration \<Rightarrow>
          (case desire_components authorized by_component cs of
             Inl err \<Rightarrow> Inl err
           | Inr rest \<Rightarrow> Inr (desire_component authorized by_component c declaration # rest)))"

definition Desire :: "EffectivePolicy \<Rightarrow> reduce_error + DesiredState" where
  "Desire effective =
     (let authorized = Authorized (ep_Descriptor effective) in
      case desire_entries [] (ep_Components effective) of
        Inl err \<Rightarrow> Inl err
      | Inr by_component \<Rightarrow>
          (case desire_components authorized by_component Components of
             Inl err \<Rightarrow> Inl err
           | Inr components \<Rightarrow>
               Inr \<lparr>ds_Schema = DesiredSchema, ds_Version = DesiredSchemaVersion,
                    ds_Policy = ep_Descriptor effective, ds_Authorized = authorized,
                    ds_Components = components\<rparr>))"

definition json_Expectation :: "Expectation \<Rightarrow> json" where
  "json_Expectation e = JObject (
     [(''lifecycle'', JString (ex_Lifecycle e))] @
     omit_ptr ''path_class'' JString (ex_PathClass e) @
     omit_ptr ''resolver_class'' JString (ex_ResolverClass e) @
     omit_ptr ''selected_class'' JString (ex_SelectedClass e) @
     omit_ptr ''profile_class'' JString (ex_ProfileClass e) @
     omit_ptr ''min_installed_routes'' (\<lambda>n. JInt (uint n)) (ex_MinInstalledRoutes e) @
     omit_ptr ''min_ready_transports'' (\<lambda>n. JInt (uint n)) (ex_MinReadyTransports e) @
     omit_ptr ''min_reachable_relays'' (\<lambda>n. JInt (uint n)) (ex_MinReachableRelays e))"

definition json_DesiredComponent :: "DesiredComponent \<Rightarrow> json" where
  "json_DesiredComponent c = JObject [
     (''component'', JString (dc_Component c)), (''domain'', JString (dc_Domain c)),
     (''managed'', JBool (dc_Managed c)), (''expect'', json_Expectation (dc_Expect c))]"

definition json_DesiredState :: "DesiredState \<Rightarrow> json" where
  "json_DesiredState d = JObject [
     (''schema'', JString (ds_Schema d)), (''version'', JInt (uint (ds_Version d))),
     (''policy'', json_PolicyDescriptor (ds_Policy d)), (''authorized'', JBool (ds_Authorized d)),
     (''components'', json_slice json_DesiredComponent (ds_Components d))]"

definition DesiredState_Digest :: "codec \<Rightarrow> DesiredState \<Rightarrow> reduce_error + string" where
  "DesiredState_Digest cd d =
     (case CanonicalSHA256 cd (json_DesiredState d) of
        Inl _ \<Rightarrow> Inl ErrInvalidSnapshot | Inr (digest, _) \<Rightarrow> Inr digest)"

section \<open>What a desire holds\<close>

lemma desire_components_owned:
  assumes "set cs \<subseteq> set Components"
  shows "desire_components authorized by_component cs =
    Inr (map (\<lambda>c. desire_component authorized by_component c (the (ConnectivityAuthority c))) cs)"
  using assms
proof (induction cs)
  case (Cons c cs)
  then obtain d where "ConnectivityAuthority c = Some d"
    using owned.authority_total[of c] by auto
  with Cons show ?case by simp
qed simp

text \<open>A policy entry list is accepted exactly when it is well formed.\<close>

definition entries_ok :: "ComponentPolicy list \<Rightarrow> bool" where
  "entries_ok es \<longleftrightarrow> distinct (map cp_Component es) \<and>
     (\<forall>e\<in>set es. Component_Valid (cp_Component e) \<and>
        (cp_Managed e \<longrightarrow> validateExpectation (cp_Component e) (cp_Expect e) = None))"

lemma desire_entries_iff:
  "(\<exists>r. desire_entries by_c es = Inr r) \<longleftrightarrow>
     entries_ok es \<and> (\<forall>e\<in>set es. map_of by_c (cp_Component e) = None)"
proof (induction es arbitrary: by_c)
  case (Cons e es)
  have "(\<exists>r. desire_entries by_c (e # es) = Inr r) \<longleftrightarrow> Component_Valid (cp_Component e) \<and>
      map_of by_c (cp_Component e) = None \<and>
      (cp_Managed e \<longrightarrow> validateExpectation (cp_Component e) (cp_Expect e) = None) \<and>
      (\<exists>r. desire_entries (AList.update (cp_Component e) e by_c) es = Inr r)"
    by (auto split: option.splits)
  then show ?case unfolding Cons.IH by (auto simp: entries_ok_def image_iff)
qed (simp add: entries_ok_def)

lemma desire_entries_lookup:
  assumes "desire_entries by_c es = Inr r" "\<forall>e\<in>set es. map_of by_c (cp_Component e) = None"
  shows "map_of r c = (case find (\<lambda>e. cp_Component e = c) es of Some e \<Rightarrow> Some e | None \<Rightarrow> map_of by_c c)"
  using assms
proof (induction es arbitrary: by_c)
  case (Cons e es)
  have ok: "entries_ok (e # es)" using desire_entries_iff[of by_c "e # es"] Cons.prems(1) by blast
  have step: "desire_entries (AList.update (cp_Component e) e by_c) es = Inr r"
    using Cons.prems(1) by (auto split: if_splits option.splits)
  have "\<forall>e'\<in>set es. map_of (AList.update (cp_Component e) e by_c) (cp_Component e') = None"
    using ok Cons.prems(2) by (auto simp: entries_ok_def image_iff)
  moreover have "find (\<lambda>e'. cp_Component e' = cp_Component e) es = None"
    using ok by (auto simp: entries_ok_def find_None_iff image_iff)
  ultimately show ?case using Cons.IH[OF step] by (auto split: option.splits)
qed auto

lemma Desire_ok [ok_dests]:
  assumes "Desire ep = Inr d"
  shows "ds_Authorized d = Authorized (ep_Descriptor ep)" "ds_Policy d = ep_Descriptor ep"
    "map dc_Component (ds_Components d) = Components" "entries_ok (ep_Components ep)"
proof -
  obtain by_c where by_c: "desire_entries [] (ep_Components ep) = Inr by_c"
    using assms by (auto simp: Desire_def Let_def split: sum.splits)
  then show "entries_ok (ep_Components ep)" using desire_entries_iff[of "[]"] by blast
  show "ds_Authorized d = Authorized (ep_Descriptor ep)" "ds_Policy d = ep_Descriptor ep"
    "map dc_Component (ds_Components d) = Components"
    using assms by_c desire_components_owned[of Components]
    by (auto simp: Desire_def Let_def desire_component_def comp_def)
qed

lemma Desire_iff: "(\<exists>d. Desire ep = Inr d) \<longleftrightarrow> entries_ok (ep_Components ep)"
proof -
  have "(\<exists>d. Desire ep = Inr d) \<longleftrightarrow> (\<exists>r. desire_entries [] (ep_Components ep) = Inr r)"
    using desire_components_owned[of Components]
    by (auto simp: Desire_def Let_def split: sum.splits)
  then show ?thesis unfolding desire_entries_iff by simp
qed

end
