(* ===== verification/Diff.thy ===== *)
theory Diff
  imports Desired
begin

text \<open>
  The comparison of a snapshot with desired state (\<^verbatim>\<open>internal/connectivityreduce/diff.go\<close>).
\<close>

type_synonym classification = string

definition ClassConverged :: classification where [go_consts]: "ClassConverged = ''converged''"
definition ClassMissing :: classification where [go_consts]: "ClassMissing = ''missing''"
definition ClassUnexpected :: classification where [go_consts]: "ClassUnexpected = ''unexpected''"
definition ClassDivergent :: classification where [go_consts]: "ClassDivergent = ''divergent''"
definition ClassStale :: classification where [go_consts]: "ClassStale = ''stale''"
definition ClassUnknown :: classification where [go_consts]: "ClassUnknown = ''unknown''"
definition ClassConflict :: classification where [go_consts]: "ClassConflict = ''conflict''"
definition ClassGrandfathered :: classification
  where [go_consts]: "ClassGrandfathered = ''grandfathered_noncompliant''"

type_synonym diff_reason = string

definition DiffReasonNone :: diff_reason where [go_consts]: "DiffReasonNone = ''none''"
definition DiffReasonNotObserved :: diff_reason where [go_consts]: "DiffReasonNotObserved = ''not_observed''"
definition DiffReasonStaleObservation :: diff_reason
  where [go_consts]: "DiffReasonStaleObservation = ''stale_observation''"
definition DiffReasonOwnerConflict :: diff_reason
  where [go_consts]: "DiffReasonOwnerConflict = ''owner_conflict''"
definition DiffReasonNothingPresent :: diff_reason
  where [go_consts]: "DiffReasonNothingPresent = ''nothing_present''"
definition DiffReasonBelowExpected :: diff_reason
  where [go_consts]: "DiffReasonBelowExpected = ''below_expected_count''"
definition DiffReasonClassMismatch :: diff_reason
  where [go_consts]: "DiffReasonClassMismatch = ''class_mismatch''"
definition DiffReasonFailed :: diff_reason where [go_consts]: "DiffReasonFailed = ''observed_failed''"
definition DiffReasonDegraded :: diff_reason where [go_consts]: "DiffReasonDegraded = ''observed_degraded''"
definition DiffReasonNotManaged :: diff_reason
  where [go_consts]: "DiffReasonNotManaged = ''not_managed_by_policy''"
definition DiffReasonPolicyExcluded :: diff_reason
  where [go_consts]: "DiffReasonPolicyExcluded = ''excluded_by_new_policy''"
definition DiffReasonUnauthorized :: diff_reason
  where [go_consts]: "DiffReasonUnauthorized = ''policy_unauthorized''"

record ComponentDiff =
  di_Component :: component
  di_Domain :: domain
  di_Classification :: classification
  di_Reason :: diff_reason

record Diff =
  df_Schema :: string
  df_Version :: u16
  df_SnapshotGeneration :: u64
  df_Policy :: PolicyDescriptor
  df_Authorized :: bool
  df_Components :: "ComponentDiff list"

definition json_ComponentDiff :: "ComponentDiff \<Rightarrow> json" where
  "json_ComponentDiff e = JObject [
     (''component'', JString (di_Component e)), (''domain'', JString (di_Domain e)),
     (''classification'', JString (di_Classification e)), (''reason'', JString (di_Reason e))]"

definition json_Diff :: "Diff \<Rightarrow> json" where
  "json_Diff d = JObject [
     (''schema'', JString (df_Schema d)), (''version'', JInt (uint (df_Version d))),
     (''snapshot_generation'', JInt (uint (df_SnapshotGeneration d))),
     (''policy'', json_PolicyDescriptor (df_Policy d)), (''authorized'', JBool (df_Authorized d)),
     (''components'', json_slice json_ComponentDiff (df_Components d))]"

definition Diff_Digest :: "codec \<Rightarrow> Diff \<Rightarrow> reduce_error + string" where
  "Diff_Digest cd d =
     (case CanonicalSHA256 cd (json_Diff d) of Inl _ \<Rightarrow> Inl ErrInvalidSnapshot | Inr (digest, _) \<Rightarrow> Inr digest)"

section \<open>Classification\<close>

definition establishedUnderEarlierPolicy ::
  "ComponentRecord \<Rightarrow> Snapshot option \<Rightarrow> Snapshot \<Rightarrow> bool" where
  "establishedUnderEarlierPolicy r prior s =
     (case prior of
        None \<Rightarrow> False
      | Some p \<Rightarrow>
          if \<not> pd_Present (sn_Policy p) then False
          else if pd_BundleGeneration (sn_Policy p) \<ge> pd_BundleGeneration (sn_Policy s) then False
          else (case find (\<lambda>before. cr_Component before = cr_Component r) (sn_Components p) of
                  None \<Rightarrow> False
                | Some before \<Rightarrow> cr_State before = StateReady \<or> cr_State before = StateDegraded))"

definition absent :: "ComponentRecord \<Rightarrow> bool" where
  "absent r =
     (let p = cr_Payload r in
      case pl_PhysicalNetwork p of Some m \<Rightarrow> pn_LinkClass m = LinkNone | None \<Rightarrow>
      (case pl_DefaultPath p of Some m \<Rightarrow> dp_PathClass m = PathNone | None \<Rightarrow>
       (case pl_DNS p of Some m \<Rightarrow> dns_ResolverClass m = ResolverNone | None \<Rightarrow>
        (case pl_ScopedRoutes p of Some m \<Rightarrow> sr_Installed m = 0 | None \<Rightarrow>
         (case pl_Transports p of Some m \<Rightarrow> tr_Ready m = 0 | None \<Rightarrow>
          (case pl_Relays p of Some m \<Rightarrow> rl_Reachable m = 0 | None \<Rightarrow>
           (case pl_UserAccess p of Some m \<Rightarrow> ua_ProfileClass m = ProfileNone | None \<Rightarrow>
            (case pl_SessionExpiry p of Some m \<Rightarrow> se_ExpiryClass m = ExpiryNone | None \<Rightarrow> True))))))))"

text \<open>
  \<open>both a b P\<close> is \<^verbatim>\<open>a != nil && b != nil && P(*a, *b)\<close>. The tests of \<^verbatim>\<open>pinMismatch\<close> are made in
  the source's order; \<open>None\<close> is its \<^verbatim>\<open>"", "", false\<close>.
\<close>

definition both :: "'a option \<Rightarrow> 'b option \<Rightarrow> ('a \<Rightarrow> 'b \<Rightarrow> bool) \<Rightarrow> bool" where
  "both a b P = (case a of None \<Rightarrow> False | Some x \<Rightarrow> (case b of None \<Rightarrow> False | Some y \<Rightarrow> P x y))"

definition below :: "u16 \<Rightarrow> classification \<times> diff_reason" where
  "below n = (if n = 0 then (ClassMissing, DiffReasonNothingPresent)
              else (ClassDivergent, DiffReasonBelowExpected))"

definition pinMismatch :: "ComponentRecord \<Rightarrow> Expectation \<Rightarrow> (classification \<times> diff_reason) option" where
  "pinMismatch r e =
     (let p = cr_Payload r in
      if both (ex_PathClass e) (pl_DefaultPath p) (\<lambda>pin m. dp_PathClass m \<noteq> pin)
        then Some (ClassDivergent, DiffReasonClassMismatch)
      else if both (ex_ResolverClass e) (pl_DNS p) (\<lambda>pin m. dns_ResolverClass m \<noteq> pin)
        then Some (ClassDivergent, DiffReasonClassMismatch)
      else if both (ex_SelectedClass e) (pl_Relays p) (\<lambda>pin m. rl_SelectedClass m \<noteq> pin)
        then Some (ClassDivergent, DiffReasonClassMismatch)
      else if both (ex_ProfileClass e) (pl_UserAccess p) (\<lambda>pin m. ua_ProfileClass m \<noteq> pin)
        then Some (ClassDivergent, DiffReasonClassMismatch)
      else if both (ex_MinInstalledRoutes e) (pl_ScopedRoutes p) (\<lambda>pin m. sr_Installed m < pin)
        then Some (below (sr_Installed (the (pl_ScopedRoutes p))))
      else if both (ex_MinReadyTransports e) (pl_Transports p) (\<lambda>pin m. tr_Ready m < pin)
        then Some (below (tr_Ready (the (pl_Transports p))))
      else if both (ex_MinReachableRelays e) (pl_Relays p) (\<lambda>pin m. rl_Reachable m < pin)
        then Some (below (rl_Reachable (the (pl_Relays p))))
      else None)"

definition classify ::
  "ComponentRecord \<Rightarrow> DesiredComponent \<Rightarrow> Snapshot option \<Rightarrow> Snapshot \<Rightarrow> classification \<times> diff_reason" where
  "classify r want prior s =
     (if cr_State r = StateConflict then (ClassConflict, DiffReasonOwnerConflict)
      else if cr_State r = StateStale then (ClassStale, DiffReasonStaleObservation)
      else if cr_State r = StateUnknown then (ClassUnknown, DiffReasonNotObserved)
      else if \<not> dc_Managed want then
        (if cr_State r = StateNotApplicable then (ClassConverged, DiffReasonNotManaged)
         else if establishedUnderEarlierPolicy r prior s then (ClassGrandfathered, DiffReasonPolicyExcluded)
         else (ClassUnexpected, DiffReasonNotManaged))
      else if ex_Lifecycle (dc_Expect want) = LifecycleNotApplicable then
        (if cr_State r = StateNotApplicable then (ClassConverged, DiffReasonNone)
         else if establishedUnderEarlierPolicy r prior s then (ClassGrandfathered, DiffReasonPolicyExcluded)
         else (ClassUnexpected, DiffReasonNone))
      else if cr_State r = StateFailed then
        (if absent r then (ClassMissing, DiffReasonNothingPresent) else (ClassDivergent, DiffReasonFailed))
      else if cr_State r = StateDegraded then (ClassDivergent, DiffReasonDegraded)
      else if cr_State r = StateNotApplicable then (ClassMissing, DiffReasonNothingPresent)
      else (case pinMismatch r (dc_Expect want) of
              Some cr \<Rightarrow> cr
            | None \<Rightarrow> (ClassConverged, DiffReasonNone)))"

text \<open>The zero value a map lookup returns for a component that is not wanted.\<close>

definition DesiredComponent_zero :: DesiredComponent where
  "DesiredComponent_zero = \<lparr>dc_Component = '''', dc_Domain = '''', dc_Managed = False,
     dc_Expect = Expectation_of ''''\<rparr>"

definition Compare :: "Snapshot \<Rightarrow> DesiredState \<Rightarrow> Snapshot option \<Rightarrow> Diff" where
  "Compare s desired prior =
     (let authorized = (sn_Authorization s = AuthorizationAuthorized \<and> ds_Authorized desired);
          wanted = fold (\<lambda>c m. AList.update (dc_Component c) c m) (ds_Components desired) []
      in \<lparr>df_Schema = DiffSchema, df_Version = DiffSchemaVersion,
          df_SnapshotGeneration = sn_Generation s, df_Policy = sn_Policy s, df_Authorized = authorized,
          df_Components = map (\<lambda>r.
            (let (c, why) = (if \<not> authorized then (ClassUnknown, DiffReasonUnauthorized)
                             else classify r (case map_of wanted (cr_Component r) of
                                                None \<Rightarrow> DesiredComponent_zero | Some w \<Rightarrow> w) prior s)
             in \<lparr>di_Component = cr_Component r, di_Domain = cr_Domain r,
                 di_Classification = c, di_Reason = why\<rparr>)) (sn_Components s)\<rparr>)"

end
