(* ===== verification/Proposal.thy ===== *)
theory Proposal
  imports Diff
begin

text \<open>
  Reconciliation proposals (\<^verbatim>\<open>internal/connectivityreduce/proposal.go\<close>): which divergence they
  describe, the content address that binds them and the two checks a reader makes.
\<close>

type_synonym proposal_class = string

definition ProposalEstablish :: proposal_class where [go_consts]: "ProposalEstablish = ''establish''"
definition ProposalReconcile :: proposal_class where [go_consts]: "ProposalReconcile = ''reconcile''"
definition ProposalWithdraw :: proposal_class where [go_consts]: "ProposalWithdraw = ''withdraw''"
definition ProposalObserve :: proposal_class where [go_consts]: "ProposalObserve = ''observe''"

definition ProposalClass_valid :: "proposal_class \<Rightarrow> bool" where
  "ProposalClass_valid c \<longleftrightarrow> c = ProposalEstablish \<or> c = ProposalReconcile \<or>
     c = ProposalWithdraw \<or> c = ProposalObserve"

record Proposal =
  pr_Schema :: string
  pr_Version :: u16
  pr_SnapshotGeneration :: u64
  pr_BundleGeneration :: u64
  pr_DomainPolicyGeneration :: u64
  pr_Domain :: domain
  pr_Target :: component
  pr_Class :: proposal_class
  pr_Reason :: diff_reason
  pr_DiffDigest :: string
  pr_Digest :: string

definition json_Proposal :: "Proposal \<Rightarrow> json" where
  "json_Proposal p = JObject [
     (''schema'', JString (pr_Schema p)), (''version'', JInt (uint (pr_Version p))),
     (''snapshot_generation'', JInt (uint (pr_SnapshotGeneration p))),
     (''bundle_generation'', JInt (uint (pr_BundleGeneration p))),
     (''domain_policy_generation'', JInt (uint (pr_DomainPolicyGeneration p))),
     (''domain'', JString (pr_Domain p)), (''target'', JString (pr_Target p)),
     (''class'', JString (pr_Class p)), (''reason'', JString (pr_Reason p)),
     (''diff_digest'', JString (pr_DiffDigest p)), (''digest'', JString (pr_Digest p))]"

definition proposalBody :: "Proposal \<Rightarrow> Proposal" where
  "proposalBody p = p\<lparr>pr_Digest := ''''\<rparr>"

definition Verify :: "codec \<Rightarrow> Proposal \<Rightarrow> reduce_error option" where
  "Verify cd p =
     (if pr_Schema p \<noteq> ProposalSchema \<or> pr_Version p \<noteq> ProposalSchemaVersion
        then Some (ErrInvalidProposal ''schema'')
      else if \<not> Component_Valid (pr_Target p) \<or> \<not> ProposalClass_valid (pr_Class p)
        then Some (ErrInvalidProposal ''target or class'')
      else if pr_Domain p \<noteq> DomainRoot \<and> pr_Domain p \<noteq> DomainUser
        then Some (ErrInvalidProposal ''domain'')
      else if pr_SnapshotGeneration p = 0 \<or> pr_BundleGeneration p = 0 \<or> length (pr_DiffDigest p) \<noteq> 64
        then Some (ErrInvalidProposal ''bindings'')
      else (case CanonicalSHA256 cd (json_Proposal (proposalBody p)) of
              Inl _ \<Rightarrow> Some (ErrInvalidProposal ''encoding'')
            | Inr (expected, _) \<Rightarrow>
                if expected \<noteq> pr_Digest p then Some (ErrInvalidProposal ''digest'') else None))"

definition domainGeneration :: "PolicyDescriptor \<Rightarrow> domain \<Rightarrow> u64" where
  "domainGeneration d dm = (if dm = DomainUser then pd_UserGeneration d else pd_RootGeneration d)"

definition VerifyCurrent :: "codec \<Rightarrow> Proposal \<Rightarrow> Snapshot \<Rightarrow> string \<Rightarrow> reduce_error option" where
  "VerifyCurrent cd p s diffDigest =
     (case Verify cd p of
        Some err \<Rightarrow> Some err
      | None \<Rightarrow>
          if pr_SnapshotGeneration p \<noteq> sn_Generation s then Some (ErrStaleProposal ''snapshot generation'')
          else if pr_BundleGeneration p \<noteq> pd_BundleGeneration (sn_Policy s)
            then Some (ErrStaleProposal ''bundle generation'')
          else if pr_DomainPolicyGeneration p \<noteq> domainGeneration (sn_Policy s) (pr_Domain p)
            then Some (ErrStaleProposal ''domain generation'')
          else if pr_DiffDigest p \<noteq> diffDigest then Some (ErrStaleProposal ''diff digest'')
          else None)"

definition proposalClass :: "classification \<Rightarrow> proposal_class option" where
  "proposalClass c =
     (if c = ClassMissing then Some ProposalEstablish
      else if c = ClassDivergent then Some ProposalReconcile
      else if c = ClassUnexpected then Some ProposalWithdraw
      else if c = ClassStale \<or> c = ClassUnknown \<or> c = ClassConflict then Some ProposalObserve
      else None)"

text \<open>The body of the loop, for an entry whose classification asks for a proposal.\<close>

definition propose_entry ::
  "codec \<Rightarrow> Snapshot \<Rightarrow> string \<Rightarrow> ComponentDiff \<Rightarrow> proposal_class \<Rightarrow> reduce_error + Proposal" where
  "propose_entry cd s diffDigest entry class =
     (let p = \<lparr>pr_Schema = ProposalSchema, pr_Version = ProposalSchemaVersion,
               pr_SnapshotGeneration = sn_Generation s,
               pr_BundleGeneration = pd_BundleGeneration (sn_Policy s),
               pr_DomainPolicyGeneration = domainGeneration (sn_Policy s) (di_Domain entry),
               pr_Domain = di_Domain entry, pr_Target = di_Component entry, pr_Class = class,
               pr_Reason = di_Reason entry, pr_DiffDigest = diffDigest, pr_Digest = ''''\<rparr>
      in case CanonicalSHA256 cd (json_Proposal (proposalBody p)) of
           Inl _ \<Rightarrow> Inl (ErrInvalidProposal ''encoding'')
         | Inr (digest, _) \<Rightarrow>
             (let p = p\<lparr>pr_Digest := digest\<rparr>
              in case Verify cd p of Some err \<Rightarrow> Inl err | None \<Rightarrow> Inr p))"

fun propose_entries ::
  "codec \<Rightarrow> Snapshot \<Rightarrow> string \<Rightarrow> ComponentDiff list \<Rightarrow> reduce_error + Proposal list" where
  "propose_entries cd s diffDigest [] = Inr []"
| "propose_entries cd s diffDigest (entry # entries) =
     (case proposalClass (di_Classification entry) of
        None \<Rightarrow> propose_entries cd s diffDigest entries
      | Some class \<Rightarrow>
          (case propose_entry cd s diffDigest entry class of
             Inl err \<Rightarrow> Inl err
           | Inr p \<Rightarrow>
               (case propose_entries cd s diffDigest entries of
                  Inl err \<Rightarrow> Inl err | Inr ps \<Rightarrow> Inr (p # ps))))"

definition Propose :: "codec \<Rightarrow> Snapshot \<Rightarrow> Diff \<Rightarrow> reduce_error + Proposal list" where
  "Propose cd s d =
     (if \<not> df_Authorized d then Inr []
      else (case Diff_Digest cd d of
              Inl err \<Rightarrow> Inl err
            | Inr diffDigest \<Rightarrow> propose_entries cd s diffDigest (df_Components d)))"

end
