(* ===== verification/Reduce.thy ===== *)
theory Reduce
  imports Proposal "HOL-Library.Product_Lexorder"
begin

text \<open>
  The reducer (\<^verbatim>\<open>internal/connectivityreduce/reduce.go\<close>): the three tables a batch of events is
  folded into, the derivation of component states, summary and authorization, the semantic
  digest that decides whether a generation advances, and \<^verbatim>\<open>Reduce\<close> itself.

  The tables are Go maps from a key to a pointer; here they are association lists from the key
  to the record, so a record changed through its pointer is written back under its key. Where a
  map is ranged over, the source sorts the result by a key that is unique in the map, so the
  order of the association list does not show.
\<close>

section \<open>Input and output\<close>

record Event =
  ev_Acceptance :: Acceptance
  ev_Fact :: Fact

record Wake =
  wk_Tick :: tick

record Input =
  in_Prior :: "Snapshot option"
  in_Events :: "Event list"
  in_Policy :: PolicyDescriptor
  in_PolicyComponents :: "ComponentPolicy list"
  in_BootID :: string
  in_PriorFolded :: u64
  in_PriorConsumed :: u64
  in_EvaluationTick :: tick
  in_Wake :: "Wake option"

record Output =
  out_Snapshot :: Snapshot
  out_Desired :: DesiredState
  out_Diff :: Diff
  out_Proposals :: "Proposal list"
  out_Changed :: bool

section \<open>validateInput\<close>

definition validate_watermarks :: "Input \<Rightarrow> reduce_error option" where
  "validate_watermarks i =
     (case in_Prior i of
        None \<Rightarrow> None
      | Some p \<Rightarrow>
          if in_PriorConsumed i \<noteq> 0 \<and> in_PriorConsumed i \<noteq> sn_ConsumedHostSequence p
            then Some (ErrInvalidInput ''prior consumed watermark contradicts the snapshot'')
          else if in_PriorFolded i \<noteq> 0 \<and> in_PriorFolded i \<noteq> sn_ConsumedFoldPosition p
            then Some (ErrInvalidInput ''prior folded watermark contradicts the snapshot'')
          else None)"

definition validate_prior :: "Input \<Rightarrow> reduce_error option" where
  "validate_prior i =
     (case in_Prior i of
        None \<Rightarrow> None
      | Some p \<Rightarrow>
          if Snapshot_Validate p \<noteq> None then Some (ErrInvalidInput ''prior snapshot'')
          else if sn_BootID p = in_BootID i \<and> in_EvaluationTick i < sn_EvaluationTick p
            then Some (ErrInvalidInput ''monotonic tick moved backwards within one boot'')
          else None)"

definition validate_event :: "Event \<Rightarrow> reduce_error option" where
  "validate_event e =
     (case Fact_Validate (ev_Fact e) of
        Some err \<Rightarrow> Some (ErrInvalidInputFact err)
      | None \<Rightarrow> if ac_Outcome (ev_Acceptance e) = OutcomeRejected
                then Some (ErrInvalidInput ''a rejected arrival was offered for reduction'') else None)"

definition validateInput :: "Input \<Rightarrow> reduce_error option" where
  "validateInput i =
     (case validate_watermarks i of
        Some err \<Rightarrow> Some err
      | None \<Rightarrow>
          if in_BootID i = '''' \<or> in_EvaluationTick i \<le> 0 then Some (ErrInvalidInput ''time context'')
          else if (case in_Wake i of None \<Rightarrow> False | Some w \<Rightarrow> wk_Tick w \<le> 0)
            then Some (ErrInvalidInput ''wake tick'')
          else (case validate_prior i of
                  Some err \<Rightarrow> Some err
                | None \<Rightarrow> first_error validate_event (in_Events i)))"

section \<open>Tables\<close>

type_synonym component_table = "(component \<times> ComponentRecord) list"
type_synonym source_table = "(source_id \<times> SourceWatermark) list"
type_synonym conflict_key = "source_id \<times> component \<times> u64"
type_synonym conflict_table = "(conflict_key \<times> ConflictRecord) list"

definition new_record :: "component \<Rightarrow> ComponentRecord" where
  "new_record c =
     \<lparr>cr_Component = c, cr_State = StateUnknown,
      cr_Domain = (case ConnectivityAuthority c of Some d \<Rightarrow> sd_Domain d | None \<Rightarrow> ''''),
      cr_Source = (case ConnectivityAuthority c of Some d \<Rightarrow> sd_Source d | None \<Rightarrow> ''''),
      cr_Observed = LifecycleUnknown, cr_Reason = ReasonNone, cr_Payload = Payload_empty,
      cr_BootID = '''', cr_MonotonicTick = 0, cr_FreshnessDeadline = 0, cr_HostSequence = 0,
      cr_HasBaseline = False, cr_RebaselineRequired = False, cr_Conflicts = 0, cr_Corroborations = []\<rparr>"

definition newComponentTable :: "Snapshot option \<Rightarrow> component_table" where
  "newComponentTable prior =
     (let table = map (\<lambda>c. (c, new_record c)) Components
      in case prior of
           None \<Rightarrow> table
         | Some p \<Rightarrow> fold (\<lambda>r. AList.update (cr_Component r) r) (sn_Components p) table)"

definition newSourceTable :: "Snapshot option \<Rightarrow> source_table" where
  "newSourceTable prior =
     (case prior of None \<Rightarrow> [] | Some p \<Rightarrow> fold (\<lambda>w. AList.update (wm_Source w) w) (sn_Sources p) [])"

definition conflict_key_of :: "ConflictRecord \<Rightarrow> conflict_key" where
  "conflict_key_of r = (cf_Source r, cf_Component r, cf_Sequence r)"

definition newConflictTable :: "Snapshot option \<Rightarrow> conflict_table" where
  "newConflictTable prior =
     (case prior of None \<Rightarrow> [] | Some p \<Rightarrow> fold (\<lambda>r. AList.update (conflict_key_of r) r) (sn_Conflicts p) [])"

definition watermarkFor :: "source_table \<Rightarrow> Event \<Rightarrow> SourceWatermark" where
  "watermarkFor sources e =
     (case map_of sources (f_SourceID (ev_Fact e)) of
        Some w \<Rightarrow> w
      | None \<Rightarrow> \<lparr>wm_Source = f_SourceID (ev_Fact e), wm_Domain = f_Domain (ev_Fact e),
                 wm_Role = ac_Role (ev_Acceptance e), wm_BootID = f_BootID (ev_Fact e),
                 wm_LastSequence = 0, wm_Gaps = [], wm_GapOverflow = False, wm_PendingBaseline = [],
                 wm_Conflicts = 0, wm_Recent = []\<rparr>)"

definition adoptIntegrity :: "SourceWatermark \<Rightarrow> Event \<Rightarrow> SourceWatermark" where
  "adoptIntegrity w e =
     (let si = ac_Source (ev_Acceptance e)
      in w\<lparr>wm_BootID := si_BootID si, wm_LastSequence := si_LastSequence si, wm_Gaps := si_Gaps si,
           wm_GapOverflow := si_GapOverflow si, wm_PendingBaseline := si_PendingBaseline si,
           wm_Conflicts := si_Conflicts si, wm_Recent := si_Recent si\<rparr>)"

text \<open>The first three statements of \<^verbatim>\<open>applyAccepted\<close> and of \<^verbatim>\<open>applyConflict\<close>.\<close>

definition note_source :: "source_table \<Rightarrow> Event \<Rightarrow> source_table" where
  "note_source sources e =
     AList.update (f_SourceID (ev_Fact e))
       (adoptIntegrity ((watermarkFor sources e)\<lparr>wm_Role := ac_Role (ev_Acceptance e)\<rparr>) e) sources"

definition addCorroboration :: "ComponentRecord \<Rightarrow> Event \<Rightarrow> ComponentRecord" where
  "addCorroboration r e =
     (let entry = \<lparr>co_Source = f_SourceID (ev_Fact e), co_Lifecycle = f_Lifecycle (ev_Fact e),
                   co_Reason = f_Reason (ev_Fact e), co_Agrees = (f_Lifecycle (ev_Fact e) = cr_Observed r),
                   co_MonotonicTick = f_MonotonicTick (ev_Fact e)\<rparr>;
          cs = cr_Corroborations r
      in case List.extract (\<lambda>c. co_Source c = co_Source entry) cs of
           Some (pre, _, post) \<Rightarrow> r\<lparr>cr_Corroborations := pre @ entry # post\<rparr>
         | None \<Rightarrow>
             if length cs \<ge> MaxCorroborations then r
             else r\<lparr>cr_Corroborations := cs @ [entry]\<rparr>)"

definition observe :: "ComponentRecord \<Rightarrow> Event \<Rightarrow> ComponentRecord" where
  "observe r e =
     (let f = ev_Fact e;
          r = r\<lparr>cr_Observed := f_Lifecycle f, cr_Reason := f_Reason f, cr_Payload := f_Payload f,
                cr_BootID := f_BootID f, cr_MonotonicTick := f_MonotonicTick f,
                cr_FreshnessDeadline := f_FreshnessDeadline f,
                cr_HostSequence := ac_HostSequence (ev_Acceptance e)\<rparr>
      in if f_Baseline f then r\<lparr>cr_HasBaseline := True, cr_RebaselineRequired := False\<rparr> else r)"

definition clearComponentConflicts :: "conflict_table \<Rightarrow> source_id \<Rightarrow> component \<Rightarrow> conflict_table" where
  "clearComponentConflicts conflicts source component =
     filter (\<lambda>((s, c, n), _). \<not> (s = source \<and> c = component)) conflicts"

text \<open>What the loop of \<^verbatim>\<open>Reduce\<close> carries from event to event.\<close>

record Fold =
  fo_components :: component_table
  fo_sources :: source_table
  fo_conflicts :: conflict_table
  fo_consumed :: u64
  fo_folded :: u64

definition applyAccepted :: "Fold \<Rightarrow> Event \<Rightarrow> reduce_error + Fold" where
  "applyAccepted s e =
     (let f = ev_Fact e;
          sources = note_source (fo_sources s) e;
          conflicts = (if f_Baseline f
                       then clearComponentConflicts (fo_conflicts s) (f_SourceID f) (f_Component f)
                       else fo_conflicts s)
      in case map_of (fo_components s) (f_Component f) of
           None \<Rightarrow> Inl (NilRecord (f_Component f))
         | Some r \<Rightarrow>
             Inr (s\<lparr>fo_sources := sources, fo_conflicts := conflicts,
                    fo_components := AList.update (f_Component f)
                      (if ac_Role (ev_Acceptance e) \<noteq> RoleAuthoritative
                       then addCorroboration r e else observe r e) (fo_components s)\<rparr>))"

definition applyConflict :: "Fold \<Rightarrow> Event \<Rightarrow> Fold" where
  "applyConflict s e =
     (let f = ev_Fact e;
          key = (f_SourceID f, f_Component f, f_SourceSequence f);
          record = (case map_of (fo_conflicts s) key of
                      Some existing \<Rightarrow> existing\<lparr>cf_Count := cf_Count existing + 1\<rparr>
                    | None \<Rightarrow> \<lparr>cf_Source = f_SourceID f, cf_Component = f_Component f,
                               cf_Sequence = f_SourceSequence f,
                               cf_Reason = ac_Reason (ev_Acceptance e), cf_Count = 1\<rparr>)
      in s\<lparr>fo_sources := note_source (fo_sources s) e,
           fo_conflicts := AList.update key record (fo_conflicts s)\<rparr>)"

definition reduce_event :: "Fold \<Rightarrow> Event \<Rightarrow> reduce_error + Fold" where
  "reduce_event s e =
     (let a = ev_Acceptance e in
      if ac_FoldPosition a \<noteq> fo_folded s + 1 then Inl (ErrOutOfOrder (fo_folded s + 1) (ac_FoldPosition a))
      else (let s = s\<lparr>fo_folded := ac_FoldPosition a\<rparr> in
        if ac_Outcome a = OutcomeAccepted then
          (if ac_HostSequence a \<noteq> fo_consumed s + 1
             then Inl (ErrOutOfOrder (fo_consumed s + 1) (ac_HostSequence a))
           else applyAccepted (s\<lparr>fo_consumed := ac_HostSequence a\<rparr>) e)
        else if ac_Outcome a = OutcomeConflict then Inr (applyConflict s e)
        else if ac_Outcome a = OutcomeDuplicate \<or> ac_Outcome a = OutcomeStale then Inr s
        else Inl (ErrInvalidInput ''outcome'')))"

fun reduce_events :: "Fold \<Rightarrow> Event list \<Rightarrow> reduce_error + Fold" where
  "reduce_events s [] = Inr s"
| "reduce_events s (e # es) =
     (case reduce_event s e of Inl err \<Rightarrow> Inl err | Inr s' \<Rightarrow> reduce_events s' es)"

definition markRebaseline :: "component_table \<Rightarrow> Input \<Rightarrow> component_table" where
  "markRebaseline components i =
     (let rebooted = (case in_Prior i of None \<Rightarrow> False | Some p \<Rightarrow> sn_BootID p \<noteq> in_BootID i) in
      if in_Wake i = None \<and> \<not> rebooted then components
      else map (\<lambda>(c, r). if \<not> TimeSensitive c then (c, r)
                         else if cr_HostSequence r = 0 then (c, r)
                         else (c, r\<lparr>cr_RebaselineRequired := True\<rparr>)) components)"

section \<open>Rendering\<close>

definition deriveState :: "ComponentRecord \<Rightarrow> Input \<Rightarrow> component_state" where
  "deriveState r i =
     (if cr_Observed r = LifecycleUnknown \<and> cr_HostSequence r = 0 then StateUnknown
      else if cr_Conflicts r > 0 then StateConflict
      else if cr_BootID r \<noteq> in_BootID i then StateStale
      else if cr_RebaselineRequired r then StateStale
      else if in_EvaluationTick i > cr_FreshnessDeadline r then StateStale
      else if cr_Observed r = LifecycleReady then StateReady
      else if cr_Observed r = LifecycleDegraded then StateDegraded
      else if cr_Observed r = LifecycleFailed then StateFailed
      else if cr_Observed r = LifecycleNotApplicable then StateNotApplicable
      else StateUnknown)"

definition sortedCorroborations :: "Corroboration list \<Rightarrow> Corroboration list" where
  "sortedCorroborations entries = (if length entries = 0 then [] else sort_slice co_Source entries)"

definition render_component :: "ComponentRecord \<Rightarrow> source_table \<Rightarrow> Input \<Rightarrow> ComponentRecord" where
  "render_component r sources i =
     (let r = r\<lparr>cr_Conflicts := (case map_of sources (cr_Source r) of
                                   Some w \<Rightarrow> wm_Conflicts w | None \<Rightarrow> 0)\<rparr>;
          r = r\<lparr>cr_State := deriveState r i\<rparr>
      in r\<lparr>cr_Corroborations := sortedCorroborations (cr_Corroborations r)\<rparr>)"

fun render_components ::
  "component list \<Rightarrow> component_table \<Rightarrow> source_table \<Rightarrow> Input \<Rightarrow> reduce_error + ComponentRecord list" where
  "render_components [] components sources i = Inr []"
| "render_components (c # cs) components sources i =
     (case map_of components c of
        None \<Rightarrow> Inl (NilRecord c)
      | Some r \<Rightarrow>
          (case render_components cs components sources i of
             Inl err \<Rightarrow> Inl err
           | Inr rest \<Rightarrow> Inr (render_component r sources i # rest)))"

definition renderComponents ::
  "component_table \<Rightarrow> source_table \<Rightarrow> Input \<Rightarrow> reduce_error + ComponentRecord list" where
  "renderComponents components sources i = render_components Components components sources i"

definition renderSources :: "source_table \<Rightarrow> SourceWatermark list" where
  "renderSources sources =
     sort_slice wm_Source (map (\<lambda>(_, w).
       w\<lparr>wm_Gaps := sort_slice gap_From (wm_Gaps w),
         wm_PendingBaseline := sort_slice (\<lambda>c. c) (wm_PendingBaseline w)\<rparr>) sources)"

text \<open>
  One source's refusals, oldest first, cut to the newest \<^verbatim>\<open>MaxConflictRecords\<close>; the sources in the
  order of their first record.
\<close>

definition conflicts_of :: "source_id \<Rightarrow> ConflictRecord list \<Rightarrow> ConflictRecord list" where
  "conflicts_of s rs = sort_slice (\<lambda>r. (cf_Sequence r, cf_Component r)) (filter (\<lambda>r. cf_Source r = s) rs)"

definition renderConflicts :: "conflict_table \<Rightarrow> ConflictRecord list \<times> bool" where
  "renderConflicts conflicts =
     (let rs = map snd conflicts;
          sources = remdups (map cf_Source rs)
      in (sort_slice (\<lambda>r. (cf_Source r, cf_Component r, cf_Sequence r))
            (concat (map (\<lambda>s. last_n MaxConflictRecords (conflicts_of s rs)) sources)),
          list_ex (\<lambda>s. length (conflicts_of s rs) > MaxConflictRecords) sources))"

definition authorize :: "PolicyDescriptor \<Rightarrow> Snapshot option \<Rightarrow> authorization \<times> authorization_reason" where
  "authorize d prior =
     (if \<not> pd_Present d then (AuthorizationUnauthorized, AuthorizationReasonAbsent)
      else if \<not> pd_Valid d then (AuthorizationUnauthorized, AuthorizationReasonInvalid)
      else if pd_Suspended d then (AuthorizationUnauthorized, AuthorizationReasonSuspended)
      else if \<not> Authorized d then (AuthorizationUnauthorized, AuthorizationReasonInvalid)
      else if (case prior of
                 None \<Rightarrow> False
               | Some p \<Rightarrow> pd_Present (sn_Policy p) \<and>
                   (pd_BundleGeneration d < pd_BundleGeneration (sn_Policy p) \<or>
                    pd_RootGeneration d < pd_RootGeneration (sn_Policy p) \<or>
                    pd_UserGeneration d < pd_UserGeneration (sn_Policy p)))
        then (AuthorizationUnauthorized, AuthorizationReasonGenerationGap)
      else (AuthorizationAuthorized, AuthorizationReasonNone))"

definition summarize_component :: "ComponentRecord \<Rightarrow> Summary \<Rightarrow> Summary" where
  "summarize_component r u =
     (if cr_State r = StateReady then u\<lparr>su_Ready := su_Ready u + 1\<rparr>
      else if cr_State r = StateDegraded then u\<lparr>su_Degraded := su_Degraded u + 1\<rparr>
      else if cr_State r = StateFailed then u\<lparr>su_Failed := su_Failed u + 1\<rparr>
      else if cr_State r = StateStale then u\<lparr>su_Stale := su_Stale u + 1\<rparr>
      else if cr_State r = StateConflict then u\<lparr>su_Conflicted := su_Conflicted u + 1\<rparr>
      else if cr_State r = StateNotApplicable then u\<lparr>su_NotApplicable := su_NotApplicable u + 1\<rparr>
      else u\<lparr>su_Unknown := su_Unknown u + 1\<rparr>)"

definition summarize_source :: "SourceWatermark \<Rightarrow> Summary \<Rightarrow> Summary" where
  "summarize_source w u =
     (let u = u\<lparr>su_OpenGaps := su_OpenGaps u + of_nat (length (wm_Gaps w))\<rparr>;
          u = (if wm_GapOverflow w then u\<lparr>su_GapOverflow := True\<rparr> else u);
          u = (if wm_Conflicts w > 0 then u\<lparr>su_SourceConflicts := su_SourceConflicts u + 1\<rparr> else u)
      in if Watermark_AwaitingBaseline w
         then u\<lparr>su_AwaitingBaseline := su_AwaitingBaseline u + 1\<rparr> else u)"

definition Summary_start :: "authorization \<Rightarrow> authorization_reason \<Rightarrow> bool \<Rightarrow> Summary" where
  "Summary_start authorization reason overflow =
     \<lparr>su_State = '''', su_Authorization = authorization, su_Reason = reason,
      su_Ready = 0, su_Degraded = 0, su_Failed = 0, su_Stale = 0, su_Unknown = 0, su_Conflicted = 0,
      su_NotApplicable = 0, su_OpenGaps = 0, su_GapOverflow = False, su_SourceConflicts = 0,
      su_AwaitingBaseline = 0, su_ConflictOverflow = overflow\<rparr>"

definition summarize :: "Snapshot \<Rightarrow> bool \<Rightarrow> Summary" where
  "summarize s overflow =
     (let u = Summary_start (sn_Authorization s) (sn_Reason s) overflow;
          u = fold summarize_component (sn_Components s) u;
          u = fold summarize_source (sn_Sources s) u;
          integrity = (su_OpenGaps u > 0 \<or> su_GapOverflow u \<or> su_AwaitingBaseline u > 0 \<or>
                       su_SourceConflicts u > 0)
      in u\<lparr>su_State :=
            (if su_Failed u > 0 then AggregateFailed
             else if su_Degraded u > 0 \<or> su_Stale u > 0 \<or> su_Conflicted u > 0 \<or> integrity
               then AggregateDegraded
             else if su_Unknown u > 0 then AggregateUnknown
             else AggregateReady)\<rparr>)"

section \<open>The semantic projection\<close>

record semanticCorroboration =
  sc_Source :: source_id
  sc_Lifecycle :: lifecycle
  sc_Agrees :: bool

record semanticComponent =
  sm_Component :: component
  sm_State :: component_state
  sm_Observed :: lifecycle
  sm_Reason :: fact_reason
  sm_Payload :: Payload
  sm_HasBaseline :: bool
  sm_RebaselineRequired :: bool
  sm_Conflicts :: u32
  sm_Corroborations :: "semanticCorroboration list"

record semanticSource =
  sx_Source :: source_id
  sx_BootID :: string
  sx_Gaps :: "GapRange list"
  sx_GapOverflow :: bool
  sx_PendingBaseline :: "component list"
  sx_Conflicts :: u32

record semantic =
  se_BootID :: string
  se_Policy :: PolicyDescriptor
  se_Authorization :: authorization
  se_Reason :: authorization_reason
  se_Components :: "semanticComponent list"
  se_Sources :: "semanticSource list"
  se_Conflicts :: "ConflictRecord list"
  se_Summary :: Summary

definition project_component :: "ComponentRecord \<Rightarrow> semanticComponent" where
  "project_component r =
     \<lparr>sm_Component = cr_Component r, sm_State = cr_State r, sm_Observed = cr_Observed r,
      sm_Reason = cr_Reason r, sm_Payload = cr_Payload r, sm_HasBaseline = cr_HasBaseline r,
      sm_RebaselineRequired = cr_RebaselineRequired r, sm_Conflicts = cr_Conflicts r,
      sm_Corroborations = map (\<lambda>c. \<lparr>sc_Source = co_Source c, sc_Lifecycle = co_Lifecycle c,
                                     sc_Agrees = co_Agrees c\<rparr>) (cr_Corroborations r)\<rparr>"

definition project_source :: "SourceWatermark \<Rightarrow> semanticSource" where
  "project_source w =
     \<lparr>sx_Source = wm_Source w, sx_BootID = wm_BootID w, sx_Gaps = wm_Gaps w,
      sx_GapOverflow = wm_GapOverflow w, sx_PendingBaseline = wm_PendingBaseline w,
      sx_Conflicts = wm_Conflicts w\<rparr>"

definition project :: "Snapshot \<Rightarrow> semantic" where
  "project s =
     \<lparr>se_BootID = sn_BootID s, se_Policy = sn_Policy s, se_Authorization = sn_Authorization s,
      se_Reason = sn_Reason s, se_Components = map project_component (sn_Components s),
      se_Sources = map project_source (sn_Sources s), se_Conflicts = sn_Conflicts s,
      se_Summary = sn_Summary s\<rparr>"

definition json_semanticCorroboration :: "semanticCorroboration \<Rightarrow> json" where
  "json_semanticCorroboration c = JObject [
     (''source'', JString (sc_Source c)), (''lifecycle'', JString (sc_Lifecycle c)),
     (''agrees'', JBool (sc_Agrees c))]"

definition json_semanticComponent :: "semanticComponent \<Rightarrow> json" where
  "json_semanticComponent c = JObject ([
     (''component'', JString (sm_Component c)), (''state'', JString (sm_State c)),
     (''observed'', JString (sm_Observed c)), (''reason'', JString (sm_Reason c)),
     (''payload'', json_Payload (sm_Payload c)), (''has_baseline'', JBool (sm_HasBaseline c)),
     (''rebaseline_required'', JBool (sm_RebaselineRequired c)),
     (''conflicts'', JInt (uint (sm_Conflicts c)))] @
     omit_slice ''corroborations'' json_semanticCorroboration (sm_Corroborations c))"

definition json_semanticSource :: "semanticSource \<Rightarrow> json" where
  "json_semanticSource s = JObject (
     [(''source'', JString (sx_Source s)), (''boot_id'', JString (sx_BootID s))] @
     omit_slice ''gaps'' json_GapRange (sx_Gaps s) @
     [(''gap_overflow'', JBool (sx_GapOverflow s))] @
     omit_slice ''pending_baseline'' JString (sx_PendingBaseline s) @
     [(''conflicts'', JInt (uint (sx_Conflicts s)))])"

definition json_semantic :: "semantic \<Rightarrow> json" where
  "json_semantic s = JObject (
     [(''boot_id'', JString (se_BootID s)), (''policy'', json_PolicyDescriptor (se_Policy s)),
      (''authorization'', JString (se_Authorization s)),
      (''authorization_reason'', JString (se_Reason s)),
      (''components'', json_slice json_semanticComponent (se_Components s)),
      (''sources'', json_slice json_semanticSource (se_Sources s))] @
     omit_slice ''conflicts'' json_ConflictRecord (se_Conflicts s) @
     [(''summary'', json_Summary (se_Summary s))])"

definition SemanticDigest :: "codec \<Rightarrow> Snapshot \<Rightarrow> reduce_error + string" where
  "SemanticDigest cd s =
     (case CanonicalSHA256 cd (json_semantic (project s)) of
        Inl _ \<Rightarrow> Inl ErrInvalidSnapshot | Inr (digest, _) \<Rightarrow> Inr digest)"

definition effective :: "codec \<Rightarrow> Snapshot option \<Rightarrow> Snapshot \<Rightarrow> reduce_error + bool" where
  "effective cd prior next =
     (case prior of
        None \<Rightarrow> Inr True
      | Some p \<Rightarrow>
          (case SemanticDigest cd p of
             Inl err \<Rightarrow> Inl err
           | Inr before \<Rightarrow>
               (case SemanticDigest cd next of
                  Inl err \<Rightarrow> Inl err
                | Inr after \<Rightarrow> Inr (before \<noteq> after))))"

section \<open>Reduce\<close>

definition fold_start :: "Input \<Rightarrow> Fold" where
  "fold_start i =
     \<lparr>fo_components = markRebaseline (newComponentTable (in_Prior i)) i,
      fo_sources = newSourceTable (in_Prior i), fo_conflicts = newConflictTable (in_Prior i),
      fo_consumed = (case in_Prior i of None \<Rightarrow> in_PriorConsumed i | Some p \<Rightarrow> sn_ConsumedHostSequence p),
      fo_folded = (case in_Prior i of None \<Rightarrow> in_PriorFolded i | Some p \<Rightarrow> sn_ConsumedFoldPosition p)\<rparr>"

text \<open>
  The snapshot before its generation is decided (the generation field is still zero).
  The summary reads only authorization, components and sources, which are set before it.
\<close>

definition assemble :: "Input \<Rightarrow> Fold \<Rightarrow> ComponentRecord list \<Rightarrow> Snapshot" where
  "assemble i s components =
     (let (records, overflow) = renderConflicts (fo_conflicts s);
          (authorization, reason) = authorize (in_Policy i) (in_Prior i);
          snapshot = \<lparr>sn_Schema = SnapshotSchema, sn_Version = SnapshotSchemaVersion, sn_Generation = 0,
            sn_ReducerID = ReducerID, sn_ReducerVersion = ReducerVersion, sn_BootID = in_BootID i,
            sn_EvaluationTick = in_EvaluationTick i, sn_Policy = in_Policy i,
            sn_Authorization = authorization, sn_Reason = reason,
            sn_ConsumedHostSequence = fo_consumed s, sn_ConsumedFoldPosition = fo_folded s,
            sn_Components = components, sn_Sources = renderSources (fo_sources s),
            sn_Conflicts = records, sn_Summary = Summary_start '''' '''' False\<rparr>
      in snapshot\<lparr>sn_Summary := summarize snapshot overflow\<rparr>)"

definition conclude :: "codec \<Rightarrow> Input \<Rightarrow> Snapshot \<Rightarrow> bool \<Rightarrow> reduce_error + Output" where
  "conclude cd i snapshot changed =
     (case Snapshot_Validate snapshot of
        Some err \<Rightarrow> Inl err
      | None \<Rightarrow>
          (case Desire \<lparr>ep_Descriptor = in_Policy i, ep_Components = in_PolicyComponents i\<rparr> of
             Inl err \<Rightarrow> Inl err
           | Inr desired \<Rightarrow>
               (let diff = Compare snapshot desired (in_Prior i)
                in case Propose cd snapshot diff of
                     Inl err \<Rightarrow> Inl err
                   | Inr proposals \<Rightarrow>
                       Inr \<lparr>out_Snapshot = snapshot, out_Desired = desired, out_Diff = diff,
                            out_Proposals = proposals, out_Changed = changed\<rparr>)))"

definition Reduce :: "codec \<Rightarrow> Input \<Rightarrow> reduce_error + Output" where
  "Reduce cd i =
     (case validateInput i of
        Some err \<Rightarrow> Inl err
      | None \<Rightarrow>
     (case reduce_events (fold_start i) (in_Events i) of
        Inl err \<Rightarrow> Inl err
      | Inr s \<Rightarrow>
     (case renderComponents (fo_components s) (fo_sources s) i of
        Inl err \<Rightarrow> Inl err
      | Inr components \<Rightarrow>
     (let snapshot = assemble i s components in
      case effective cd (in_Prior i) snapshot of
        Inl err \<Rightarrow> Inl err
      | Inr changed \<Rightarrow>
          (let generation = (case in_Prior i of None \<Rightarrow> 0 | Some p \<Rightarrow> sn_Generation p);
               generation = (if changed \<or> in_Prior i = None then generation + 1 else generation)
           in conclude cd i (snapshot\<lparr>sn_Generation := generation\<rparr>) (changed \<or> in_Prior i = None))))))"

end
