(* ===== verification/Reduction.thy ===== *)
theory Reduction
  imports Reduce
begin

text \<open>
  What a reduction does to its tables: well-formedness of the three tables and its
  preservation by every event, the watermarks, which records an event may touch, when the
  fold goes through, and that the snapshot assembled from well-formed tables is one that
  \<^verbatim>\<open>Validate\<close> accepts.
\<close>

section \<open>Validation of snapshots\<close>

lemma conflicts_bounded_iff:
  "conflicts_bounded per rs \<longleftrightarrow>
     (\<forall>s\<in>cf_Source ` set rs. (case map_of per s of None \<Rightarrow> 0 | Some n \<Rightarrow> n) +
        length (filter (\<lambda>r. cf_Source r = s) rs) \<le> MaxConflictRecords)"
proof (induction rs arbitrary: per)
  case (Cons r rs)
  have "cf_Source r \<notin> cf_Source ` set rs \<Longrightarrow> filter (\<lambda>q. cf_Source q = cf_Source r) rs = []"
    by (auto simp: filter_empty_conv image_iff)
  then show ?case
    unfolding conflicts_bounded.simps Let_def Cons.IH
    by (cases "cf_Source r \<in> cf_Source ` set rs"; auto split: if_splits option.splits)
qed simp

lemma Snapshot_Validate_None_iff:
  "Snapshot_Validate s = None \<longleftrightarrow>
     sn_Schema s = SnapshotSchema \<and> sn_Version s = SnapshotSchemaVersion \<and>
     sn_ReducerID s = ReducerID \<and> sn_ReducerVersion s = ReducerVersion \<and> sn_Generation s \<noteq> 0 \<and>
     map cr_Component (sn_Components s) = Components \<and>
     (\<forall>r\<in>set (sn_Components s). ComponentState_valid (cr_State r) \<and>
        length (cr_Corroborations r) \<le> MaxCorroborations) \<and>
     conflicts_bounded [] (sn_Conflicts s) \<and> (\<forall>w\<in>set (sn_Sources s). watermark_bounded w) \<and>
     (sn_Authorization s = AuthorizationAuthorized \<longrightarrow> sn_Reason s = AuthorizationReasonNone) \<and>
     (sn_Authorization s = AuthorizationUnauthorized \<longrightarrow> sn_Reason s \<noteq> AuthorizationReasonNone)"
proof -
  have "length rs = length cs \<Longrightarrow>
      list_all (\<lambda>(r, e). cr_Component r = e \<and> ComponentState_valid (cr_State r)) (zip rs cs) \<longleftrightarrow>
      map cr_Component rs = cs \<and> (\<forall>r\<in>set rs. ComponentState_valid (cr_State r))" for rs cs
    by (induction rs cs rule: list_induct2) auto
  note zipped = this
  have len: "map cr_Component (sn_Components s) = Components \<Longrightarrow> length (sn_Components s) = length Components"
    by (metis length_map)
  show ?thesis
    unfolding Snapshot_Validate_def
    using zipped[of "sn_Components s" Components] len
    by (cases "length (sn_Components s) = length Components") (auto simp: list_all_iff not_less)
qed

section \<open>Well-formed tables\<close>

definition record_ok :: "component \<Rightarrow> ComponentRecord \<Rightarrow> bool" where
  "record_ok c r \<longleftrightarrow> cr_Component r = c \<and> length (cr_Corroborations r) \<le> MaxCorroborations"

definition components_ok :: "component_table \<Rightarrow> bool" where
  "components_ok t \<longleftrightarrow> (\<forall>c\<in>set Components. \<exists>r. map_of t c = Some r \<and> record_ok c r)"

definition sources_ok :: "source_table \<Rightarrow> bool" where
  "sources_ok t \<longleftrightarrow> distinct (map fst t) \<and> (\<forall>(k, w)\<in>set t. wm_Source w = k)"

definition conflicts_ok :: "conflict_table \<Rightarrow> bool" where
  "conflicts_ok t \<longleftrightarrow> distinct (map fst t) \<and> (\<forall>(k, r)\<in>set t. conflict_key_of r = k)"

definition fold_ok :: "Fold \<Rightarrow> bool" where
  "fold_ok s \<longleftrightarrow> components_ok (fo_components s) \<and> sources_ok (fo_sources s) \<and> conflicts_ok (fo_conflicts s)"

lemma components_ok_update:
  "components_ok t \<Longrightarrow> record_ok c r \<Longrightarrow> components_ok (AList.update c r t)"
  by (auto simp: components_ok_def)

lemma sources_ok_update:
  "sources_ok t \<Longrightarrow> wm_Source w = k \<Longrightarrow> sources_ok (AList.update k w t)"
  using set_alist_update_subset[of k w t] by (auto simp: sources_ok_def distinct_update)

lemma conflicts_ok_update:
  "conflicts_ok t \<Longrightarrow> conflict_key_of r = k \<Longrightarrow> conflicts_ok (AList.update k r t)"
  using set_alist_update_subset[of k r t] by (auto simp: conflicts_ok_def distinct_update)

lemma conflicts_ok_lookup: "conflicts_ok t \<Longrightarrow> map_of t k = Some r \<Longrightarrow> conflict_key_of r = k"
  by (auto simp: conflicts_ok_def dest!: map_of_SomeD)

lemma map_of_keyed: "map_of (map (\<lambda>c. (c, g c)) cs) c = (if c \<in> set cs then Some (g c) else None)"
  by (induction cs) auto

lemma newComponentTable_ok:
  assumes "\<And>p. prior = Some p \<Longrightarrow> Snapshot_Validate p = None"
  shows "components_ok (newComponentTable prior)"
proof -
  have base: "components_ok (map (\<lambda>c. (c, new_record c)) Components)"
    by (auto simp: components_ok_def map_of_keyed record_ok_def new_record_def)
  have "components_ok (fold (\<lambda>r. AList.update (cr_Component r) r) rs t)"
    if "components_ok t" "\<forall>r\<in>set rs. record_ok (cr_Component r) r" for rs t
    using that by (induction rs arbitrary: t) (auto intro: components_ok_update)
  with base show ?thesis
    using assms
    by (cases prior) (auto simp: newComponentTable_def Let_def record_ok_def Snapshot_Validate_None_iff)
qed

lemma newSourceTable_ok: "sources_ok (newSourceTable prior)"
proof -
  have "sources_ok (fold (\<lambda>w. AList.update (wm_Source w) w) ws t)" if "sources_ok t" for ws t
    using that by (induction ws arbitrary: t) (auto intro: sources_ok_update)
  from this[of "[]"] show ?thesis by (auto simp: newSourceTable_def sources_ok_def split: option.splits)
qed

lemma newConflictTable_ok: "conflicts_ok (newConflictTable prior)"
proof -
  have "conflicts_ok (fold (\<lambda>r. AList.update (conflict_key_of r) r) rs t)" if "conflicts_ok t" for rs t
    using that by (induction rs arbitrary: t) (auto intro: conflicts_ok_update)
  from this[of "[]"] show ?thesis by (auto simp: newConflictTable_def conflicts_ok_def split: option.splits)
qed

lemma map_of_map_keyed: "map_of (map (\<lambda>(k, v). (k, g k v)) t) c = map_option (g c) (map_of t c)"
  by (induction t) auto

definition withdrawn :: "Input \<Rightarrow> component \<Rightarrow> ComponentRecord \<Rightarrow> bool" where
  "withdrawn i c r \<longleftrightarrow>
     (in_Wake i \<noteq> None \<or> (\<exists>p. in_Prior i = Some p \<and> sn_BootID p \<noteq> in_BootID i)) \<and>
     TimeSensitive c \<and> cr_HostSequence r \<noteq> 0"

lemma map_of_markRebaseline:
  "map_of (markRebaseline t i) c =
     map_option (\<lambda>r. if withdrawn i c r then r\<lparr>cr_RebaselineRequired := True\<rparr> else r) (map_of t c)"
proof -
  have eq: "(\<lambda>(c, r). if \<not> TimeSensitive c then (c, r) else if cr_HostSequence r = 0 then (c, r)
      else (c, r\<lparr>cr_RebaselineRequired := True\<rparr>)) =
    (\<lambda>(c, r). (c, if TimeSensitive c \<and> cr_HostSequence r \<noteq> 0 then r\<lparr>cr_RebaselineRequired := True\<rparr> else r))"
    by auto
  show ?thesis
    unfolding markRebaseline_def Let_def eq
    by (cases "map_of t c") (auto simp: withdrawn_def map_of_map_keyed split: option.splits)
qed

lemma markRebaseline_ok:
  assumes "components_ok t" shows "components_ok (markRebaseline t i)"
  unfolding components_ok_def
proof
  fix c assume "c \<in> set Components"
  then obtain r where "map_of t c = Some r" "record_ok c r" using assms by (auto simp: components_ok_def)
  then show "\<exists>r. map_of (markRebaseline t i) c = Some r \<and> record_ok c r"
    by (simp add: map_of_markRebaseline record_ok_def)
qed

lemma fold_start_ok:
  assumes "validateInput i = None"
  shows "fold_ok (fold_start i)"
proof -
  have "Snapshot_Validate p = None" if "in_Prior i = Some p" for p
    using assms that by (auto simp: validateInput_def validate_prior_def split: if_splits option.splits)
  then show ?thesis
    by (simp add: fold_ok_def fold_start_def newComponentTable_ok newSourceTable_ok newConflictTable_ok
        markRebaseline_ok)
qed

section \<open>One event\<close>

definition ev_accepted :: "Event \<Rightarrow> bool" where
  "ev_accepted e \<longleftrightarrow> ac_Outcome (ev_Acceptance e) = OutcomeAccepted"

text \<open>An accepted event of the owner of its component, the only kind that writes the component.\<close>

definition ev_owner :: "Event \<Rightarrow> bool" where
  "ev_owner e \<longleftrightarrow> ev_accepted e \<and> ac_Role (ev_Acceptance e) = RoleAuthoritative"

definition write_record :: "ComponentRecord \<Rightarrow> Event \<Rightarrow> ComponentRecord" where
  "write_record r e = (if ac_Role (ev_Acceptance e) \<noteq> RoleAuthoritative then addCorroboration r e else observe r e)"

lemma reduce_event_E:
  assumes "reduce_event s e = Inr s'"
  obtains (accepted) r where "ev_accepted e" "map_of (fo_components s) (f_Component (ev_Fact e)) = Some r"
      "ac_HostSequence (ev_Acceptance e) = fo_consumed s + 1"
      "fo_components s' = AList.update (f_Component (ev_Fact e)) (write_record r e) (fo_components s)"
      "fo_sources s' = note_source (fo_sources s) e"
      "fo_conflicts s' = (if f_Baseline (ev_Fact e)
         then clearComponentConflicts (fo_conflicts s) (f_SourceID (ev_Fact e)) (f_Component (ev_Fact e))
         else fo_conflicts s)"
      "fo_consumed s' = fo_consumed s + 1"
  | (conflict) "\<not> ev_accepted e" "ac_Outcome (ev_Acceptance e) = OutcomeConflict"
      "s' = applyConflict (s\<lparr>fo_folded := fo_folded s + 1\<rparr>) e"
  | (idle) "\<not> ev_accepted e" "ac_Outcome (ev_Acceptance e) \<in> {OutcomeDuplicate, OutcomeStale}"
      "s' = s\<lparr>fo_folded := fo_folded s + 1\<rparr>"
  using assms unfolding reduce_event_def Let_def applyAccepted_def ev_accepted_def write_record_def
  by (auto split: if_splits option.splits)

lemma reduce_event_folded:
  "reduce_event s e = Inr s' \<Longrightarrow> fo_folded s' = fo_folded s + 1 \<and> ac_FoldPosition (ev_Acceptance e) = fo_folded s + 1"
  unfolding reduce_event_def Let_def applyAccepted_def applyConflict_def
  by (auto split: if_splits option.splits)

lemma applyConflict_frame [simp]:
  "fo_components (applyConflict s e) = fo_components s" "fo_consumed (applyConflict s e) = fo_consumed s"
  "fo_folded (applyConflict s e) = fo_folded s"
  "fo_sources (applyConflict s e) = note_source (fo_sources s) e"
  by (simp_all add: applyConflict_def Let_def)

lemma addCorroboration_frame [simp]:
  "cr_Component (addCorroboration r e) = cr_Component r" "cr_Source (addCorroboration r e) = cr_Source r"
  "cr_Domain (addCorroboration r e) = cr_Domain r"
  "cr_Observed (addCorroboration r e) = cr_Observed r" "cr_Reason (addCorroboration r e) = cr_Reason r"
  "cr_Payload (addCorroboration r e) = cr_Payload r" "cr_BootID (addCorroboration r e) = cr_BootID r"
  "cr_MonotonicTick (addCorroboration r e) = cr_MonotonicTick r"
  "cr_FreshnessDeadline (addCorroboration r e) = cr_FreshnessDeadline r"
  "cr_HostSequence (addCorroboration r e) = cr_HostSequence r"
  "cr_HasBaseline (addCorroboration r e) = cr_HasBaseline r"
  "cr_RebaselineRequired (addCorroboration r e) = cr_RebaselineRequired r"
  by (auto simp: addCorroboration_def Let_def split: option.splits)

lemma addCorroboration_bounded:
  "length (cr_Corroborations r) \<le> MaxCorroborations \<Longrightarrow>
   length (cr_Corroborations (addCorroboration r e)) \<le> MaxCorroborations"
  by (auto simp: addCorroboration_def Let_def extract_Some_iff split: option.splits)

lemma observe_frame [simp]:
  "cr_Component (observe r e) = cr_Component r" "cr_Source (observe r e) = cr_Source r"
  "cr_Domain (observe r e) = cr_Domain r" "cr_Corroborations (observe r e) = cr_Corroborations r"
  "cr_RebaselineRequired (observe r e) \<longleftrightarrow> cr_RebaselineRequired r \<and> \<not> f_Baseline (ev_Fact e)"
  by (simp_all add: observe_def Let_def)

lemma write_record_ok: "record_ok c r \<Longrightarrow> record_ok c (write_record r e)"
  by (auto simp: record_ok_def write_record_def addCorroboration_bounded)

lemma note_source_ok: "sources_ok t \<Longrightarrow> sources_ok (note_source t e)"
  unfolding note_source_def
  by (rule sources_ok_update)
    (auto simp: adoptIntegrity_def Let_def watermarkFor_def sources_ok_def
      dest!: map_of_SomeD split: option.splits)

lemma reduce_event_ok:
  assumes "reduce_event s e = Inr s'" "fold_ok s"
  shows "fold_ok s'"
  using assms(1)
proof (cases rule: reduce_event_E)
  case (accepted r)
  have "record_ok (f_Component (ev_Fact e)) r" if "f_Component (ev_Fact e) \<in> set Components"
    using that assms(2) accepted(2) by (fastforce simp: fold_ok_def components_ok_def)
  then have "components_ok (fo_components s')"
    using assms(2) unfolding accepted(4) fold_ok_def components_ok_def
    by (auto intro: write_record_ok)
  moreover have "conflicts_ok (clearComponentConflicts (fo_conflicts s) x y)" for x y
    using assms(2)
    by (auto simp: fold_ok_def conflicts_ok_def clearComponentConflicts_def distinct_map_filter)
  ultimately show ?thesis
    using assms(2) accepted note_source_ok by (auto simp: fold_ok_def)
next
  case conflict
  have "conflicts_ok (fo_conflicts (applyConflict s0 e))" if "conflicts_ok (fo_conflicts s0)" for s0
    using conflicts_ok_lookup[OF that]
    by (auto simp: applyConflict_def Let_def conflict_key_of_def
        intro!: conflicts_ok_update[OF that] split: option.splits)
  then show ?thesis
    using assms(2) conflict note_source_ok by (simp add: fold_ok_def)
next
  case idle
  then show ?thesis using assms(2) by (simp add: fold_ok_def)
qed

section \<open>A batch\<close>

lemma reduce_events_induct [consumes 1, case_names Nil Cons]:
  assumes "reduce_events s es = Inr s'"
    and "\<And>s. P s [] s"
    and "\<And>s e es s1 s'. reduce_event s e = Inr s1 \<Longrightarrow> reduce_events s1 es = Inr s' \<Longrightarrow> P s1 es s' \<Longrightarrow> P s (e # es) s'"
  shows "P s es s'"
  using assms(1)
proof (induction es arbitrary: s)
  case Nil
  then show ?case using assms(2) by simp
next
  case (Cons e es)
  then obtain s1 where "reduce_event s e = Inr s1" "reduce_events s1 es = Inr s'"
    by (auto split: sum.splits)
  then show ?case using assms(3) Cons.IH by blast
qed

lemma reduce_events_ok: "reduce_events s es = Inr s' \<Longrightarrow> fold_ok s \<Longrightarrow> fold_ok s'"
  by (induction rule: reduce_events_induct) (auto dest: reduce_event_ok)

lemma reduce_events_positions:
  "reduce_events s es = Inr s' \<Longrightarrow>
     fo_folded s' = fo_folded s + of_nat (length es) \<and>
     fo_consumed s' = fo_consumed s + of_nat (length (filter ev_accepted es)) \<and>
     map (ac_FoldPosition \<circ> ev_Acceptance) es = map (\<lambda>n. fo_folded s + 1 + of_nat n) [0..<length es]"
proof (induction rule: reduce_events_induct)
  case (Cons s e es s1 s')
  have "fo_folded s1 = fo_folded s + 1" "ac_FoldPosition (ev_Acceptance e) = fo_folded s + 1"
    using reduce_event_folded[OF Cons.hyps(1)] by auto
  moreover from Cons.hyps(1) have "fo_consumed s1 = fo_consumed s + (if ev_accepted e then 1 else 0)"
    by (cases rule: reduce_event_E) auto
  ultimately show ?case
    using Cons.IH by (simp add: upt_conv_Cons map_Suc_upt[symmetric] algebra_simps comp_def del: upt_Suc)
qed simp

section \<open>Who writes a component\<close>

definition owner_view where
  "owner_view r = (cr_Observed r, cr_Reason r, cr_Payload r, cr_BootID r, cr_MonotonicTick r,
     cr_FreshnessDeadline r, cr_HostSequence r, cr_HasBaseline r, cr_RebaselineRequired r)"

text \<open>The accepted events of a batch by which the owner of \<open>c\<close> spoke about \<open>c\<close>, in order.\<close>

definition owner_events :: "component \<Rightarrow> Event list \<Rightarrow> Event list" where
  "owner_events c es = filter (\<lambda>e. ev_owner e \<and> f_Component (ev_Fact e) = c) es"

lemma owner_view_observe:
  "owner_view r = owner_view q \<Longrightarrow> owner_view (observe r e) = owner_view (observe q e)"
  by (simp add: owner_view_def observe_def Let_def)

lemma owner_view_observes:
  "owner_view r = owner_view q \<Longrightarrow>
   owner_view (fold (\<lambda>e r. observe r e) es r) = owner_view (fold (\<lambda>e r. observe r e) es q)"
proof (induction es arbitrary: r q)
  case (Cons e es)
  show ?case using Cons.IH[OF owner_view_observe[OF Cons.prems]] by simp
qed simp

lemma reduce_events_owner:
  assumes "reduce_events s es = Inr s'" "map_of (fo_components s) c = Some r"
  shows "\<exists>r'. map_of (fo_components s') c = Some r' \<and> cr_Source r' = cr_Source r \<and> cr_Domain r' = cr_Domain r \<and>
    cr_Component r' = cr_Component r \<and>
    owner_view r' = owner_view (fold (\<lambda>e r. observe r e) (owner_events c es) r)"
  using assms
proof (induction arbitrary: r rule: reduce_events_induct)
  case (Nil s)
  then show ?case by (simp add: owner_events_def)
next
  case (Cons s e es s1 s')
  define q where "q = (if ev_owner e \<and> f_Component (ev_Fact e) = c then observe r e else r)"
  have "\<exists>r1. map_of (fo_components s1) c = Some r1 \<and> cr_Source r1 = cr_Source r \<and> cr_Domain r1 = cr_Domain r \<and>
      cr_Component r1 = cr_Component r \<and> owner_view r1 = owner_view q"
    using Cons.hyps(1)
  proof (cases rule: reduce_event_E)
    case (accepted r0)
    then show ?thesis
      using Cons.prems by (auto simp: q_def ev_owner_def write_record_def owner_view_def)
  next
    case conflict
    then show ?thesis using Cons.prems by (simp add: q_def ev_owner_def)
  next
    case idle
    then show ?thesis using Cons.prems by (simp add: q_def ev_owner_def)
  qed
  then obtain r1 where r1: "map_of (fo_components s1) c = Some r1" "cr_Source r1 = cr_Source r"
    "cr_Domain r1 = cr_Domain r" "cr_Component r1 = cr_Component r" "owner_view r1 = owner_view q" by blast
  have split: "fold (\<lambda>e r. observe r e) (owner_events c (e # es)) r = fold (\<lambda>e r. observe r e) (owner_events c es) q"
    by (simp add: owner_events_def q_def)
  from Cons.IH[OF r1(1)] obtain r' where r': "map_of (fo_components s') c = Some r'"
    "cr_Source r' = cr_Source r1" "cr_Domain r' = cr_Domain r1" "cr_Component r' = cr_Component r1"
    "owner_view r' = owner_view (fold (\<lambda>e r. observe r e) (owner_events c es) r1)" by blast
  show ?case unfolding split using r' r1 owner_view_observes[OF r1(5)] by auto
qed

lemma observes_rebaseline:
  assumes "cr_RebaselineRequired r" "\<not> cr_RebaselineRequired (fold (\<lambda>e r. observe r e) es r)"
  shows "\<exists>e\<in>set es. f_Baseline (ev_Fact e)"
  using assms
proof (induction es arbitrary: r)
  case (Cons e es)
  show ?case
    using Cons.IH[of "observe r e"] Cons.prems by (cases "f_Baseline (ev_Fact e)") auto
qed simp

section \<open>Rendering\<close>

lemma render_components_map:
  assumes "\<forall>c\<in>set cs. map_of t c \<noteq> None"
  shows "render_components cs t sources i = Inr (map (\<lambda>c. render_component (the (map_of t c)) sources i) cs)"
  using assms by (induction cs) auto

lemma renderComponents_ok:
  assumes "components_ok t"
  shows "renderComponents t sources i =
    Inr (map (\<lambda>c. render_component (the (map_of t c)) sources i) Components)"
  unfolding renderComponents_def
  by (rule render_components_map) (use assms in \<open>auto simp: components_ok_def\<close>)

lemma render_component_frame [simp]:
  "cr_Component (render_component r sources i) = cr_Component r"
  "cr_Source (render_component r sources i) = cr_Source r"
  "cr_Domain (render_component r sources i) = cr_Domain r"
  "length (cr_Corroborations (render_component r sources i)) = length (cr_Corroborations r)"
  "owner_view (render_component r sources i) = owner_view r"
  by (simp_all add: render_component_def Let_def sortedCorroborations_def owner_view_def)

lemma deriveState_valid: "ComponentState_valid (deriveState r i)"
  by (simp add: deriveState_def ComponentState_valid_def)

lemma render_component_state:
  "cr_State (render_component r sources i) = deriveState (render_component r sources i) i"
  by (simp add: render_component_def Let_def deriveState_def)

text \<open>A reduction that returned, taken apart.\<close>

lemma Reduce_E:
  assumes "Reduce cd i = Inr out"
  obtains s changed where
    "validateInput i = None" "reduce_events (fold_start i) (in_Events i) = Inr s" "fold_ok s"
    "sn_Components (out_Snapshot out) =
       map (\<lambda>c. render_component (the (map_of (fo_components s) c)) (fo_sources s) i) Components"
    "out_Snapshot out = (assemble i s (sn_Components (out_Snapshot out)))
       \<lparr>sn_Generation := (case in_Prior i of None \<Rightarrow> 1 | Some p \<Rightarrow> sn_Generation p + (if changed then 1 else 0))\<rparr>"
    "effective cd (in_Prior i) (assemble i s (sn_Components (out_Snapshot out))) = Inr changed"
    "out_Changed out \<longleftrightarrow> changed" "Snapshot_Validate (out_Snapshot out) = None"
    "Desire \<lparr>ep_Descriptor = in_Policy i, ep_Components = in_PolicyComponents i\<rparr> = Inr (out_Desired out)"
    "out_Diff out = Compare (out_Snapshot out) (out_Desired out) (in_Prior i)"
    "Propose cd (out_Snapshot out) (out_Diff out) = Inr (out_Proposals out)"
proof -
  have v: "validateInput i = None"
    using assms by (auto simp: Reduce_def split: option.splits)
  then obtain s where s: "reduce_events (fold_start i) (in_Events i) = Inr s"
    using assms by (cases "reduce_events (fold_start i) (in_Events i)") (simp_all add: Reduce_def)
  have ok: "fold_ok s" by (rule reduce_events_ok[OF s fold_start_ok[OF v]])
  let ?cs = "map (\<lambda>c. render_component (the (map_of (fo_components s) c)) (fo_sources s) i) Components"
  have render: "renderComponents (fo_components s) (fo_sources s) i = Inr ?cs"
    using ok by (simp add: fold_ok_def renderComponents_ok)
  obtain changed where ch: "effective cd (in_Prior i) (assemble i s ?cs) = Inr changed"
    using assms by (cases "effective cd (in_Prior i) (assemble i s ?cs)") (simp_all add: Reduce_def v s render)
  have new: "in_Prior i = None \<Longrightarrow> changed" using ch by (auto simp: effective_def)
  let ?sn = "(assemble i s ?cs)\<lparr>sn_Generation :=
      (case in_Prior i of None \<Rightarrow> 1 | Some p \<Rightarrow> sn_Generation p + (if changed then 1 else 0))\<rparr>"
  let ?gen = "case in_Prior i of None \<Rightarrow> 0 | Some p \<Rightarrow> sn_Generation p"
  have "conclude cd i ((assemble i s ?cs)\<lparr>sn_Generation :=
      (if changed \<or> in_Prior i = None then ?gen + 1 else ?gen)\<rparr>) (changed \<or> in_Prior i = None) = Inr out"
    using assms by (simp add: Reduce_def v s render ch Let_def)
  then have conc: "conclude cd i ?sn changed = Inr out"
    using new by (cases "in_Prior i"; cases changed) simp_all
  have comps: "sn_Components ?sn = ?cs" by (simp add: assemble_def Let_def split: prod.splits)
  have fields: "out_Snapshot out = ?sn" "out_Changed out \<longleftrightarrow> changed" "Snapshot_Validate ?sn = None"
    "Desire \<lparr>ep_Descriptor = in_Policy i, ep_Components = in_PolicyComponents i\<rparr> = Inr (out_Desired out)"
    "out_Diff out = Compare ?sn (out_Desired out) (in_Prior i)"
    "Propose cd ?sn (out_Diff out) = Inr (out_Proposals out)"
    using conc by (auto simp: conclude_def Let_def split: option.splits sum.splits)
  show thesis
    by (rule that[OF v s ok, of changed])
      (simp_all only: fields(1-4,6) comps ch, rule fields(5))
qed

section \<open>The summary\<close>

definition counted :: "('a \<Rightarrow> bool) \<Rightarrow> 'a list \<Rightarrow> u16" where
  "counted P xs = of_nat (length (filter P xs))"

lemma counted_simps [simp]:
  "counted P [] = 0" "counted P (x # xs) = (if P x then 1 else 0) + counted P xs"
  by (simp_all add: counted_def)

lemma counted_pos_iff:
  assumes "length xs < 2 ^ 16"
  shows "counted P xs > 0 \<longleftrightarrow> (\<exists>x\<in>set xs. P x)"
proof -
  have "length (filter P xs) < 2 ^ 16" using assms length_filter_le[of P xs] by linarith
  then have "counted P xs = 0 \<longleftrightarrow> length (filter P xs) = 0"
    unfolding counted_def using nat_dvd_not_less[of "length (filter P xs)" "2 ^ 16"]
    by (auto simp: word_of_nat_eq_0_iff)
  then show ?thesis by (auto simp: word_gt_0 filter_empty_conv)
qed

lemma fold_counter:
  assumes "\<And>x u. F (step x u) = F u + (if P x then 1 else 0)"
  shows "F (fold step xs u) = F u + counted P xs"
  by (induction xs arbitrary: u) (simp_all add: assms algebra_simps)

lemma fold_frame:
  assumes "\<And>x u. F (step x u) = F u"
  shows "F (fold step xs u) = F u"
  by (induction xs arbitrary: u) (simp_all add: assms)

lemma summarize_component_counts:
  "su_Degraded (summarize_component r u) = su_Degraded u + (if cr_State r = StateDegraded then 1 else 0)"
  "su_Failed (summarize_component r u) = su_Failed u + (if cr_State r = StateFailed then 1 else 0)"
  "su_Stale (summarize_component r u) = su_Stale u + (if cr_State r = StateStale then 1 else 0)"
  "su_Conflicted (summarize_component r u) = su_Conflicted u + (if cr_State r = StateConflict then 1 else 0)"
  "su_Unknown (summarize_component r u) = su_Unknown u + (if cr_State r \<notin> {StateReady, StateDegraded,
        StateFailed, StateStale, StateConflict, StateNotApplicable} then 1 else 0)"
  "su_OpenGaps (summarize_component r u) = su_OpenGaps u"
  "su_GapOverflow (summarize_component r u) = su_GapOverflow u"
  "su_SourceConflicts (summarize_component r u) = su_SourceConflicts u"
  "su_AwaitingBaseline (summarize_component r u) = su_AwaitingBaseline u"
  by (simp_all add: summarize_component_def go_consts)

lemma summarize_source_counts:
  "su_OpenGaps (summarize_source w u) = su_OpenGaps u + of_nat (length (wm_Gaps w))"
  "su_GapOverflow (summarize_source w u) \<longleftrightarrow> su_GapOverflow u \<or> wm_GapOverflow w"
  "su_SourceConflicts (summarize_source w u) = su_SourceConflicts u + (if wm_Conflicts w > 0 then 1 else 0)"
  "su_AwaitingBaseline (summarize_source w u) = su_AwaitingBaseline u + (if Watermark_AwaitingBaseline w then 1 else 0)"
  "su_Degraded (summarize_source w u) = su_Degraded u" "su_Failed (summarize_source w u) = su_Failed u"
  "su_Stale (summarize_source w u) = su_Stale u" "su_Conflicted (summarize_source w u) = su_Conflicted u"
  "su_Unknown (summarize_source w u) = su_Unknown u"
  by (simp_all add: summarize_source_def Let_def)

lemmas summarize_folds =
  summarize_component_counts(1-5)[THEN fold_counter[where step = summarize_component]]
  summarize_component_counts(6-9)[THEN fold_frame[where step = summarize_component]]
  summarize_source_counts(3,4)[THEN fold_counter[where step = summarize_source]]
  summarize_source_counts(5-9)[THEN fold_frame[where step = summarize_source]]

lemma summarize_gaps:
  "su_OpenGaps (fold summarize_source ws u) =
     su_OpenGaps u + of_nat (sum_list (map (\<lambda>w. length (wm_Gaps w)) ws))"
  "su_GapOverflow (fold summarize_source ws u) \<longleftrightarrow> su_GapOverflow u \<or> (\<exists>w\<in>set ws. wm_GapOverflow w)"
  by (induction ws arbitrary: u) (auto simp: summarize_source_counts algebra_simps)

text \<open>A source whose stream is not continuous or not trusted.\<close>

definition impaired :: "SourceWatermark \<Rightarrow> bool" where
  "impaired w \<longleftrightarrow> wm_Gaps w \<noteq> [] \<or> wm_GapOverflow w \<or> wm_PendingBaseline w \<noteq> [] \<or> wm_Conflicts w > 0"

lemma summarize_state:
  assumes "length (sn_Components s) < 2 ^ 16" "length (sn_Sources s) < 2 ^ 16"
    and bounded: "\<forall>w\<in>set (sn_Sources s). watermark_bounded w"
  shows "su_State (summarize s overflow) =
    (if \<exists>r\<in>set (sn_Components s). cr_State r = StateFailed then AggregateFailed
     else if (\<exists>r\<in>set (sn_Components s). cr_State r \<in> {StateDegraded, StateStale, StateConflict}) \<or>
             (\<exists>w\<in>set (sn_Sources s). impaired w) then AggregateDegraded
     else if \<exists>r\<in>set (sn_Components s). cr_State r \<notin> {StateReady, StateNotApplicable} then AggregateUnknown
     else AggregateReady)"
proof -
  let ?rs = "sn_Components s" and ?ws = "sn_Sources s"
  define u where "u = fold summarize_source ?ws (fold summarize_component ?rs
     (Summary_start (sn_Authorization s) (sn_Reason s) overflow))"
  let ?gaps = "of_nat (sum_list (map (\<lambda>w. length (wm_Gaps w)) ?ws)) :: u16"
  have u: "su_Failed u = counted (\<lambda>r. cr_State r = StateFailed) ?rs"
    "su_Degraded u = counted (\<lambda>r. cr_State r = StateDegraded) ?rs"
    "su_Stale u = counted (\<lambda>r. cr_State r = StateStale) ?rs"
    "su_Conflicted u = counted (\<lambda>r. cr_State r = StateConflict) ?rs"
    "su_Unknown u = counted (\<lambda>r. cr_State r \<notin> {StateReady, StateDegraded,
        StateFailed, StateStale, StateConflict, StateNotApplicable}) ?rs"
    "su_OpenGaps u = ?gaps" "su_GapOverflow u \<longleftrightarrow> (\<exists>w\<in>set ?ws. wm_GapOverflow w)"
    "su_SourceConflicts u = counted (\<lambda>w. wm_Conflicts w > 0) ?ws"
    "su_AwaitingBaseline u = counted Watermark_AwaitingBaseline ?ws"
    by (simp_all add: u_def summarize_folds summarize_gaps Summary_start_def)
  have no_gaps: "?gaps = 0" if "\<forall>w\<in>set ?ws. wm_Gaps w = []"
  proof -
    have "sum_list (map (\<lambda>w. length (wm_Gaps w)) ?ws) = 0" using that by simp
    from arg_cong[OF this, of "of_nat :: nat \<Rightarrow> u16"] show ?thesis unfolding semiring_1_class.of_nat_0 .
  qed
  have awaiting: "impaired w \<longleftrightarrow> wm_GapOverflow w \<or> Watermark_AwaitingBaseline w \<or> wm_Conflicts w > 0"
    if "w \<in> set ?ws" for w
    using bounded that by (auto simp: impaired_def Watermark_AwaitingBaseline_def watermark_bounded_def)
  have "\<not> 0 < ?gaps" if "\<not> (\<exists>w\<in>set ?ws. impaired w)"
    using no_gaps that unfolding word_gt_0 by (metis impaired_def)
  then have integrity: "su_OpenGaps u > 0 \<or> su_GapOverflow u \<or> su_AwaitingBaseline u > 0 \<or>
      su_SourceConflicts u > 0 \<longleftrightarrow> (\<exists>w\<in>set ?ws. impaired w)"
    unfolding u counted_pos_iff[OF assms(2)] using awaiting by blast
  have "su_State (summarize s overflow) = (if su_Failed u > 0 then AggregateFailed
      else if su_Degraded u > 0 \<or> su_Stale u > 0 \<or> su_Conflicted u > 0 \<or> (\<exists>w\<in>set ?ws. impaired w)
        then AggregateDegraded else if su_Unknown u > 0 then AggregateUnknown else AggregateReady)"
    unfolding integrity[symmetric] by (simp add: summarize_def u_def[symmetric] Let_def)
  note state = this[unfolded u(1-5) counted_pos_iff[OF assms(1)]]
  have impaired: "(\<exists>r\<in>set ?rs. cr_State r = StateDegraded) \<or> (\<exists>r\<in>set ?rs. cr_State r = StateStale) \<or>
      (\<exists>r\<in>set ?rs. cr_State r = StateConflict) \<or> X \<longleftrightarrow>
      (\<exists>r\<in>set ?rs. cr_State r \<in> {StateDegraded, StateStale, StateConflict}) \<or> X" for X by blast
  have rest: "(\<exists>r\<in>set ?rs. cr_State r \<notin> {StateReady, StateDegraded, StateFailed, StateStale,
      StateConflict, StateNotApplicable}) \<longleftrightarrow> (\<exists>r\<in>set ?rs. cr_State r \<notin> {StateReady, StateNotApplicable})"
    if "\<not> (\<exists>r\<in>set ?rs. cr_State r = StateFailed)"
      "\<not> (\<exists>r\<in>set ?rs. cr_State r \<in> {StateDegraded, StateStale, StateConflict})"
    using that by blast
  show ?thesis
  proof (cases "(\<exists>r\<in>set ?rs. cr_State r = StateFailed) \<or>
      (\<exists>r\<in>set ?rs. cr_State r \<in> {StateDegraded, StateStale, StateConflict}) \<or> (\<exists>w\<in>set ?ws. impaired w)")
    case True
    then show ?thesis unfolding state impaired by (simp only: if_True if_False split: if_split) blast
  next
    case False
    then show ?thesis
      unfolding state impaired using rest by (simp only: if_False de_Morgan_disj simp_thms)
  qed
qed

section \<open>Retained conflicts\<close>

lemma mset_filter_groups:
  assumes "distinct ss" "\<And>s r. r \<in> set (g s) \<Longrightarrow> cf_Source r = s"
  shows "mset (filter (\<lambda>r. cf_Source r = s) (concat (map g ss))) = (if s \<in> set ss then mset (g s) else {#})"
  using assms(1)
proof (induction ss)
  case (Cons a ss)
  have "\<forall>r\<in>set (g a). cf_Source r = a" using assms(2) by blast
  then have "filter (\<lambda>r. cf_Source r = s) (g a) = (if a = s then g a else [])"
    by (cases "a = s") (simp_all add: filter_empty_conv)
  with Cons show ?case by (cases "a = s") simp_all
qed simp

lemma conflicts_of_source:
  assumes "r \<in> set (last_n n (conflicts_of s rs))"
  shows "cf_Source r = s \<and> r \<in> set rs"
  using subsetD[OF set_last_n assms] by (simp add: conflicts_of_def)

lemma renderConflicts_of_source:
  "mset (filter (\<lambda>r. cf_Source r = s) (fst (renderConflicts t))) =
   mset (last_n MaxConflictRecords (conflicts_of s (map snd t)))"
proof -
  let ?rs = "map snd t"
  let ?g = "\<lambda>s. last_n MaxConflictRecords (conflicts_of s ?rs)"
  have "mset (filter (\<lambda>r. cf_Source r = s) (fst (renderConflicts t))) =
      mset (filter (\<lambda>r. cf_Source r = s) (concat (map ?g (remdups (map cf_Source ?rs)))))"
    by (simp add: renderConflicts_def Let_def mset_filter)
  also have "\<dots> = (if s \<in> set (remdups (map cf_Source ?rs)) then mset (?g s) else {#})"
    by (rule mset_filter_groups) (simp, use conflicts_of_source in blast)
  also have "\<dots> = mset (?g s)"
  proof (cases "s \<in> cf_Source ` set ?rs")
    case False
    then have "filter (\<lambda>r. cf_Source r = s) ?rs = []" by (auto simp: filter_empty_conv image_iff)
    then have "conflicts_of s ?rs = []" by (simp add: conflicts_of_def)
    then show ?thesis using False by (simp add: last_n_def)
  qed auto
  finally show ?thesis .
qed

lemma renderConflicts_bounded: "conflicts_bounded [] (fst (renderConflicts t))"
proof -
  have "length (filter (\<lambda>r. cf_Source r = s) (fst (renderConflicts t))) \<le> MaxConflictRecords" for s
    using mset_eq_length[OF renderConflicts_of_source[of s t]] by simp
  then show ?thesis by (simp add: conflicts_bounded_iff)
qed

text \<open>What is dropped is older than what is kept.\<close>

lemma last_n_newest:
  assumes "sorted (map k xs)" "distinct xs" "r \<in> set (last_n n xs)" "q \<in> set xs" "q \<notin> set (last_n n xs)"
  shows "k q \<le> k r"
proof -
  let ?m = "length xs - n"
  have split: "xs = take ?m xs @ drop ?m xs" by simp
  have "q \<in> set (take ?m xs)" using assms(4,5) split unfolding last_n_def by (metis UnE set_append)
  moreover have "sorted (map k (take ?m xs) @ map k (drop ?m xs))"
    using assms(1) by (metis map_append split)
  ultimately show ?thesis using assms(3) by (auto simp: sorted_append last_n_def)
qed

section \<open>The assembled snapshot is valid\<close>

lemma assemble_fields [simp]:
  "sn_Components (assemble i s cs) = cs" "sn_Sources (assemble i s cs) = renderSources (fo_sources s)"
  "sn_Schema (assemble i s cs) = SnapshotSchema" "sn_Version (assemble i s cs) = SnapshotSchemaVersion"
  "sn_ReducerID (assemble i s cs) = ReducerID" "sn_ReducerVersion (assemble i s cs) = ReducerVersion"
  "sn_BootID (assemble i s cs) = in_BootID i" "sn_EvaluationTick (assemble i s cs) = in_EvaluationTick i"
  "sn_Policy (assemble i s cs) = in_Policy i"
  "sn_Authorization (assemble i s cs) = fst (authorize (in_Policy i) (in_Prior i))"
  "sn_Reason (assemble i s cs) = snd (authorize (in_Policy i) (in_Prior i))"
  "sn_ConsumedHostSequence (assemble i s cs) = fo_consumed s"
  "sn_ConsumedFoldPosition (assemble i s cs) = fo_folded s"
  "sn_Conflicts (assemble i s cs) = fst (renderConflicts (fo_conflicts s))"
  by (simp_all add: assemble_def Let_def split: prod.splits)

lemma authorize_consistent:
  "(fst (authorize d p) = AuthorizationAuthorized \<longrightarrow> snd (authorize d p) = AuthorizationReasonNone) \<and>
   (fst (authorize d p) = AuthorizationUnauthorized \<longrightarrow> snd (authorize d p) \<noteq> AuthorizationReasonNone)"
  by (simp add: authorize_def go_consts)

lemma set_renderSources:
  "set (renderSources t) = (\<lambda>(_, w). w\<lparr>wm_Gaps := sort_slice gap_From (wm_Gaps w),
     wm_PendingBaseline := sort_slice (\<lambda>c. c) (wm_PendingBaseline w)\<rparr>) ` set t"
  by (simp add: renderSources_def)

lemma renderSources_bounded:
  "\<forall>(k, w)\<in>set t. watermark_bounded w \<Longrightarrow> \<forall>w\<in>set (renderSources t). watermark_bounded w"
  by (auto simp: set_renderSources watermark_bounded_def Watermark_AwaitingBaseline_def)

lemma assemble_valid:
  assumes "fold_ok s" "\<forall>(k, w)\<in>set (fo_sources s). watermark_bounded w" "g \<noteq> 0"
    and cs_def: "cs = map (\<lambda>c. render_component (the (map_of (fo_components s) c)) (fo_sources s) i) Components"
  shows "Snapshot_Validate ((assemble i s cs)\<lparr>sn_Generation := g\<rparr>) = None"
proof -
  have rec: "record_ok c (the (map_of (fo_components s) c))" if "c \<in> set Components" for c
    using assms(1) that by (fastforce simp: fold_ok_def components_ok_def)
  then have "map cr_Component cs = Components"
    unfolding cs_def map_map comp_def by (intro map_idI) (simp add: record_ok_def)
  moreover have "\<forall>r\<in>set cs. ComponentState_valid (cr_State r) \<and> length (cr_Corroborations r) \<le> MaxCorroborations"
    using rec by (auto simp: cs_def render_component_state deriveState_valid record_ok_def)
  ultimately show ?thesis
    using assms(3) renderSources_bounded[OF assms(2)] authorize_consistent[of "in_Policy i" "in_Prior i"]
    by (simp add: Snapshot_Validate_None_iff renderConflicts_bounded)
qed

end
