(* ===== verification/Streams.thy ===== *)
theory Streams
  imports Acceptor
begin

text \<open>
  What the acceptor guarantees over a whole stream of arrivals: an identity is remembered for
  a full retry window (\<open>identity_remembered\<close>), a debt of restatements is paid by nothing but
  a baseline of the owed component (\<open>debt_kept\<close>), and every sequence that never arrived
  stays visible as a gap or as an overflow until the whole source has been restated
  (\<open>ledger_visible\<close>). The definitions here are specifications over the runs of \<open>Accept\<close>.
\<close>

section \<open>Frames\<close>

lemma Accept_other_source:
  assumes "Accept cd st (f, auth) = ((a, e), st')" "f_SourceID f \<noteq> i"
  shows "map_of (st_Sources st') i = map_of (st_Sources st) i"
  using assms by (cases rule: Accept_E) auto

lemma admit_recent:
  assumes "admit host s f digest role = (a, s', h)"
  shows "ss_Recent s' = last_n RetryWindow
    (ss_Recent s @ [\<lparr>rd_Sequence = f_SourceSequence f, rd_Digest = digest\<rparr>])"
  using admit_parts[OF assms] by (auto simp: admit_remember_def Let_def last_n_def)

text \<open>What one arrival does to the source it names, when that source is in the same boot.\<close>

lemma Accept_same_boot:
  assumes "Accept cd st (f, auth) = ((a, e), st')"
    and "map_of (st_Sources st) (f_SourceID f) = Some s" "ss_BootID s = f_BootID f"
  obtains (rejected) "e \<noteq> None" "\<not> Accepted a" "st' = st"
  | (new) role digest h where "e = None" "Accepted a" "ss_LastSequence s < f_SourceSequence f"
      "Fact_Validate f = None" "ClassifyConnectivityFact f auth = Inr role" "Digest cd f = Inr digest"
      "\<exists>a0 s'. admit (st_HostSequence st) s f digest role = (a0, s', h) \<and>
         a = a0\<lparr>ac_FoldPosition := st_FoldPosition st + 1\<rparr> \<and>
         map_of (st_Sources st') (f_SourceID f) = Some s'"
  | (old) role digest where "e = None" "\<not> Accepted a" "f_SourceSequence f \<le> ss_LastSequence s"
      "ClassifyConnectivityFact f auth = Inr role" "Digest cd f = Inr digest"
      "\<exists>a0 s'. replay s f digest role = (a0, s') \<and> ac_Outcome a = ac_Outcome a0 \<and>
         map_of (st_Sources st') (f_SourceID f) = Some s'"
  using assms(1)
proof (cases rule: Accept_E)
  case rejected
  then show ?thesis using that(1) by (simp add: Accepted_def go_consts)
next
  case (decided role digest a0 s' host)
  have src: "source_of st f = s" using assms(2) by (simp add: source_of_def)
  show ?thesis
  proof (cases "ss_LastSequence s < f_SourceSequence f")
    case True
    then have adm: "admit (st_HostSequence st) s f digest role = (a0, s', host)"
      using decided(5) assms(3) src by (simp add: decide_def)
    show ?thesis
      by (rule that(2)[where h = host])
        (use True decided adm admit_result(1)[OF adm] in \<open>auto simp: Accepted_def\<close>)
  next
    case False
    then have rep: "replay s f digest role = (a0, s')"
      using decided(5) assms(3) src by (auto simp: decide_def Let_def split: prod.splits)
    show ?thesis
      by (rule that(3))
        (use False decided rep replay_result(1)[OF rep] in \<open>auto simp: Accepted_def go_consts\<close>)
  qed
qed

section \<open>The retry window\<close>

text \<open>
  \<open>remembers st i b r k\<close>: source \<open>i\<close> is in boot \<open>b\<close> and still remembers the digest \<open>r\<close>,
  with at most \<open>k\<close> newer ones after it.
\<close>

definition remembers :: "State \<Rightarrow> source_id \<Rightarrow> string \<Rightarrow> RecentDigest \<Rightarrow> nat \<Rightarrow> bool" where
  "remembers st i b r k \<longleftrightarrow>
     (\<exists>s pre post. map_of (st_Sources st) i = Some s \<and> ss_BootID s = b \<and>
        ss_Recent s = pre @ r # post \<and> length post \<le> k \<and> rd_Sequence r \<le> ss_LastSequence s)"

lemma last_n_keeps:
  assumes "length post < n"
  shows "\<exists>pre'. last_n n (pre @ r # post) = pre' @ r # post"
proof -
  have "length (pre @ r # post) - n \<le> length pre" using assms by simp
  then show ?thesis by (auto simp: last_n_def)
qed

lemma remembers_step:
  assumes acc: "Accept cd st (f, auth) = ((a, e), st')"
    and rem: "remembers st i b r k" and k: "f_SourceID f = i \<Longrightarrow> Accepted a \<Longrightarrow> Suc k < RetryWindow"
    and boot: "f_SourceID f = i \<Longrightarrow> f_BootID f = b"
  shows "remembers st' i b r (if f_SourceID f = i \<and> Accepted a then Suc k else k)"
proof (cases "f_SourceID f = i")
  case False
  then show ?thesis using rem Accept_other_source[OF acc] by (auto simp: remembers_def)
next
  case True
  obtain s pre post where s: "map_of (st_Sources st) i = Some s" "ss_BootID s = b"
    "ss_Recent s = pre @ r # post" "length post \<le> k" "rd_Sequence r \<le> ss_LastSequence s"
    using rem by (auto simp: remembers_def)
  have "map_of (st_Sources st) (f_SourceID f) = Some s" "ss_BootID s = f_BootID f"
    using s True boot by simp_all
  with acc show ?thesis
  proof (cases rule: Accept_same_boot)
    case rejected
    then show ?thesis using rem by simp
  next
    case (new role digest h)
    then obtain a0 s' where adm: "admit (st_HostSequence st) s f digest role = (a0, s', h)"
      and s': "map_of (st_Sources st') i = Some s'" using True by auto
    obtain pre' where "ss_Recent s' = pre' @ r # (post @ [\<lparr>rd_Sequence = f_SourceSequence f, rd_Digest = digest\<rparr>])"
      using last_n_keeps[of "post @ [\<lparr>rd_Sequence = f_SourceSequence f, rd_Digest = digest\<rparr>]"
          RetryWindow pre r] s(3,4) k True new(2) admit_recent[OF adm] by auto
    moreover have "rd_Sequence r \<le> ss_LastSequence s'"
      using admit_result(6)[OF adm] s(5) new(3) by simp
    ultimately show ?thesis
      using s' s(2,4) admit_result(5)[OF adm] True new(2) by (fastforce simp: remembers_def)
  next
    case (old role digest)
    then obtain a0 s' where rep: "replay s f digest role = (a0, s')"
      and s': "map_of (st_Sources st') i = Some s'" using True by auto
    then show ?thesis
      using s replay_result(4-6)[OF rep] old(2) by (auto simp: remembers_def)
  qed
qed

text \<open>How many of a run's arrivals were accepted from one source.\<close>

definition accepted_from ::
  "source_id \<Rightarrow> (arrival \<times> (Acceptance \<times> accept_error option)) list \<Rightarrow> nat" where
  "accepted_from i log = length (filter (\<lambda>((f, _), (a, _)). f_SourceID f = i \<and> Accepted a) log)"

lemma remembers_run:
  assumes "run_steps (Accept cd) st xs = (outs, st')" "remembers st i b r k"
    and "k + accepted_from i (zip xs outs) < RetryWindow"
    and "\<forall>(f, auth)\<in>set xs. f_SourceID f = i \<longrightarrow> f_BootID f = b"
  shows "remembers st' i b r (k + accepted_from i (zip xs outs))"
  using assms
proof (induction xs arbitrary: st outs k)
  case (Cons x xs)
  obtain f auth where x: "x = (f, auth)" by force
  obtain a e st1 outs1 where acc: "Accept cd st (f, auth) = ((a, e), st1)"
    and rest: "run_steps (Accept cd) st1 xs = (outs1, st')" and outs: "outs = (a, e) # outs1"
    using Cons.prems(1) x by (auto simp: Let_def split: prod.splits)
  let ?k = "if f_SourceID f = i \<and> Accepted a then Suc k else k"
  have count: "k + accepted_from i (zip (x # xs) outs) = ?k + accepted_from i (zip xs outs1)"
    by (simp add: accepted_from_def x outs)
  have "remembers st1 i b r ?k"
    using remembers_step[OF acc Cons.prems(2)] Cons.prems(3,4) count x by (auto split: if_splits)
  then show ?case
    using Cons.IH[OF rest] Cons.prems(3,4) count by simp
qed (simp add: accepted_from_def)

lemma find_in_sorted:
  assumes "sorted_wrt (<) (map rd_Sequence (pre @ r # post))"
  shows "find (\<lambda>e. rd_Sequence e = rd_Sequence r) (pre @ r # post) = Some r"
proof -
  have "find (\<lambda>e. rd_Sequence e = rd_Sequence r) pre = None"
    using assms by (auto simp: find_None_iff sorted_wrt_append)
  then show ?thesis by (induction pre) (auto split: if_splits)
qed

lemma map_of_source_ok:
  "State_Validate st = None \<Longrightarrow> map_of (st_Sources st) i = Some s \<Longrightarrow> SourceState_Validate i s = None"
  by (auto simp: State_Validate_None_iff dest: map_of_SomeD)

text \<open>An accepted arrival is remembered as the newest digest of its source.\<close>

lemma Accept_remembers:
  assumes "Accept cd st (f, auth) = ((a, e), st')" "Accepted a"
  shows "\<exists>digest. Digest cd f = Inr digest \<and>
    remembers st' (f_SourceID f) (f_BootID f) \<lparr>rd_Sequence = f_SourceSequence f, rd_Digest = digest\<rparr> 0"
  using assms(1)
proof (cases rule: Accept_E)
  case (decided role digest a0 s' host)
  obtain h0 s0 a1 where adm: "admit h0 s0 f digest role = (a1, s', host)"
  proof (cases "ss_BootID (source_of st f) = f_BootID f \<and>
      \<not> ss_LastSequence (source_of st f) < f_SourceSequence f")
    case True
    then have "ac_Outcome a0 \<noteq> OutcomeAccepted"
      using decided(5) replay_result(1)
      by (fastforce simp: decide_def go_consts split: prod.splits)
    then show thesis using decided(6) assms(2) by (simp add: Accepted_def)
  next
    case False
    then show thesis
      using decided(5) that by (auto simp: decide_def Let_def split: prod.splits if_splits)
  qed
  have "\<exists>pre. ss_Recent s' = pre @ [\<lparr>rd_Sequence = f_SourceSequence f, rd_Digest = digest\<rparr>]"
    using last_n_keeps[of "[]" RetryWindow] admit_recent[OF adm] by (simp add: RetryWindow_def)
  then show ?thesis
    using decided decide_result(3)[OF decided(5)] admit_result(6)[OF adm]
    by (fastforce simp: remembers_def)
qed (use assms in \<open>simp add: Accepted_def go_consts\<close>)

lemma identity_remembered:
  assumes valid: "State_Validate st = None"
    and rem: "remembers st i b r k"
    and g: "f_SourceID g = i" "f_BootID g = b" "f_SourceSequence g = rd_Sequence r"
      "Fact_Validate g = None" "ClassifyConnectivityFact g auth = Inr role" "Digest cd g = Inr digest"
  shows "\<exists>a st'. Accept cd st (g, auth) = ((a, None), st') \<and>
     ac_Outcome a = (if digest = rd_Digest r then OutcomeDuplicate else OutcomeConflict) \<and>
     st_HostSequence st' = st_HostSequence st \<and> remembers st' i b r k"
proof -
  obtain s pre post where s: "map_of (st_Sources st) i = Some s" "ss_BootID s = b"
    "ss_Recent s = pre @ r # post" "rd_Sequence r \<le> ss_LastSequence s" "length post \<le> k"
    using rem by (auto simp: remembers_def)
  have "sorted_wrt (<) (map rd_Sequence (ss_Recent s))"
    using map_of_source_ok[OF valid s(1)] by (simp add: SourceState_Validate_None_iff)
  then have found: "find (\<lambda>e. rd_Sequence e = f_SourceSequence g) (ss_Recent s) = Some r"
    using find_in_sorted s(3) g(3) by metis
  obtain a s' where rep: "replay s g digest role = (a, s')" by force
  then have out: "ac_Outcome a = (if digest = rd_Digest r then OutcomeDuplicate else OutcomeConflict)"
    using found by (auto simp: replay_def Let_def split: if_splits)
  have "source_of st g = s" using s(1) g(1) by (simp add: source_of_def)
  then have "decide (st_HostSequence st) (source_of st g) g digest role = (a, s', st_HostSequence st)"
    using rep s(2,4) g(2,3) by (simp add: decide_def leD)
  note acc = Accept_decided[OF g(4,5,6) this]
  show ?thesis
    using out s replay_result(4-6)[OF rep] by (auto simp: acc g(1) remembers_def)
qed

section \<open>The debt of restatements\<close>

lemma admit_gap_pending:
  "set (ss_PendingBaseline s) \<subseteq> set (ss_PendingBaseline (fst (admit_gap s f a)))"
  by (auto simp: admit_gap_def Let_def)

lemma admit_baseline_pending:
  "set (ss_PendingBaseline s) - (if f_Baseline f then {f_Component f} else {})
     \<subseteq> set (ss_PendingBaseline (fst (admit_baseline s f a)))"
  by (auto simp: admit_baseline_def settleBaseline_def Let_def filter_empty_conv)

lemma admit_pending:
  assumes "admit host s f digest role = (a, s', h)"
  shows "set (ss_PendingBaseline s) - (if f_Baseline f then {f_Component f} else {})
     \<subseteq> set (ss_PendingBaseline s')"
proof -
  obtain a0 where "s' = admit_remember
      (fst (admit_baseline (fst (admit_gap s f a0)) f (snd (admit_gap s f a0)))) f digest"
    using admit_parts[OF assms] by blast
  then show ?thesis
    using admit_gap_pending[of s f a0]
      admit_baseline_pending[of "fst (admit_gap s f a0)" f "snd (admit_gap s f a0)"]
    by auto
qed

text \<open>A fact that pays source \<open>i\<close>'s debt for component \<open>c\<close>.\<close>

definition restates :: "source_id \<Rightarrow> component \<Rightarrow> arrival \<times> (Acceptance \<times> accept_error option) \<Rightarrow> bool" where
  "restates i c = (\<lambda>((f, _), (a, _)).
     f_SourceID f = i \<and> f_Component f = c \<and> f_Baseline f \<and> Accepted a)"

lemma debt_step:
  assumes acc: "Accept cd st (f, auth) = ((a, e), st')" and valid: "State_Validate st = None"
    and src: "map_of (st_Sources st) i = Some s" and owed: "c \<in> set (ss_PendingBaseline s)"
  shows "\<exists>s'. map_of (st_Sources st') i = Some s' \<and>
    (c \<in> set (ss_PendingBaseline s') \<or> restates i c ((f, auth), (a, e)))"
proof (cases "f_SourceID f = i")
  case False
  then show ?thesis using Accept_other_source[OF acc] src owed by auto
next
  case True
  have decl: "c \<in> set (ConnectivitySourceComponents i)"
    using map_of_source_ok[OF valid src] owed by (auto simp: SourceState_Validate_None_iff)
  from acc show ?thesis
  proof (cases rule: Accept_E)
    case rejected
    then show ?thesis using src owed by auto
  next
    case (decided role digest a0 s' host)
    have source: "source_of st f = s" using src True by (simp add: source_of_def)
    have "c \<in> set (ss_PendingBaseline s') \<or> (f_Baseline f \<and> f_Component f = c \<and> ac_Outcome a0 = OutcomeAccepted)"
    proof (cases "ss_BootID s = f_BootID f \<and> \<not> ss_LastSequence s < f_SourceSequence f")
      case old: True
      then show ?thesis
        using decided(5) source owed replay_result(10)
        by (auto simp: decide_def Let_def split: prod.splits; blast)
    next
      case False
      then obtain s0 a1 where adm: "admit (st_HostSequence st) s0 f digest role = (a1, s', host)"
        and "c \<in> set (ss_PendingBaseline s0)" and "ac_Outcome a0 = ac_Outcome a1"
        using decided(5) source owed decl True
        by (auto simp: decide_def Let_def split: prod.splits if_splits)
      then show ?thesis
        using admit_pending[OF adm] admit_result(1)[OF adm] by (auto split: if_splits)
    qed
    then show ?thesis using decided True by (auto simp: restates_def Accepted_def)
  qed
qed

lemma debt_kept:
  assumes "run_steps (Accept cd) st xs = (outs, st')" "State_Validate st = None"
    and "map_of (st_Sources st) i = Some s" "c \<in> set (ss_PendingBaseline s)"
    and "\<forall>x\<in>set (zip xs outs). \<not> restates i c x"
  shows "\<exists>s'. map_of (st_Sources st') i = Some s' \<and> c \<in> set (ss_PendingBaseline s')"
  using assms
proof (induction xs arbitrary: st outs s)
  case (Cons x xs)
  obtain f auth where x: "x = (f, auth)" by force
  obtain a e st1 outs1 where acc: "Accept cd st (f, auth) = ((a, e), st1)"
    and rest: "run_steps (Accept cd) st1 xs = (outs1, st')" and outs: "outs = (a, e) # outs1"
    using Cons.prems(1) x by (auto simp: Let_def split: prod.splits)
  obtain s1 where "map_of (st_Sources st1) i = Some s1" "c \<in> set (ss_PendingBaseline s1)"
    using debt_step[OF acc Cons.prems(2-4)] Cons.prems(5) x outs by auto
  moreover have "State_Validate st1 = None"
    using Accept_keeps_valid[OF Cons.prems(2), of cd "(f, auth)"] acc by simp
  ultimately show ?case using Cons.IH[OF rest] Cons.prems(5) outs by simp
qed auto

section \<open>Visibility of gaps\<close>

text \<open>
  The ledger of one source, computed from what the arrivals and their acceptances say alone:
  the boot, the sequences that were accepted in it, and the newest sequence at which the
  source had everything restated.
\<close>

record Ledger =
  lg_boot :: string
  lg_settled :: u64
  lg_arrived :: "u64 set"

definition ledger_step ::
  "source_id \<Rightarrow> arrival \<times> (Acceptance \<times> accept_error option) \<Rightarrow> Ledger option \<Rightarrow> Ledger option" where
  "ledger_step i = (\<lambda>((f, _), (a, _)) l.
     if f_SourceID f \<noteq> i \<or> \<not> Accepted a then l
     else (case l of
         Some l \<Rightarrow>
           if lg_boot l = f_BootID f
           then Some (l\<lparr>lg_arrived := insert (f_SourceSequence f) (lg_arrived l),
             lg_settled := (if ac_Reason a = AReasonBaselineAccepted then f_SourceSequence f else lg_settled l)\<rparr>)
           else Some \<lparr>lg_boot = f_BootID f, lg_settled = f_SourceSequence f, lg_arrived = {f_SourceSequence f}\<rparr>
       | None \<Rightarrow> Some \<lparr>lg_boot = f_BootID f, lg_settled = f_SourceSequence f, lg_arrived = {f_SourceSequence f}\<rparr>))"

definition visible :: "SourceState \<Rightarrow> Ledger \<Rightarrow> bool" where
  "visible s l \<longleftrightarrow> lg_boot l = ss_BootID s \<and> ss_LastSequence s > 0 \<and>
     (\<forall>n. lg_settled l < n \<and> n \<le> ss_LastSequence s \<and> n \<notin> lg_arrived l \<longrightarrow>
        inGap (ss_Gaps s) n \<or> ss_GapOverflow s)"

definition ledger_ok :: "source_id \<Rightarrow> State \<Rightarrow> Ledger option \<Rightarrow> bool" where
  "ledger_ok i st l \<longleftrightarrow> (case map_of (st_Sources st) i of
     None \<Rightarrow> l = None | Some s \<Rightarrow> (\<exists>l'. l = Some l' \<and> visible s l'))"

lemma admit_gap_visible:
  assumes "ss_LastSequence s > 0" "ss_LastSequence s < n" "n < f_SourceSequence f"
  shows "inGap (ss_Gaps (fst (admit_gap s f a))) n \<or> ss_GapOverflow (fst (admit_gap s f a))"
proof -
  let ?g = "\<lparr>gap_From = ss_LastSequence s + 1, gap_To = f_SourceSequence f - 1\<rparr>"
  have le: "ss_LastSequence s + 1 \<le> n" "n \<le> f_SourceSequence f - 1"
    using assms inc_le word_pred_ge[of n "f_SourceSequence f"] by blast+
  then have "f_SourceSequence f > ss_LastSequence s + 1" using assms(3) by simp
  then have "fst (admit_gap s f a) = recordGap s ?g (f_SourceID f)"
    using assms(1) by (simp add: admit_gap_def Let_def)
  then show ?thesis
    using le recordGap_gaps(3)[of s ?g "f_SourceID f"] by (auto simp: inGap_def list_ex_iff)
qed

lemma admit_gap_keeps:
  assumes "inGap (ss_Gaps s) n \<or> ss_GapOverflow s"
  shows "inGap (ss_Gaps (fst (admit_gap s f a))) n \<or> ss_GapOverflow (fst (admit_gap s f a))"
  using assms recordGap_gaps(3)[of s _ "f_SourceID f"]
  by (fastforce simp: admit_gap_def Let_def inGap_def list_ex_iff recordGap_def owesBaseline_def)

lemma admit_visible:
  assumes adm: "admit host s f digest role = (a, s', h)" and vis: "visible s l"
    and new: "ss_LastSequence s < f_SourceSequence f"
  shows "visible s' (l\<lparr>lg_arrived := insert (f_SourceSequence f) (lg_arrived l),
     lg_settled := (if ac_Reason a = AReasonBaselineAccepted then f_SourceSequence f else lg_settled l)\<rparr>)"
proof -
  obtain a0 where s': "s' = admit_remember (fst (admit_baseline (fst (admit_gap s f a0)) f (snd (admit_gap s f a0)))) f digest"
    and a: "ac_Reason a = ac_Reason (snd (admit_baseline (fst (admit_gap s f a0)) f (snd (admit_gap s f a0))))"
    using admit_parts[OF adm] by auto
  let ?s = "fst (admit_gap s f a0)"
  have gap: "inGap (ss_Gaps ?s) n \<or> ss_GapOverflow ?s"
    if "lg_settled l < n" "n \<le> f_SourceSequence f" "n \<notin> insert (f_SourceSequence f) (lg_arrived l)" for n
  proof (cases "n \<le> ss_LastSequence s")
    case True
    then show ?thesis using that vis admit_gap_keeps by (auto simp: visible_def)
  next
    case False
    then show ?thesis using that vis admit_gap_visible[of s n f a0] by (auto simp: visible_def)
  qed
  show ?thesis
  proof (cases "ac_Reason a = AReasonBaselineAccepted")
    case True
    then show ?thesis
      using vis new admit_result(5,6)[OF adm] by (auto simp: visible_def)
  next
    case False
    then have "ss_Gaps s' = ss_Gaps ?s" "ss_GapOverflow s' = ss_GapOverflow ?s"
      using s' a by (auto simp: admit_baseline_def admit_remember_def settleBaseline_def Let_def split: if_splits)
    then show ?thesis
      using False vis new gap admit_result(5,6)[OF adm] by (auto simp: visible_def)
  qed
qed

text \<open>One arrival keeps the ledger and the acceptor's state in step.\<close>

lemma ledger_ok_step:
  assumes acc: "Accept cd st (f, auth) = ((a, e), st')" and ok: "ledger_ok i st l"
  shows "ledger_ok i st' (ledger_step i ((f, auth), (a, e)) l)"
proof (cases "f_SourceID f = i")
  case False
  then show ?thesis using ok Accept_other_source[OF acc] by (auto simp: ledger_ok_def ledger_step_def)
next
  case True
  from acc show ?thesis
  proof (cases rule: Accept_E)
    case rejected
    then show ?thesis using ok by (auto simp: ledger_step_def Accepted_def go_consts)
  next
    case (decided role digest a0 s' host)
    have src: "map_of (st_Sources st') i = Some s'" using decided True by simp
    have pos: "f_SourceSequence f > 0"
      using Fact_Validate_ok(3)[OF decided(2)] by (simp add: word_gt_0)
    let ?s = "source_of st f"
    consider (fresh) "map_of (st_Sources st) i = None \<or> ss_BootID ?s \<noteq> f_BootID f"
      | (same) s where "map_of (st_Sources st) i = Some s" "ss_BootID s = f_BootID f"
      using True by (cases "map_of (st_Sources st) i") (auto simp: source_of_def)
    then show ?thesis
    proof cases
      case fresh
      then obtain s0 a1 where adm: "admit (st_HostSequence st) s0 f digest role = (a1, s', host)"
        and "ss_BootID s0 = f_BootID f" "ac_Outcome a0 = OutcomeAccepted"
        using decided(5) pos True admit_result(1)
        by (auto simp: decide_def source_of_def SourceState_boot_def Let_def
            split: prod.splits if_splits option.splits; blast)
      then have vis: "visible s' \<lparr>lg_boot = f_BootID f, lg_settled = f_SourceSequence f, lg_arrived = {f_SourceSequence f}\<rparr>"
        using admit_result(5,6)[OF adm] pos by (auto simp: visible_def)
      moreover have "lg_boot l' \<noteq> f_BootID f" if "l = Some l'" for l'
        using that fresh ok True by (auto simp: ledger_ok_def visible_def source_of_def split: option.splits)
      ultimately show ?thesis
        using src True decided \<open>ac_Outcome a0 = OutcomeAccepted\<close>
        by (auto simp: ledger_ok_def ledger_step_def Accepted_def split: option.splits)
    next
      case (same s)
      then obtain l' where l: "l = Some l'" and vis: "visible s l'"
        using ok by (auto simp: ledger_ok_def)
      have "map_of (st_Sources st) (f_SourceID f) = Some s" using same True by simp
      with acc show ?thesis using same(2)
      proof (cases rule: Accept_same_boot)
        case new
        then show ?thesis
          using admit_visible[OF _ vis] l vis same(2) True
          by (fastforce simp: ledger_ok_def ledger_step_def visible_def)
      next
        case old
        then show ?thesis
          using replay_result(4,5,7,8) l vis True
          by (fastforce simp: ledger_ok_def ledger_step_def visible_def)
      qed (use ok in \<open>auto simp: ledger_step_def\<close>)
    qed
  qed
qed

lemma ledger_ok_run:
  assumes "run_steps (Accept cd) st xs = (outs, st')" "ledger_ok i st l"
  shows "ledger_ok i st' (fold (ledger_step i) (zip xs outs) l)"
  using assms
proof (induction xs arbitrary: st outs l)
  case (Cons x xs)
  obtain f auth where x: "x = (f, auth)" by force
  obtain a e st1 outs1 where acc: "Accept cd st (f, auth) = ((a, e), st1)"
    and rest: "run_steps (Accept cd) st1 xs = (outs1, st')" and outs: "outs = (a, e) # outs1"
    using Cons.prems(1) x by (auto simp: Let_def split: prod.splits)
  show ?case using Cons.IH[OF rest ledger_ok_step[OF acc Cons.prems(2)]] x outs by simp
qed auto

end
