(* ===== verification/Pipeline.thy ===== *)
theory Pipeline
  imports Reduction Streams
begin

text \<open>
  The acceptor and the reducer together: what the acceptor decides about a run of arrivals is,
  event by event, what the reducer folds. The state of a source in the acceptor is refined by
  its watermark in the snapshot, the two watermarks of the snapshot are the acceptor's two
  positions, and a batch the acceptor produced is never refused for its order or its content.
\<close>

section \<open>Owed components are listed once\<close>

definition pending_once :: "State \<Rightarrow> bool" where
  "pending_once st \<longleftrightarrow> (\<forall>(i, s)\<in>set (st_Sources st). distinct (ss_PendingBaseline s))"

lemma fold_missing_distinct:
  "distinct ps \<Longrightarrow>
   distinct (fold (\<lambda>c ps. if \<not> containsComponent ps c then ps @ [c] else ps) cs ps)"
  by (induction cs arbitrary: ps) (auto simp: containsComponent_def)

lemma owesBaseline_distinct:
  "distinct (ss_PendingBaseline s) \<Longrightarrow> distinct (ss_PendingBaseline (owesBaseline s i))"
  by (simp add: owesBaseline_def fold_missing_distinct)

lemma admit_distinct:
  assumes "admit host s f digest role = (a, s', h)" "distinct (ss_PendingBaseline s)"
  shows "distinct (ss_PendingBaseline s')"
proof -
  obtain a0 where s': "s' = admit_remember
      (fst (admit_baseline (fst (admit_gap s f a0)) f (snd (admit_gap s f a0)))) f digest"
    using admit_parts[OF assms(1)] by blast
  have "distinct (ss_PendingBaseline (fst (admit_gap s f a0)))"
    using assms(2) by (auto simp: admit_gap_def recordGap_def Let_def intro!: owesBaseline_distinct)
  then have "distinct (ss_PendingBaseline (fst (admit_baseline (fst (admit_gap s f a0)) f (snd (admit_gap s f a0)))))"
    by (auto simp: admit_baseline_def settleBaseline_def Let_def)
  then show ?thesis by (simp add: s' admit_remember_def Let_def)
qed

lemma replay_distinct:
  assumes "replay s f digest role = (a, s')" "distinct (ss_PendingBaseline s)"
  shows "distinct (ss_PendingBaseline s')"
  using assms by (auto simp: replay_def Let_def intro!: owesBaseline_distinct split: option.splits if_splits)

lemma decide_distinct:
  assumes "decide host s f digest role = (a, s', h)" "distinct (ss_PendingBaseline s)"
  shows "distinct (ss_PendingBaseline s')"
proof (cases "ss_BootID s = f_BootID f")
  case False
  then obtain a1 where adm: "admit host ((SourceState_boot (f_BootID f))
      \<lparr>ss_PendingBaseline := ConnectivitySourceComponents (f_SourceID f)\<rparr>) f digest role = (a1, s', h)"
    using assms(1) by (auto simp: decide_def Let_def split: prod.splits)
  show ?thesis by (rule admit_distinct[OF adm]) (simp add: owned.speaks_distinct)
next
  case True
  then show ?thesis
    using assms admit_distinct replay_distinct
    by (auto simp: decide_def Let_def split: prod.splits if_splits)
qed

definition acceptor_inv :: "State \<Rightarrow> bool" where
  "acceptor_inv st \<longleftrightarrow> State_Validate st = None \<and> pending_once st"

lemma Accept_keeps_inv:
  assumes "acceptor_inv st"
  shows "acceptor_inv (snd (Accept cd st fa))"
proof -
  obtain f auth a e st' where fa: "fa = (f, auth)" and acc: "Accept cd st (f, auth) = ((a, e), st')"
    by (metis surj_pair)
  from acc have "pending_once st'"
  proof (cases rule: Accept_E)
    case rejected
    then show ?thesis using assms by (simp add: acceptor_inv_def)
  next
    case (decided role digest a0 s' host)
    have "distinct (ss_PendingBaseline (source_of st f))"
      using assms by (auto simp: acceptor_inv_def pending_once_def source_of_def SourceState_boot_def
          dest: map_of_SomeD split: option.splits)
    then have "distinct (ss_PendingBaseline s')" by (rule decide_distinct[OF decided(5)])
    then show ?thesis
      using assms set_alist_update_subset[of "f_SourceID f" s' "st_Sources st"]
      by (auto simp: decided(7) acceptor_inv_def pending_once_def)
  qed
  then show ?thesis using Accept_keeps_valid[of st cd fa] assms fa acc by (simp add: acceptor_inv_def)
qed

interpretation acceptor_sound: invariant_step "Accept cd" acceptor_inv for cd
  by unfold_locales (rule Accept_keeps_inv)

section \<open>The acceptor drives the reducer\<close>

text \<open>The events a run of the acceptor hands to the reducer: every arrival that was not rejected.\<close>

definition events_of :: "(arrival \<times> (Acceptance \<times> accept_error option)) list \<Rightarrow> Event list" where
  "events_of log = List.map_filter (\<lambda>((f, _), (a, e)).
     if e = None then Some \<lparr>ev_Acceptance = a, ev_Fact = f\<rparr> else None) log"

lemma events_of_simps [simp]:
  "events_of [] = []"
  "events_of (((f, auth), (a, e)) # log) =
     (if e = None then \<lparr>ev_Acceptance = a, ev_Fact = f\<rparr> # events_of log else events_of log)"
  by (simp_all add: events_of_def List.map_filter_def)

text \<open>
  A watermark and the state of a source in the acceptor say the same when they have the same
  normal form: gaps by their start, owed components in order. (A source in a new boot owes its
  components in the compiled order, the snapshot lists them sorted.)
\<close>

definition normal_integrity :: "SourceIntegrity \<Rightarrow> SourceIntegrity" where
  "normal_integrity si = si\<lparr>si_Gaps := sort_slice gap_From (si_Gaps si),
     si_PendingBaseline := sort_slice (\<lambda>c. c) (si_PendingBaseline si)\<rparr>"

definition watermark_integrity :: "SourceWatermark \<Rightarrow> SourceIntegrity" where
  "watermark_integrity w = \<lparr>si_BootID = wm_BootID w, si_LastSequence = wm_LastSequence w,
     si_Gaps = wm_Gaps w, si_GapOverflow = wm_GapOverflow w,
     si_PendingBaseline = wm_PendingBaseline w, si_Conflicts = wm_Conflicts w, si_Recent = wm_Recent w\<rparr>"

definition tracks :: "State \<Rightarrow> source_table \<Rightarrow> bool" where
  "tracks st t \<longleftrightarrow> (\<forall>i. map_option (normal_integrity \<circ> integrityOf) (map_of (st_Sources st) i) =
     map_option (normal_integrity \<circ> watermark_integrity) (map_of t i))"

definition in_sync :: "State \<Rightarrow> Fold \<Rightarrow> bool" where
  "in_sync st s \<longleftrightarrow> fo_folded s = st_FoldPosition st \<and> fo_consumed s = st_HostSequence st \<and>
     tracks st (fo_sources s)"

lemma watermark_note_source:
  "map_of (note_source t e) i = (if i = f_SourceID (ev_Fact e)
     then Some (adoptIntegrity ((watermarkFor t e)\<lparr>wm_Role := ac_Role (ev_Acceptance e)\<rparr>) e) else map_of t i)"
  by (simp add: note_source_def)

lemma watermark_adoptIntegrity [simp]:
  "watermark_integrity (adoptIntegrity w e) = ac_Source (ev_Acceptance e)"
  by (simp add: watermark_integrity_def adoptIntegrity_def Let_def)

lemma in_sync_step:
  assumes acc: "Accept cd st (f, auth) = ((a, None), st')" and sync: "in_sync st s"
    and comps: "components_ok (fo_components s)"
  shows "\<exists>s'. reduce_event s \<lparr>ev_Acceptance = a, ev_Fact = f\<rparr> = Inr s' \<and> in_sync st' s'"
  using acc
proof (cases rule: Accept_E)
  case (decided role digest a0 s' host)
  let ?e = "\<lparr>ev_Acceptance = a, ev_Fact = f\<rparr>"
  have pos: "ac_FoldPosition a = fo_folded s + 1" "st_FoldPosition st' = fo_folded s + 1"
    using decided sync by (simp_all add: in_sync_def)
  have src: "ac_Source a = integrityOf s'" using decided decide_result(2) by simp
  have noted: "tracks st' (note_source (fo_sources s) ?e)"
    using sync decided src by (simp add: tracks_def in_sync_def watermark_note_source)
  from decide_result(1)[OF decided(5)] consider
      (new) "ac_Outcome a = OutcomeAccepted" "ac_HostSequence a = fo_consumed s + 1" "st_HostSequence st' = fo_consumed s + 1"
    | (conflict) "ac_Outcome a = OutcomeConflict" "st_HostSequence st' = fo_consumed s"
    | (idle) "ac_Outcome a \<in> {OutcomeDuplicate, OutcomeStale}" "st_HostSequence st' = fo_consumed s"
    using decided sync by (auto simp: in_sync_def)
  then show ?thesis
  proof cases
    case new
    have "f_Component f \<in> set Components"
      using Fact_Validate_ok(1)[OF decided(2)] by (simp add: Component_Valid_iff)
    then obtain r where "map_of (fo_components s) (f_Component f) = Some r"
      using comps by (auto simp: components_ok_def)
    then show ?thesis
      using new pos noted by (simp add: reduce_event_def applyAccepted_def Let_def in_sync_def)
  next
    case conflict
    then show ?thesis
      using pos noted by (simp add: reduce_event_def in_sync_def go_consts)
  next
    case idle
    have "ac_Outcome a0 \<noteq> OutcomeAccepted" using idle decided(6) by (auto simp: go_consts)
    then have known: "ss_BootID (source_of st f) = f_BootID f"
      "\<not> ss_LastSequence (source_of st f) < f_SourceSequence f"
      using decided(5) admit_result(1) by (auto simp: decide_def Let_def split: prod.splits if_splits)
    then have rep: "replay (source_of st f) f digest role = (a0, s')"
      using decided(5) by (auto simp: decide_def Let_def split: prod.splits)
    have same: "s' = source_of st f"
      using replay_result(11)[OF rep] idle decided(6) by (auto simp: go_consts)
    have "map_of (st_Sources st) (f_SourceID f) \<noteq> None"
      using known(2) Fact_Validate_ok(3)[OF decided(2)]
      by (cases "map_of (st_Sources st) (f_SourceID f)") (auto simp: source_of_def SourceState_boot_def word_gt_0)
    then have "map_of (st_Sources st') i = map_of (st_Sources st) i" for i
      using same decided(7) by (auto simp: source_of_def)
    then have "tracks st' (fo_sources s)" using sync by (simp add: tracks_def in_sync_def)
    then show ?thesis
      using idle pos sync by (auto simp: reduce_event_def in_sync_def go_consts)
  qed
qed simp

lemma in_sync_run:
  assumes "run_steps (Accept cd) st xs = (outs, st')" "in_sync st s" "fold_ok s"
  shows "\<exists>s'. reduce_events s (events_of (zip xs outs)) = Inr s' \<and> in_sync st' s'"
  using assms
proof (induction xs arbitrary: st outs s)
  case (Cons x xs)
  obtain f auth where x: "x = (f, auth)" by force
  obtain a e st1 outs1 where acc: "Accept cd st (f, auth) = ((a, e), st1)"
    and rest: "run_steps (Accept cd) st1 xs = (outs1, st')" and outs: "outs = (a, e) # outs1"
    using Cons.prems(1) x by (auto simp: Let_def split: prod.splits)
  show ?case
  proof (cases e)
    case None
    have "components_ok (fo_components s)" using Cons.prems(3) by (simp add: fold_ok_def)
    from in_sync_step[OF acc[unfolded None] Cons.prems(2) this] obtain s1 where
      s1: "reduce_event s \<lparr>ev_Acceptance = a, ev_Fact = f\<rparr> = Inr s1" "in_sync st1 s1" by blast
    show ?thesis
      using Cons.IH[OF rest s1(2) reduce_event_ok[OF s1(1) Cons.prems(3)]] s1(1) x outs None by simp
  next
    case (Some err)
    from acc have "st1 = st" using Some by (cases rule: Accept_E) auto
    then show ?thesis using Cons.IH[of st1 outs1 s] rest Cons.prems(2,3) x outs Some by simp
  qed
qed simp

section \<open>A snapshot that carries the acceptor's state\<close>

definition keyed_sources :: "SourceWatermark list \<Rightarrow> source_table" where
  "keyed_sources ws = map (\<lambda>w. (wm_Source w, w)) ws"

definition represents :: "State \<Rightarrow> Snapshot \<Rightarrow> bool" where
  "represents st p \<longleftrightarrow> sn_ConsumedFoldPosition p = st_FoldPosition st \<and>
     sn_ConsumedHostSequence p = st_HostSequence st \<and>
     distinct (map wm_Source (sn_Sources p)) \<and> tracks st (keyed_sources (sn_Sources p))"

lemma map_of_fold_update:
  assumes "distinct (map k ws)"
  shows "map_of (fold (\<lambda>w. AList.update (k w) w) ws t) i =
    (case map_of (map (\<lambda>w. (k w, w)) ws) i of None \<Rightarrow> map_of t i | Some w \<Rightarrow> Some w)"
  using assms
proof (induction ws arbitrary: t)
  case (Cons w ws)
  have "map_of (map (\<lambda>w. (k w, w)) ws) (k w) = None"
    using Cons.prems by (auto simp: map_of_eq_None_iff image_iff)
  with Cons show ?case by (auto split: option.splits)
qed simp

lemma map_of_newSourceTable:
  assumes "distinct (map wm_Source (sn_Sources p))"
  shows "map_of (newSourceTable (Some p)) i = map_of (keyed_sources (sn_Sources p)) i"
  using map_of_fold_update[OF assms, of "[]" i]
  by (simp add: newSourceTable_def keyed_sources_def split: option.splits)

definition normal_watermark :: "SourceWatermark \<Rightarrow> SourceWatermark" where
  "normal_watermark w = w\<lparr>wm_Gaps := sort_slice gap_From (wm_Gaps w),
     wm_PendingBaseline := sort_slice (\<lambda>c. c) (wm_PendingBaseline w)\<rparr>"

lemma sort_slice_idem [simp]: "sort_slice k (sort_slice k xs) = sort_slice k xs"
  by (simp add: sort_slice_def sorted_sort_id sort_key_id_if_sorted)

lemma normal_integrity_watermark [simp]:
  "normal_integrity (watermark_integrity (normal_watermark w)) = normal_integrity (watermark_integrity w)"
  by (simp add: normal_integrity_def watermark_integrity_def normal_watermark_def)

lemma renderSources_keyed:
  assumes "sources_ok t"
  shows "distinct (map wm_Source (renderSources t))"
    "map_of (keyed_sources (renderSources t)) i = map_option normal_watermark (map_of t i)"
proof -
  have eq: "renderSources t = sort_slice wm_Source (map (normal_watermark \<circ> snd) t)"
    by (auto simp: renderSources_def normal_watermark_def intro!: arg_cong[where f = "sort_slice wm_Source"])
  have key: "wm_Source (normal_watermark (snd x)) = fst x" if "x \<in> set t" for x
    using assms that by (auto simp: sources_ok_def normal_watermark_def)
  have "map wm_Source (map (normal_watermark \<circ> snd) t) = map fst t"
    using key by (simp add: comp_def)
  moreover have "mset (map wm_Source (renderSources t)) = mset (map wm_Source (map (normal_watermark \<circ> snd) t))"
    unfolding eq mset_map by simp
  ultimately show dist: "distinct (map wm_Source (renderSources t))"
    using assms by (metis mset_eq_imp_distinct_iff sources_ok_def)
  let ?n = "map (\<lambda>(k, w). (k, normal_watermark w)) t"
  have "set (keyed_sources (renderSources t)) = set ?n"
    using key by (force simp: keyed_sources_def eq image_iff)
  moreover have "distinct (map fst (keyed_sources (renderSources t)))" "distinct (map fst ?n)"
    using dist assms by (simp_all add: keyed_sources_def sources_ok_def comp_def case_prod_beta)
  ultimately have "map_of (keyed_sources (renderSources t)) = map_of ?n"
    by (simp add: map_of_inject_set)
  then show "map_of (keyed_sources (renderSources t)) i = map_option normal_watermark (map_of t i)"
    by (simp add: map_of_map)
qed

lemma in_sync_represents:
  assumes "in_sync st s" "sources_ok (fo_sources s)"
  shows "represents st ((assemble i s cs)\<lparr>sn_Generation := g\<rparr>)"
  using assms renderSources_keyed[OF assms(2)]
  by (simp add: represents_def in_sync_def tracks_def option.map_comp comp_def)

lemma tracked_bounded:
  assumes inv: "acceptor_inv st" and tr: "tracks st t" and ok: "sources_ok t"
  shows "\<forall>(k, w)\<in>set t. watermark_bounded w"
proof clarify
  fix k w assume kw: "(k, w) \<in> set t"
  then have "map_of t k = Some w" and src: "wm_Source w = k" using ok by (auto simp: sources_ok_def)
  then obtain s where s: "map_of (st_Sources st) k = Some s"
    and same: "normal_integrity (integrityOf s) = normal_integrity (watermark_integrity w)"
    using tr unfolding tracks_def by (metis (mono_tags, lifting) comp_apply map_option_eq_Some option.simps(9))
  have mem: "(k, s) \<in> set (st_Sources st)" using s by (rule map_of_SomeD)
  have valid: "SourceState_Validate k s = None" and dist: "distinct (ss_PendingBaseline s)"
    using inv mem by (auto simp: acceptor_inv_def State_Validate_None_iff pending_once_def)
  have "sort_slice gap_From (wm_Gaps w) = sort_slice gap_From (ss_Gaps s)"
    "sort_slice (\<lambda>c. c) (wm_PendingBaseline w) = sort_slice (\<lambda>c. c) (ss_PendingBaseline s)"
    using same by (simp_all add: normal_integrity_def watermark_integrity_def integrityOf_def)
  from this[THEN arg_cong, of length] have len: "length (wm_Gaps w) = length (ss_Gaps s)"
    "length (wm_PendingBaseline w) = length (ss_PendingBaseline s)" by simp_all
  have "length (ss_PendingBaseline s) = card (set (ss_PendingBaseline s))" using dist by (simp add: distinct_card)
  also have "\<dots> \<le> card (set (ConnectivitySourceComponents k))"
    using valid by (intro card_mono) (auto simp: SourceState_Validate_None_iff)
  also have "\<dots> \<le> length (ConnectivitySourceComponents k)" by (rule card_length)
  finally show "watermark_bounded w"
    using valid len src
    by (auto simp: watermark_bounded_def Watermark_AwaitingBaseline_def SourceState_Validate_None_iff)
qed

section \<open>Nothing but an encoding can fail\<close>

definition short :: "string \<Rightarrow> bool" where
  "short s \<longleftrightarrow> length s \<le> 64"

definition short_entry :: "ComponentDiff \<Rightarrow> bool" where
  "short_entry e \<longleftrightarrow> di_Component e \<in> set Components \<and> (di_Domain e = DomainRoot \<or> di_Domain e = DomainUser) \<and>
     short (di_Classification e) \<and> short (di_Reason e)"

text \<open>
  The trees one reduction encodes: the projections of the prior and of the new snapshot, a diff
  of the eight components under the input's policy, and proposals of bounded fields.
\<close>

definition reduction_trees :: "Input \<Rightarrow> json set" where
  "reduction_trees i =
     {json_semantic (project p) | p. in_Prior i = Some p} \<union>
     {json_semantic (project (assemble i s cs)) | s cs.
        reduce_events (fold_start i) (in_Events i) = Inr s \<and>
        renderComponents (fo_components s) (fo_sources s) i = Inr cs} \<union>
     {json_Diff d | d. df_Schema d = DiffSchema \<and> df_Policy d = in_Policy i \<and>
        length (df_Components d) = length Components \<and> (\<forall>e\<in>set (df_Components d). short_entry e)} \<union>
     {json_Proposal q | q. pr_Schema q = ProposalSchema \<and> pr_Target q \<in> set Components \<and>
        short (pr_Domain q) \<and> ProposalClass_valid (pr_Class q) \<and> short (pr_Reason q) \<and>
        short (pr_DiffDigest q) \<and> pr_Digest q = ''''}"

definition encodable :: "codec \<Rightarrow> json \<Rightarrow> bool" where
  "encodable cd t \<longleftrightarrow> (\<exists>c. MarshalCanonical cd t = Inr c)"

definition domains_ok :: "Snapshot \<Rightarrow> bool" where
  "domains_ok s \<longleftrightarrow> (\<forall>r\<in>set (sn_Components s). cr_Domain r = DomainRoot \<or> cr_Domain r = DomainUser)"

lemma encodable_digest:
  "encodable cd t \<Longrightarrow> \<exists>d c. CanonicalSHA256 cd t = Inr (d, c) \<and> d = cd_sha256 cd c"
  by (auto simp: encodable_def CanonicalSHA256_def SHA256Hex_def)

lemma classify_short: "short (fst (classify r w p s)) \<and> short (snd (classify r w p s))"
  by (simp add: classify_def pinMismatch_def Let_def below_def short_def go_consts)

lemma proposalClass_valid: "proposalClass c = Some k \<Longrightarrow> ProposalClass_valid k"
  by (auto simp: proposalClass_def ProposalClass_valid_def split: if_splits)

lemma Compare_fields [simp]:
  "df_Schema (Compare s d p) = DiffSchema" "df_Policy (Compare s d p) = sn_Policy s"
  "length (df_Components (Compare s d p)) = length (sn_Components s)"
  "df_Authorized (Compare s d p) \<longleftrightarrow> sn_Authorization s = AuthorizationAuthorized \<and> ds_Authorized d"
  by (simp_all add: Compare_def Let_def)

lemma Compare_short:
  assumes "domains_ok s" "map cr_Component (sn_Components s) = Components" "e \<in> set (df_Components (Compare s d p))"
  shows "short_entry e"
proof -
  obtain r c why where r: "r \<in> set (sn_Components s)" and e: "di_Component e = cr_Component r"
    "di_Domain e = cr_Domain r" and "short (di_Classification e)" "short (di_Reason e)"
    using assms(3) classify_short
    by (auto simp: Compare_def Let_def short_def go_consts case_prod_beta split: if_splits)
  moreover have "cr_Component r \<in> set Components" using r assms(2) by (metis image_eqI set_map)
  ultimately show ?thesis using assms(1) by (auto simp: short_entry_def domains_ok_def)
qed

lemma propose_entry_total:
  assumes enc: "\<forall>t\<in>reduction_trees i. encodable cd t" and sha: "\<forall>x. length (cd_sha256 cd x) = 64"
    and "short_entry e" "ProposalClass_valid k" "length digest = 64"
    and "sn_Generation s \<noteq> 0" "pd_BundleGeneration (sn_Policy s) \<noteq> 0"
  shows "\<exists>q. propose_entry cd s digest e k = Inr q"
proof -
  let ?p = "\<lparr>pr_Schema = ProposalSchema, pr_Version = ProposalSchemaVersion,
     pr_SnapshotGeneration = sn_Generation s, pr_BundleGeneration = pd_BundleGeneration (sn_Policy s),
     pr_DomainPolicyGeneration = domainGeneration (sn_Policy s) (di_Domain e),
     pr_Domain = di_Domain e, pr_Target = di_Component e, pr_Class = k,
     pr_Reason = di_Reason e, pr_DiffDigest = digest, pr_Digest = ''''\<rparr>"
  have "short (di_Domain e)" using assms(3) by (auto simp: short_entry_def short_def go_consts)
  then have "json_Proposal ?p \<in> reduction_trees i"
    using assms(3-5) unfolding reduction_trees_def by (fastforce simp: short_entry_def short_def)
  then obtain d c where dc: "CanonicalSHA256 cd (json_Proposal ?p) = Inr (d, c)"
    using enc encodable_digest by blast
  then have "Verify cd (?p\<lparr>pr_Digest := d\<rparr>) = None"
    using assms(3-7) by (auto simp: Verify_def proposalBody_def short_entry_def Component_Valid_iff)
  then show ?thesis using dc by (simp add: propose_entry_def proposalBody_def)
qed

lemma propose_entries_total:
  assumes "\<forall>t\<in>reduction_trees i. encodable cd t" "\<forall>x. length (cd_sha256 cd x) = 64"
    and "\<forall>e\<in>set es. short_entry e" "length digest = 64"
    and "sn_Generation s \<noteq> 0" "pd_BundleGeneration (sn_Policy s) \<noteq> 0"
  shows "\<exists>qs. propose_entries cd s digest es = Inr qs"
  using assms(3)
proof (induction es)
  case (Cons e es)
  then obtain qs where "propose_entries cd s digest es = Inr qs" by auto
  then show ?case
    using propose_entry_total[OF assms(1,2) _ proposalClass_valid assms(4-6), of e] Cons.prems
    by (cases "proposalClass (di_Classification e)") fastforce+
qed simp

lemma Propose_total:
  assumes enc: "\<forall>t\<in>reduction_trees i. encodable cd t" and sha: "\<forall>x. length (cd_sha256 cd x) = 64"
    and "domains_ok s" "Snapshot_Validate s = None" "sn_Policy s = in_Policy i"
    and "ds_Authorized d \<longrightarrow> Authorized (in_Policy i)"
  shows "\<exists>qs. Propose cd s (Compare s d p) = Inr qs"
proof (cases "df_Authorized (Compare s d p)")
  case True
  have comps: "map cr_Component (sn_Components s) = Components" and gen: "sn_Generation s \<noteq> 0"
    using assms(4) by (auto simp: Snapshot_Validate_None_iff)
  note entries = Compare_short[OF assms(3) comps]
  have "length (sn_Components s) = length Components" using comps by (metis length_map)
  then have "json_Diff (Compare s d p) \<in> reduction_trees i"
    using entries assms(5) unfolding reduction_trees_def by auto
  then obtain digest c where "CanonicalSHA256 cd (json_Diff (Compare s d p)) = Inr (digest, c)"
    "digest = cd_sha256 cd c" using enc encodable_digest by blast
  moreover have "pd_BundleGeneration (sn_Policy s) \<noteq> 0"
    using True assms(5,6) by (auto simp: Authorized_def)
  ultimately show ?thesis
    using propose_entries_total[OF enc sha] entries sha gen True by (auto simp: Propose_def Diff_Digest_def)
qed (simp add: Propose_def)

section \<open>One batch of the pipeline\<close>

text \<open>
  The acceptor is at \<open>st\<close>, and the input's prior snapshot (or, before the first reduction, its
  two watermarks) says so.
\<close>

definition carries :: "State \<Rightarrow> Input \<Rightarrow> bool" where
  "carries st i \<longleftrightarrow> (case in_Prior i of
     Some p \<Rightarrow> represents st p \<and> domains_ok p \<and> Snapshot_Validate p = None \<and> sn_Generation p + 1 \<noteq> 0 \<and>
       (sn_BootID p = in_BootID i \<longrightarrow> sn_EvaluationTick p \<le> in_EvaluationTick i) \<and>
       (in_PriorConsumed i = 0 \<or> in_PriorConsumed i = st_HostSequence st) \<and>
       (in_PriorFolded i = 0 \<or> in_PriorFolded i = st_FoldPosition st)
   | None \<Rightarrow> in_PriorFolded i = st_FoldPosition st \<and> in_PriorConsumed i = st_HostSequence st \<and>
       st_Sources st = [])"

text \<open>A time context and a policy that are well formed in themselves.\<close>

definition input_ok :: "Input \<Rightarrow> bool" where
  "input_ok i \<longleftrightarrow> in_BootID i \<noteq> '''' \<and> in_EvaluationTick i > 0 \<and>
     (\<forall>w. in_Wake i = Some w \<longrightarrow> wk_Tick w > 0) \<and> entries_ok (in_PolicyComponents i)"

lemma carries_in_sync: "carries st i \<Longrightarrow> in_sync st (fold_start i)"
  by (cases "in_Prior i")
    (auto simp: carries_def in_sync_def fold_start_def represents_def tracks_def newSourceTable_def[of None]
      map_of_newSourceTable)

lemma events_of_valid:
  assumes "run_steps (Accept cd) st xs = (outs, st')" "e \<in> set (events_of (zip xs outs))"
  shows "validate_event e = None"
  using assms
proof (induction xs arbitrary: st outs)
  case (Cons x xs)
  obtain f auth where x: "x = (f, auth)" by force
  obtain a err st1 outs1 where acc: "Accept cd st (f, auth) = ((a, err), st1)"
    and rest: "run_steps (Accept cd) st1 xs = (outs1, st')" and outs: "outs = (a, err) # outs1"
    using Cons.prems(1) x by (auto simp: Let_def split: prod.splits)
  from acc have "err = None \<Longrightarrow> validate_event \<lparr>ev_Acceptance = a, ev_Fact = f\<rparr> = None"
    by (cases rule: Accept_E)
      (auto simp: validate_event_def go_consts dest!: decide_result(1))
  then show ?case using Cons.IH[OF rest] Cons.prems(2) x outs by (auto split: if_splits)
qed simp

lemma carries_prior:
  assumes "carries st i"
  shows "validate_watermarks i = None" "validate_prior i = None"
  using assms
  by (cases "in_Prior i"; auto simp: validate_watermarks_def validate_prior_def carries_def represents_def)+

lemma carries_valid_input:
  assumes "carries st i" "input_ok i" "run_steps (Accept cd) st xs = (outs, st')"
    "in_Events i = events_of (zip xs outs)"
  shows "validateInput i = None"
  using assms(2,4) carries_prior[OF assms(1)] events_of_valid[OF assms(3)]
  by (cases "in_Wake i") (auto simp: validateInput_def input_ok_def)

lemma compiled_domains: "ConnectivityAuthority c = Some d \<Longrightarrow> sd_Domain d = DomainRoot \<or> sd_Domain d = DomainUser"
proof -
  assume "ConnectivityAuthority c = Some d"
  then have "d \<in> set connectivitySources"
    using compiled_envelope(1) by (auto simp: ConnectivityAuthority_def envelope_inv_def)
  then show ?thesis by (auto simp: connectivitySources_def)
qed

lemma fold_start_domains:
  assumes "carries st i" "map_of (fo_components (fold_start i)) c = Some r" "c \<in> set Components"
  shows "cr_Domain r = DomainRoot \<or> cr_Domain r = DomainUser"
proof -
  obtain q where q: "map_of (newComponentTable (in_Prior i)) c = Some q" "cr_Domain r = cr_Domain q"
    using assms(2) by (auto simp: fold_start_def map_of_markRebaseline split: if_splits)
  have new: "cr_Domain (new_record c) = DomainRoot \<or> cr_Domain (new_record c) = DomainUser"
    using owned.authority_total[OF assms(3)] compiled_domains[of c] by (auto simp: new_record_def)
  show ?thesis
  proof (cases "in_Prior i")
    case None
    then show ?thesis using q new assms(3) by (simp add: newComponentTable_def map_of_keyed)
  next
    case (Some p)
    have comps: "map cr_Component (sn_Components p) = Components" and dom: "domains_ok p"
      using assms(1) Some by (auto simp: carries_def Snapshot_Validate_None_iff)
    have "distinct (map cr_Component (sn_Components p))" using comps by simp
    from map_of_fold_update[OF this] have
      "q = new_record c \<or> q \<in> set (sn_Components p)"
      using q(1) Some assms(3)
      by (auto simp: newComponentTable_def Let_def map_of_keyed dest: map_of_SomeD split: option.splits)
    then show ?thesis using q(2) new dom by (auto simp: domains_ok_def)
  qed
qed

lemma folded_domains:
  assumes "carries st i" "validateInput i = None" "reduce_events (fold_start i) (in_Events i) = Inr s"
    and "c \<in> set Components"
  shows "cr_Domain (the (map_of (fo_components s) c)) = DomainRoot \<or>
    cr_Domain (the (map_of (fo_components s) c)) = DomainUser"
proof -
  obtain r0 where r0: "map_of (fo_components (fold_start i)) c = Some r0"
    using fold_start_ok[OF assms(2)] assms(4) by (auto simp: fold_ok_def components_ok_def)
  from reduce_events_owner[OF assms(3) r0] fold_start_domains[OF assms(1) r0 assms(4)] show ?thesis by auto
qed

lemma effective_total:
  assumes enc: "\<forall>t\<in>reduction_trees i. encodable cd t"
    and "reduce_events (fold_start i) (in_Events i) = Inr s"
    and "renderComponents (fo_components s) (fo_sources s) i = Inr cs"
  shows "\<exists>changed. effective cd (in_Prior i) (assemble i s cs) = Inr changed"
proof (cases "in_Prior i")
  case (Some p)
  have "json_semantic (project p) \<in> reduction_trees i" "json_semantic (project (assemble i s cs)) \<in> reduction_trees i"
    using Some assms(2,3) unfolding reduction_trees_def by blast+
  then obtain d c d' c' where "CanonicalSHA256 cd (json_semantic (project p)) = Inr (d, c)"
    "CanonicalSHA256 cd (json_semantic (project (assemble i s cs))) = Inr (d', c')"
    using enc encodable_digest by meson
  then show ?thesis by (simp add: effective_def Some SemanticDigest_def)
qed (auto simp: effective_def)

lemma pipeline_batch:
  assumes inv: "acceptor_inv st" and carries: "carries st i" and ok: "input_ok i"
    and run: "run_steps (Accept cd) st xs = (outs, st')" and events: "in_Events i = events_of (zip xs outs)"
    and enc: "\<forall>t\<in>reduction_trees i. encodable cd t" and sha: "\<forall>x. length (cd_sha256 cd x) = 64"
  shows "\<exists>out. Reduce cd i = Inr out \<and> represents st' (out_Snapshot out) \<and> domains_ok (out_Snapshot out) \<and>
    Snapshot_Validate (out_Snapshot out) = None"
proof -
  have v: "validateInput i = None" by (rule carries_valid_input[OF carries ok run events])
  obtain s where s: "reduce_events (fold_start i) (in_Events i) = Inr s" and sync: "in_sync st' s"
    using in_sync_run[OF run carries_in_sync[OF carries] fold_start_ok[OF v]] events by auto
  have sok: "fold_ok s" by (rule reduce_events_ok[OF s fold_start_ok[OF v]])
  have "acceptor_inv st'" using acceptor_sound.run_inv[OF inv, of cd xs] run by simp
  then have bounded: "\<forall>(k, w)\<in>set (fo_sources s). watermark_bounded w"
    by (rule tracked_bounded) (use sync sok in \<open>simp_all add: in_sync_def fold_ok_def\<close>)
  define cs where "cs = map (\<lambda>c. render_component (the (map_of (fo_components s) c)) (fo_sources s) i) Components"
  have render: "renderComponents (fo_components s) (fo_sources s) i = Inr cs"
    using sok by (simp add: fold_ok_def renderComponents_ok cs_def)
  obtain changed where ch: "effective cd (in_Prior i) (assemble i s cs) = Inr changed"
    using effective_total[OF enc s render] by blast
  define g where "g = (if changed \<or> in_Prior i = None
     then (case in_Prior i of None \<Rightarrow> 0 | Some p \<Rightarrow> sn_Generation p) + 1
     else (case in_Prior i of None \<Rightarrow> 0 | Some p \<Rightarrow> sn_Generation p))"
  have "g \<noteq> 0" using carries by (auto simp: g_def carries_def Snapshot_Validate_None_iff split: option.splits)
  define sn where "sn = (assemble i s cs)\<lparr>sn_Generation := g\<rparr>"
  have valid: "Snapshot_Validate sn = None"
    unfolding sn_def by (rule assemble_valid[OF sok bounded \<open>g \<noteq> 0\<close> cs_def])
  have dom: "domains_ok sn"
    using folded_domains[OF carries v s] by (auto simp: domains_ok_def sn_def cs_def)
  obtain desired where des: "Desire \<lparr>ep_Descriptor = in_Policy i, ep_Components = in_PolicyComponents i\<rparr> = Inr desired"
    using ok Desire_iff[of "\<lparr>ep_Descriptor = in_Policy i, ep_Components = in_PolicyComponents i\<rparr>"]
    by (auto simp: input_ok_def)
  obtain qs where "Propose cd sn (Compare sn desired (in_Prior i)) = Inr qs"
    using Propose_total[OF enc sha dom valid, of desired "in_Prior i"] Desire_ok(1)[OF des] by (auto simp: sn_def)
  then have "conclude cd i sn (changed \<or> in_Prior i = None) = Inr \<lparr>out_Snapshot = sn, out_Desired = desired,
      out_Diff = Compare sn desired (in_Prior i), out_Proposals = qs, out_Changed = changed \<or> in_Prior i = None\<rparr>"
    by (simp add: conclude_def valid des)
  then have "Reduce cd i = Inr \<lparr>out_Snapshot = sn, out_Desired = desired,
      out_Diff = Compare sn desired (in_Prior i), out_Proposals = qs, out_Changed = changed \<or> in_Prior i = None\<rparr>"
    using v s render ch by (simp add: Reduce_def sn_def g_def Let_def)
  moreover have "represents st' sn"
    unfolding sn_def by (rule in_sync_represents[OF sync]) (use sok in \<open>simp add: fold_ok_def\<close>)
  ultimately show ?thesis using dom valid by auto
qed

end
