(* ===== verification/Acceptance_Laws.thy ===== *)
theory Acceptance_Laws
  imports Streams
begin

text \<open>
  The properties of the fact model, of the compiled ownership envelope and of the acceptor,
  with the sample arrivals their witnesses evaluate.
\<close>

section \<open>Sample arrivals\<close>

text \<open>
  A codec to evaluate with: it prints the scalars of a tree one after another, its canonical
  form is the text itself and so is the digest.
\<close>

fun sample_text :: "json \<Rightarrow> string" where
  "sample_text JNull = ''n''"
| "sample_text (JBool b) = (if b then ''t'' else ''f'')"
| "sample_text (JInt i) = (if i = 0 then ''0'' else if i = 1 then ''1'' else ''+'')"
| "sample_text (JString s) = s"
| "sample_text (JTime t) = ''z''"
| "sample_text (JArray js) = concat (map sample_text js)"
| "sample_text (JObject fs) = concat (map (\<lambda>(n, j). sample_text j) fs)"

definition sample_codec :: codec where
  "sample_codec = \<lparr>cd_marshal = (\<lambda>j. Some (sample_text j)), cd_transform = Some, cd_sha256 = (\<lambda>s. s)\<rparr>"

definition sample_fact :: "u64 \<Rightarrow> bool \<Rightarrow> Fact" where
  "sample_fact n up = \<lparr>f_Schema = FactSchema, f_Version = FactSchemaVersion,
     f_EventID = ''00000000-0000-0000-0000-000000000001'', f_Domain = DomainRoot,
     f_Component = ComponentPhysicalNetwork, f_SourceID = ''root.network'', f_BootID = ''boot-1'',
     f_SourceSequence = n, f_ObservedAt = \<lparr>time_instant = 1, time_utc = True\<rparr>,
     f_MonotonicTick = 1, f_FreshnessDeadline = 100, f_Lifecycle = LifecycleReady,
     f_Reason = ReasonNone, f_Baseline = False,
     f_Payload = Payload_empty\<lparr>pl_PhysicalNetwork :=
       Some \<lparr>pn_LinkClass = LinkWired, pn_LinkUp = up, pn_HasCarrier = up\<rparr>\<rparr>\<rparr>"

lemma sample_valid:
  "n \<noteq> 0 \<Longrightarrow> Fact_Validate (sample_fact n up) = None"
proof -
  assume "n \<noteq> 0"
  moreover have "validEventUUID ''00000000-0000-0000-0000-000000000001''"
    "validIdentifier ''root.network''" "validIdentifier ''boot-1''" by code_simp+
  ultimately show ?thesis
    by (simp add: Fact_Validate_def sample_fact_def IsZero_def Component_Valid_def Lifecycle_Valid_def
        Reason_Valid_def Payload_component_def see_member_def Payload_empty_def Payload_validate_def
        PhysicalNetwork_validate_def LinkClass_valid_def go_consts)
qed

definition sample_digest :: "u64 \<Rightarrow> bool \<Rightarrow> string" where
  "sample_digest n up = sample_text (json_Fact (sample_fact n up))"

lemma sample_digests:
  "n \<noteq> 0 \<Longrightarrow> Digest sample_codec (sample_fact n up) = Inr (sample_digest n up)"
  "sample_digest n True \<noteq> sample_digest n False"
proof -
  note printed = sample_digest_def json_Fact_def sample_fact_def go_consts
    json_Payload_def json_PhysicalNetwork_def Payload_empty_def omit_ptr_def
  have "sample_digest n up \<noteq> ''''" "length (sample_digest n up) \<le> 4096"
    by (simp_all add: printed)
  then show "n \<noteq> 0 \<Longrightarrow> Digest sample_codec (sample_fact n up) = Inr (sample_digest n up)"
    by (simp add: Digest_def Encode_def sample_valid MarshalCanonical_def Canonicalize_def
      sample_codec_def SHA256Hex_def sample_digest_def[symmetric] MaxCanonicalJSONSize_def
      MaxEncodedFactBytes_def)
  show "sample_digest n True \<noteq> sample_digest n False" by (simp add: printed)
qed

lemma sample_classified:
  "ClassifyConnectivityFact (sample_fact n up) DomainRoot = Inr RoleAuthoritative"
  "ConnectivitySourceComponents ''root.network'' = [ComponentPhysicalNetwork, ComponentDefaultPath]"
proof -
  show "ConnectivitySourceComponents ''root.network'' = [ComponentPhysicalNetwork, ComponentDefaultPath]"
    by code_simp
  have "map_of connectivityByKey (''root.network'', ''physical_network'') = Some
     \<lparr>sd_Source = ''root.network'', sd_Domain = DomainRoot,
       sd_Component = ComponentPhysicalNetwork, sd_Role = RoleAuthoritative\<rparr>" by code_simp
  then show "ClassifyConnectivityFact (sample_fact n up) DomainRoot = Inr RoleAuthoritative"
    by (simp add: ClassifyConnectivityFact_def sample_fact_def go_consts)
qed

lemma sample_keys [simp]:
  "f_SourceID (sample_fact n up) = ''root.network''" "f_BootID (sample_fact n up) = ''boot-1''"
  "f_SourceSequence (sample_fact n up) = n" "\<not> f_Baseline (sample_fact n up)"
  "f_Component (sample_fact n up) = ComponentPhysicalNetwork"
  by (simp_all add: sample_fact_def)

lemmas sample_eval = Accept_def sample_valid sample_digests sample_classified decide_def admit_def
  New_def SourceState_boot_def admit_gap_def admit_baseline_def admit_remember_def Accepted_def
  Acceptance_of_def integrityOf_def Let_def RetryWindow_def recordGap_def owesBaseline_def

definition sample_state :: State where
  "sample_state = \<lparr>st_HostSequence = 1, st_FoldPosition = 1, st_Sources = [(''root.network'',
     \<lparr>ss_BootID = ''boot-1'', ss_LastSequence = 1,
      ss_Recent = [\<lparr>rd_Sequence = 1, rd_Digest = sample_digest 1 True\<rparr>], ss_Gaps = [],
      ss_GapOverflow = False, ss_PendingBaseline = [], ss_Conflicts = 0\<rparr>)]\<rparr>"

lemma sample_first:
  "\<exists>a. Accept sample_codec New (sample_fact 1 True, DomainRoot) = ((a, None), sample_state) \<and>
     Accepted a \<and> ac_Role a = RoleAuthoritative"
  by (simp add: sample_eval sample_state_def)

definition sample_gapped :: State where
  "sample_gapped = snd (Accept sample_codec sample_state (sample_fact 4 True, DomainRoot))"

lemma sample_sorts:
  "sort_slice gap_From [\<lparr>gap_From = 2, gap_To = 3\<rparr>] = [\<lparr>gap_From = 2, gap_To = 3\<rparr>]"
  "sort_slice (\<lambda>c. c) [''physical_network'', ''default_path''] = [''default_path'', ''physical_network'']"
  by code_simp+

lemmas sample_gap_eval = sample_gapped_def sample_eval sample_state_def sample_sorts containsComponent_def
  MaxGapRanges_def ComponentDefaultPath_def ComponentPhysicalNetwork_def

lemma sample_second:
  "\<exists>b. Accept sample_codec sample_state (sample_fact 4 True, DomainRoot) = ((b, None), sample_gapped) \<and>
     Accepted b"
  by (simp add: sample_gap_eval)

lemma sample_gapped_source:
  "map_of (st_Sources sample_gapped) ''root.network'' = Some
     \<lparr>ss_BootID = ''boot-1'', ss_LastSequence = 4,
      ss_Recent = [\<lparr>rd_Sequence = 1, rd_Digest = sample_digest 1 True\<rparr>,
        \<lparr>rd_Sequence = 4, rd_Digest = sample_digest 4 True\<rparr>],
      ss_Gaps = [\<lparr>gap_From = 2, gap_To = 3\<rparr>], ss_GapOverflow = False,
      ss_PendingBaseline = [''default_path'', ''physical_network''], ss_Conflicts = 0\<rparr>"
  by (simp add: sample_gap_eval)

lemma sample_run:
  "\<exists>a b. run_steps (Accept sample_codec) New [(sample_fact 1 True, DomainRoot), (sample_fact 4 True, DomainRoot)]
     = ([(a, None), (b, None)], sample_gapped) \<and> Accepted a \<and> Accepted b"
  using sample_first sample_second by (auto simp: Let_def)

lemma sample_state_ok: "State_Validate New = None" "State_Validate sample_state = None"
  "State_Validate sample_gapped = None"
proof -
  show new: "State_Validate New = None" by (simp add: State_Validate_None_iff New_def)
  then show "State_Validate sample_state = None"
    using Accept_keeps_valid[of New sample_codec "(sample_fact 1 True, DomainRoot)"] sample_first by auto
  then show "State_Validate sample_gapped = None"
    using Accept_keeps_valid[of sample_state sample_codec "(sample_fact 4 True, DomainRoot)"]
    by (simp add: sample_gapped_def)
qed

section \<open>Properties of the acceptor\<close>

text \<open>
  C1: an identity (source, boot, sequence) is decided for a whole retry window. Once a fact has
  been accepted, then after any further arrivals, as long as fewer than 64 of them were accepted
  from that source and the source stayed in its boot, an admissible fact under the same identity
  is a duplicate if its digest is the accepted one and a conflict otherwise, and it takes no host
  sequence.
\<close>

theorem identity_decided:
  assumes "State_Validate st = None"
    and "Accept cd st (f, auth) = ((a, e), st1)" "Accepted a" "Digest cd f = Inr digest"
    and "run_steps (Accept cd) st1 xs = (outs, st2)"
    and "accepted_from (f_SourceID f) (zip xs outs) < RetryWindow"
    and "\<forall>(g, au)\<in>set xs. f_SourceID g = f_SourceID f \<longrightarrow> f_BootID g = f_BootID f"
    and "f_SourceID g = f_SourceID f" "f_BootID g = f_BootID f" "f_SourceSequence g = f_SourceSequence f"
    and "Fact_Validate g = None" "ClassifyConnectivityFact g auth' = Inr role" "Digest cd g = Inr digest'"
  shows "\<exists>a' st3. Accept cd st2 (g, auth') = ((a', None), st3) \<and>
    ac_Outcome a' = (if digest' = digest then OutcomeDuplicate else OutcomeConflict) \<and>
    st_HostSequence st3 = st_HostSequence st2"
proof -
  have "remembers st1 (f_SourceID f) (f_BootID f) \<lparr>rd_Sequence = f_SourceSequence f, rd_Digest = digest\<rparr> 0"
    using Accept_remembers[OF assms(2,3)] assms(4) by auto
  from remembers_run[OF assms(5) this] have
    "remembers st2 (f_SourceID f) (f_BootID f) \<lparr>rd_Sequence = f_SourceSequence f, rd_Digest = digest\<rparr>
       (accepted_from (f_SourceID f) (zip xs outs))"
    using assms(6,7) by simp
  moreover have "State_Validate st2 = None"
    using acceptor_valid.run_inv[of st1 cd xs] Accept_keeps_valid[OF assms(1), of cd "(f, auth)"] assms(2,5)
    by simp
  ultimately show ?thesis
    using identity_remembered[of st2 "f_SourceID f" "f_BootID f" _ _ g auth' role cd digest'] assms(8-13)
    by fastforce
qed

theorem identity_decided_witness:
  "\<exists>a' st3. Accept sample_codec sample_gapped (sample_fact 1 False, DomainRoot) = ((a', None), st3) \<and>
    ac_Outcome a' = (if sample_digest 1 False = sample_digest 1 True then OutcomeDuplicate else OutcomeConflict) \<and>
    st_HostSequence st3 = st_HostSequence sample_gapped"
proof -
  obtain a where a: "Accept sample_codec New (sample_fact 1 True, DomainRoot) = ((a, None), sample_state)"
    "Accepted a" using sample_first by blast
  obtain b where b: "run_steps (Accept sample_codec) sample_state [(sample_fact 4 True, DomainRoot)]
      = ([(b, None)], sample_gapped)"
    using sample_second by (auto simp: Let_def)
  show ?thesis
    by (rule identity_decided[OF sample_state_ok(1) a sample_digests(1) b])
      (simp_all add: accepted_from_def RetryWindow_def sample_valid sample_digests sample_classified)
qed

text \<open>
  C2: no lost observation is hidden. After any arrivals at a new acceptor, every sequence of a
  source between the point at which the source last had everything restated (or its first fact in
  this boot) and its newest sequence was accepted, or lies in a recorded gap, or the source says
  that its gap record overflowed. The ledger is computed from the arrivals and their acceptances.
\<close>

theorem gaps_visible:
  assumes "run_steps (Accept cd) New xs = (outs, st)" "map_of (st_Sources st) i = Some s"
  shows "\<exists>l. fold (ledger_step i) (zip xs outs) None = Some l \<and> lg_boot l = ss_BootID s \<and>
    (\<forall>n. lg_settled l < n \<and> n \<le> ss_LastSequence s \<and> n \<notin> lg_arrived l \<longrightarrow>
       inGap (ss_Gaps s) n \<or> ss_GapOverflow s)"
proof -
  have "ledger_ok i New None" by (simp add: ledger_ok_def New_def)
  from ledger_ok_run[OF assms(1) this] show ?thesis
    using assms(2) by (auto simp: ledger_ok_def visible_def)
qed

theorem gaps_visible_witness:
  "\<exists>outs s l. run_steps (Accept sample_codec) New
      [(sample_fact 1 True, DomainRoot), (sample_fact 4 True, DomainRoot)] = (outs, sample_gapped) \<and>
    map_of (st_Sources sample_gapped) ''root.network'' = Some s \<and>
    fold (ledger_step ''root.network'')
      (zip [(sample_fact 1 True, DomainRoot), (sample_fact 4 True, DomainRoot)] outs) None = Some l \<and>
    (\<forall>n. lg_settled l < n \<and> n \<le> ss_LastSequence s \<and> n \<notin> lg_arrived l \<longrightarrow>
       inGap (ss_Gaps s) n \<or> ss_GapOverflow s)"
proof -
  obtain a b where run: "run_steps (Accept sample_codec) New
      [(sample_fact 1 True, DomainRoot), (sample_fact 4 True, DomainRoot)] = ([(a, None), (b, None)], sample_gapped)"
    using sample_run by blast
  show ?thesis using gaps_visible[OF run sample_gapped_source] run sample_gapped_source by blast
qed

text \<open>
  C3: a debt is paid by a restatement and by nothing else. If a source owes a baseline of a
  component, then after any arrivals (boot changes, gaps, conflicts and other sources included) it
  still owes it, unless one of them was an accepted baseline fact of that very source and component.
\<close>

theorem debt_needs_restatement:
  assumes "State_Validate st = None" "run_steps (Accept cd) st xs = (outs, st')"
    and "map_of (st_Sources st) i = Some s" "c \<in> set (ss_PendingBaseline s)"
    and "\<forall>((f, au), (a, e))\<in>set (zip xs outs).
      \<not> (f_SourceID f = i \<and> f_Component f = c \<and> f_Baseline f \<and> ac_Outcome a = OutcomeAccepted)"
  shows "\<exists>s'. map_of (st_Sources st') i = Some s' \<and> c \<in> set (ss_PendingBaseline s')"
  by (rule debt_kept[OF assms(2,1,3,4)])
    (use assms(5) in \<open>fastforce simp: restates_def Accepted_def\<close>)

theorem debt_needs_restatement_witness:
  "\<exists>st' s'. snd (run_steps (Accept sample_codec) sample_gapped [(sample_fact 5 True, DomainRoot)]) = st' \<and>
     map_of (st_Sources st') ''root.network'' = Some s' \<and> ''default_path'' \<in> set (ss_PendingBaseline s')"
proof -
  obtain outs st' where run:
    "run_steps (Accept sample_codec) sample_gapped [(sample_fact 5 True, DomainRoot)] = (outs, st')"
    by force
  have "\<exists>s'. map_of (st_Sources st') ''root.network'' = Some s' \<and> ''default_path'' \<in> set (ss_PendingBaseline s')"
    by (rule debt_needs_restatement[OF sample_state_ok(3) run sample_gapped_source])
      (auto dest!: set_zip_leftD)
  with run show ?thesis by auto
qed

text \<open>
  C4: whatever arrives, a new acceptor stays within its bounds and the state it reaches is one
  that \<^verbatim>\<open>Restore\<close> takes back unchanged: at most 64 remembered digests in increasing order and
  64 gap ranges per source, gaps only while a baseline is owed, and only declared components owed.
\<close>

theorem reachable_restorable:
  assumes "run_steps (Accept cd) New xs = (outs, st)"
  shows "Restore st = Inr st \<and>
    (\<forall>(i, s)\<in>set (st_Sources st). length (ss_Recent s) \<le> RetryWindow \<and>
       sorted_wrt (<) (map rd_Sequence (ss_Recent s)) \<and> length (ss_Gaps s) \<le> MaxGapRanges \<and>
       (ss_Gaps s \<noteq> [] \<longrightarrow> ss_PendingBaseline s \<noteq> []) \<and>
       set (ss_PendingBaseline s) \<subseteq> set (ConnectivitySourceComponents i))"
proof -
  have "State_Validate st = None"
    using acceptor_valid.run_inv[of New cd xs] sample_state_ok(1) assms by simp
  moreover from this have "Restore st = Inr st" by (simp add: Restore_def State_Clone_def)
  ultimately show ?thesis
    by (auto simp: State_Validate_None_iff SourceState_Validate_None_iff)
qed

theorem reachable_restorable_witness:
  "Restore sample_gapped = Inr sample_gapped"
proof -
  obtain a b where run: "run_steps (Accept sample_codec) New
      [(sample_fact 1 True, DomainRoot), (sample_fact 4 True, DomainRoot)] = ([(a, None), (b, None)], sample_gapped)"
    using sample_run by blast
  show ?thesis using reachable_restorable[OF run] by simp
qed

text \<open>
  C5: the two orders. Over any arrivals at a new acceptor the accepted facts take the host
  sequences 1, 2, 3, \<dots> and every fact that is not rejected takes the next fold position, with no
  number skipped; below \<open>2 ^ 64\<close> arrivals no number is given twice.
\<close>

theorem positions_consecutive:
  assumes "run_steps (Accept cd) New xs = (outs, st)" "length xs < 2 ^ 64"
  shows "map unat (List.map_filter host_position outs) = [1..<Suc (length (List.map_filter host_position outs))] \<and>
    map unat (List.map_filter fold_position outs) = [1..<Suc (length (List.map_filter fold_position outs))] \<and>
    st_HostSequence st = of_nat (length (List.map_filter host_position outs)) \<and>
    st_FoldPosition st = of_nat (length (List.map_filter fold_position outs))"
proof -
  have "length outs = length xs" using assms(1) by (metis fst_conv length_run_steps)
  then have bound: "length (List.map_filter p outs) < 2 ^ 64" for p :: "_ \<Rightarrow> u64 option"
    using assms(2) by (simp add: List.map_filter_def le_less_trans[OF length_filter_le])
  have unat_next: "unat ((0::u64) + of_nat (Suc n)) = Suc n" if "Suc n < 2 ^ 64" for n
    using that unat_of_nat[of "Suc n", where 'a = 64] by simp
  have count: "map unat ps = [1..<Suc (length ps)]"
    if ps: "ps = map (\<lambda>n. (0::u64) + of_nat (Suc n)) [0..<length ps]" and len: "length ps < 2 ^ 64" for ps
  proof -
    have "map unat ps = map Suc [0..<length ps]"
      by (subst ps) (use len unat_next in auto)
    then show ?thesis by (simp add: map_Suc_upt)
  qed
  have zero: "st_HostSequence New = 0" "st_FoldPosition New = 0" by (simp_all add: New_def)
  note host = host_order.run_positions[OF assms(1), unfolded zero(1)]
    and folded = fold_order.run_positions[OF assms(1), unfolded zero(2)]
  have "st_HostSequence st = of_nat (length (List.map_filter host_position outs))"
    "st_FoldPosition st = of_nat (length (List.map_filter fold_position outs))"
    using conjunct2[OF host] conjunct2[OF folded] by simp_all
  then show ?thesis
    using count[OF conjunct1[OF host] bound] count[OF conjunct1[OF folded] bound] by blast
qed

theorem positions_consecutive_witness:
  "\<exists>outs st. run_steps (Accept sample_codec) New
      [(sample_fact 1 True, DomainRoot), (sample_fact 4 True, DomainRoot)] = (outs, st) \<and>
    st_HostSequence st = of_nat (length (List.map_filter host_position outs))"
proof -
  obtain a b where run: "run_steps (Accept sample_codec) New
      [(sample_fact 1 True, DomainRoot), (sample_fact 4 True, DomainRoot)] = ([(a, None), (b, None)], sample_gapped)"
    using sample_run by blast
  show ?thesis using positions_consecutive[OF run] run by fastforce
qed

text \<open>
  C6: a rejected arrival leaves no trace. \<^verbatim>\<open>Accept\<close> returns an error exactly for a fact that is
  invalid, or that the compiled envelope does not allow its authenticated domain to state, or that
  has no canonical encoding; the state is then the old one and no position is taken.
\<close>

theorem rejection_exact:
  assumes "Accept cd st (f, auth) = ((a, e), st')"
  shows "(e \<noteq> None \<longleftrightarrow> Fact_Validate f \<noteq> None \<or> (\<forall>role. ClassifyConnectivityFact f auth \<noteq> Inr role) \<or>
      (\<forall>digest. Digest cd f \<noteq> Inr digest)) \<and>
    (e \<noteq> None \<longrightarrow> st' = st \<and> ac_Outcome a = OutcomeRejected \<and> ac_HostSequence a = 0 \<and> ac_FoldPosition a = 0)"
  using assms
proof (cases rule: Accept_E)
  case rejected
  have "\<not> (Fact_Validate f = None \<and> ClassifyConnectivityFact f auth = Inr role \<and> Digest cd f = Inr digest)"
    for role digest
  proof
    assume adm: "Fact_Validate f = None \<and> ClassifyConnectivityFact f auth = Inr role \<and> Digest cd f = Inr digest"
    obtain a0 s' host where "decide (st_HostSequence st) (source_of st f) f digest role = (a0, s', host)"
      by (metis surj_pair)
    with adm rejected(1) assms show False using Accept_decided[of f auth role cd digest] by auto
  qed
  then have "Fact_Validate f \<noteq> None \<or> (\<forall>role. ClassifyConnectivityFact f auth \<noteq> Inr role) \<or>
      (\<forall>digest. Digest cd f \<noteq> Inr digest)" by metis
  with rejected show ?thesis by simp
qed auto

theorem rejection_exact_witness:
  "\<exists>a e. Accept sample_codec New (sample_fact 0 True, DomainRoot) = ((a, e), New) \<and>
     e \<noteq> None \<and> ac_HostSequence a = 0"
proof -
  obtain a e st' where acc: "Accept sample_codec New (sample_fact 0 True, DomainRoot) = ((a, e), st')"
    by (metis surj_pair)
  moreover have "Fact_Validate (sample_fact 0 True) \<noteq> None"
    using Fact_Validate_ok(3)[of "sample_fact 0 True"] by auto
  ultimately show ?thesis using rejection_exact[OF acc] by simp
qed

text \<open>
  C7: only the owner speaks with authority. When a fact is not rejected and its acceptance carries
  the authoritative role, its source is the one owner the compiled envelope names for its component,
  and the fact was authenticated in, and claims, the owner's privilege domain.
\<close>

theorem authority_is_owner:
  assumes "Accept cd st (f, auth) = ((a, None), st')" "ac_Role a = RoleAuthoritative"
  shows "\<exists>d\<in>set connectivitySources. sd_Source d = f_SourceID f \<and> sd_Domain d = auth \<and> f_Domain f = auth \<and>
    (\<forall>e\<in>set connectivitySources. sd_Component e = f_Component f \<and> sd_Role e = RoleAuthoritative \<longleftrightarrow> e = d)"
proof -
  from assms(1) obtain role where role: "ClassifyConnectivityFact f auth = Inr role" "ac_Role a = role"
    by (cases rule: Accept_E) (auto dest: decide_result(4))
  then obtain d where d: "declared_as (f_SourceID f) (f_Component f) = Some d" "sd_Domain d = auth"
    "sd_Role d = RoleAuthoritative" "f_Domain f = auth"
    using Classify_ok[OF role(1)] assms(2) by auto
  have mem: "e \<in> set connectivitySources \<longleftrightarrow> declared_as (sd_Source e) (sd_Component e) = Some e" for e
    using compiled_envelope(1)[unfolded envelope_inv_def] by (auto simp: declared_as_def)
  have key: "sd_Source d = f_SourceID f" "sd_Component d = f_Component f"
    using owned.declared_key[OF d(1)] by auto
  have "e = d" if "e \<in> set connectivitySources" "sd_Component e = f_Component f"
    "sd_Role e = RoleAuthoritative" for e
    using owned.single_owner(2)[of "sd_Source e" "f_Component f" e "f_SourceID f" d] that d mem by auto
  moreover have "d \<in> set connectivitySources" using d(1) key mem by simp
  ultimately show ?thesis using d key by blast
qed

theorem authority_is_owner_witness:
  "\<exists>a. Accept sample_codec New (sample_fact 1 True, DomainRoot) = ((a, None), sample_state) \<and>
     ac_Role a = RoleAuthoritative \<and>
     (\<exists>d\<in>set connectivitySources. sd_Source d = ''root.network'' \<and> sd_Domain d = DomainRoot)"
proof -
  obtain a where a: "Accept sample_codec New (sample_fact 1 True, DomainRoot) = ((a, None), sample_state)"
    and role: "ac_Role a = RoleAuthoritative"
    using sample_first by blast
  show ?thesis using authority_is_owner[OF a role] a role by auto
qed

lemma init_declare_iff:
  "(\<exists>r. init_declare ds ks as = Inr r) \<longleftrightarrow>
     (\<forall>d\<in>set ds. map_of ks (sd_Source d, sd_Component d) = None) \<and>
     (\<forall>d\<in>set ds. sd_Role d = RoleAuthoritative \<longrightarrow> map_of as (sd_Component d) = None) \<and>
     distinct (map (\<lambda>d. (sd_Source d, sd_Component d)) ds) \<and>
     distinct (map sd_Component (filter (\<lambda>d. sd_Role d = RoleAuthoritative) ds))"
proof (induction ds arbitrary: ks as)
  case (Cons d ds)
  let ?ks = "AList.update (sd_Source d, sd_Component d) d ks"
  show ?case
  proof (cases "sd_Role d = RoleAuthoritative")
    case True
    let ?as = "AList.update (sd_Component d) d as"
    have "(\<exists>r. init_declare (d # ds) ks as = Inr r) \<longleftrightarrow>
        map_of ks (sd_Source d, sd_Component d) = None \<and> map_of as (sd_Component d) = None \<and>
        (\<exists>r. init_declare ds ?ks ?as = Inr r)"
      using True by (cases "map_of as (sd_Component d)") (simp_all add: Let_def)
    then show ?thesis unfolding Cons.IH using True by (auto simp: image_iff)
  next
    case False
    have "(\<exists>r. init_declare (d # ds) ks as = Inr r) \<longleftrightarrow>
        map_of ks (sd_Source d, sd_Component d) = None \<and> (\<exists>r. init_declare ds ?ks as = Inr r)"
      using False by (simp add: Let_def)
    then show ?thesis unfolding Cons.IH using False by (auto simp: image_iff)
  qed
qed simp

text \<open>
  C8: initialisation is the check it claims to be. For any declaration table, \<^verbatim>\<open>init\<close> completes
  without a panic if and only if no source declares a component twice, no component has two
  authoritative declarations, and every component has one.
\<close>

theorem init_exact:
  "(\<exists>maps. init_envelope ds = Inr maps) \<longleftrightarrow>
     distinct (map (\<lambda>d. (sd_Source d, sd_Component d)) ds) \<and>
     distinct (map sd_Component (filter (\<lambda>d. sd_Role d = RoleAuthoritative) ds)) \<and>
     set Components \<subseteq> sd_Component ` {d \<in> set ds. sd_Role d = RoleAuthoritative}"
proof -
  have owned: "(\<forall>c\<in>set Components. map_of as c \<noteq> None) \<longleftrightarrow>
      set Components \<subseteq> sd_Component ` {d \<in> set ds. sd_Role d = RoleAuthoritative}"
    if "init_declare ds [] [] = Inr (ks, as)" for ks as
    using init_declare_inv[OF that envelope_inv_empty] by (fastforce simp: envelope_inv_def)
  have "(\<exists>maps. init_envelope ds = Inr maps) \<longleftrightarrow>
      (\<exists>ks as. init_declare ds [] [] = Inr (ks, as) \<and> (\<forall>c\<in>set Components. map_of as c \<noteq> None))"
    by (auto simp: init_envelope_def find_None_iff find_Some_iff split: sum.splits option.splits)
  also have "\<dots> \<longleftrightarrow> (\<exists>maps. init_declare ds [] [] = Inr maps) \<and>
      set Components \<subseteq> sd_Component ` {d \<in> set ds. sd_Role d = RoleAuthoritative}"
    using owned by auto
  finally show ?thesis unfolding init_declare_iff by simp
qed

section \<open>Properties of facts\<close>

text \<open>
  C9: one fact, one text. Whatever the canonicalizer and the decoder do, bytes are accepted as a
  fact exactly when the decoder reads that fact from them with nothing trailing and they are, byte
  for byte, what \<^verbatim>\<open>Encode\<close> produces for it. So no two different texts decode to the same fact, and
  an invalid fact has no text.
\<close>

theorem decode_iff_encode:
  "Decode cd decode s = Inr f \<longleftrightarrow> decode s = Some (f, False) \<and> Encode cd f = Inr s"
proof
  assume "decode s = Some (f, False) \<and> Encode cd f = Inr s"
  then show "Decode cd decode s = Inr f"
    using Encode_ok[of cd f s] by (simp add: Decode_def)
qed (use Decode_ok in blast)

lemma Transports_no_wrap:
  assumes "Transports_validate p = None"
  shows "unat (tr_Ready p) + unat (tr_Degraded p) \<le> unat (tr_Configured p)"
proof -
  have b: "tr_Ready p \<le> 4096" "tr_Degraded p \<le> 4096" "tr_Ready p + tr_Degraded p \<le> tr_Configured p"
    using assms by (auto simp: Transports_validate_def MaxComponentCount_def split: if_splits)
  then have "unat (tr_Ready p) \<le> 4096" "unat (tr_Degraded p) \<le> 4096"
    by (simp_all add: word_le_nat_alt)
  then have "unat (tr_Ready p + tr_Degraded p) = unat (tr_Ready p) + unat (tr_Degraded p)"
    by (simp add: unat_word_ariths)
  with b(3) show ?thesis by (simp add: word_le_nat_alt)
qed

lemma ScopedRoutes_no_wrap:
  assumes "ScopedRoutes_validate p = None"
  shows "unat (sr_Installed p) + unat (sr_Conflicting p) + unat (sr_Missing p) \<le> unat (sr_Configured p)"
proof -
  let ?w = "\<lambda>x :: u16. ucast x :: u32"
  have "sr_Installed p \<le> 4096" "sr_Conflicting p \<le> 4096" "sr_Missing p \<le> 4096"
    and le: "?w (sr_Installed p) + ?w (sr_Conflicting p) + ?w (sr_Missing p) \<le> ?w (sr_Configured p)"
    using assms by (auto simp: ScopedRoutes_validate_def MaxComponentCount_def split: if_splits)
  then have "unat (sr_Installed p) \<le> 4096" "unat (sr_Conflicting p) \<le> 4096" "unat (sr_Missing p) \<le> 4096"
    by (simp_all add: word_le_nat_alt)
  moreover have "unat (?w x) = unat x" for x
    using unsigned_less[of x, where 'a = nat] by (simp add: unsigned_ucast_eq take_bit_nat_eq_self)
  ultimately have "unat (?w (sr_Installed p) + ?w (sr_Conflicting p) + ?w (sr_Missing p)) =
      unat (sr_Installed p) + unat (sr_Conflicting p) + unat (sr_Missing p)"
    by (simp add: unat_word_ariths)
  with le \<open>\<And>x. unat (?w x) = unat x\<close> show ?thesis by (simp add: word_le_nat_alt)
qed

lemma members:
  assumes "member_of p = {c}"
  shows "pl_PhysicalNetwork p \<noteq> None \<Longrightarrow> c = ComponentPhysicalNetwork" "pl_DefaultPath p \<noteq> None \<Longrightarrow> c = ComponentDefaultPath"
    "pl_DNS p \<noteq> None \<Longrightarrow> c = ComponentDNS" "pl_ScopedRoutes p \<noteq> None \<Longrightarrow> c = ComponentScopedRoutes"
    "pl_Transports p \<noteq> None \<Longrightarrow> c = ComponentTransports" "pl_Relays p \<noteq> None \<Longrightarrow> c = ComponentRelays"
    "pl_UserAccess p \<noteq> None \<Longrightarrow> c = ComponentUserAccess" "pl_SessionExpiry p \<noteq> None \<Longrightarrow> c = ComponentSessionExpiry"
  by (rule singletonD[THEN sym], subst assms[symmetric],
      simp add: member_of_def del: not_None_eq split del: if_split)+

text \<open>
  C10: what a valid fact is. Its payload has exactly one member, the one its component names; and
  the counts of that member add up as numbers, although the source compares machine sums: ready
  plus degraded transports never exceed the configured ones (added at 16 bits), nor installed plus
  conflicting plus missing routes (added at 32 bits).
\<close>

theorem valid_fact_payload:
  assumes "Fact_Validate f = None"
  shows "member_of (f_Payload f) = {f_Component f} \<and> f_Component f \<in> set Components \<and>
    (\<forall>t. pl_Transports (f_Payload f) = Some t \<longrightarrow>
       unat (tr_Ready t) + unat (tr_Degraded t) \<le> unat (tr_Configured t)) \<and>
    (\<forall>r. pl_ScopedRoutes (f_Payload f) = Some r \<longrightarrow>
       unat (sr_Installed r) + unat (sr_Conflicting r) + unat (sr_Missing r) \<le> unat (sr_Configured r))"
proof -
  have single: "member_of (f_Payload f) = {f_Component f}"
    using Payload_component_single Fact_Validate_ok(6)[OF assms] by blast
  have valid: "Payload_validate (f_Payload f) = None" by (rule Fact_Validate_ok(7)[OF assms])
  have "Transports_validate t = None" if "pl_Transports (f_Payload f) = Some t" for t
    using valid members[OF single] that
    by (auto simp: Payload_validate_def go_consts split: option.splits)
  moreover have "ScopedRoutes_validate r = None" if "pl_ScopedRoutes (f_Payload f) = Some r" for r
    using valid members[OF single] that
    by (auto simp: Payload_validate_def go_consts split: option.splits)
  ultimately show ?thesis
    using single Transports_no_wrap ScopedRoutes_no_wrap Fact_Validate_ok(1)[OF assms]
    by (auto simp: Component_Valid_iff)
qed

theorem valid_fact_payload_witness:
  "Fact_Validate (sample_fact 1 True) = None \<and>
   member_of (f_Payload (sample_fact 1 True)) = {ComponentPhysicalNetwork}"
  using valid_fact_payload[OF sample_valid[of 1 True]] by (simp add: sample_valid)

end
