(* ===== verification/Reduction_Laws.thy ===== *)
theory Reduction_Laws
  imports Pipeline Acceptance_Laws "HOL-Library.Code_Target_Nat"
begin

text \<open>
  The properties of the reducer and of the acceptor and the reducer together, with their witnesses.
\<close>

section \<open>The semantic tree determines the projection\<close>

lemma map_json_inj: "inj j \<Longrightarrow> map j xs = map j ys \<longleftrightarrow> xs = ys"
  by (simp add: inj_map_eq_map)

lemma json_slice_inj: "inj j \<Longrightarrow> json_slice j xs = json_slice j ys \<longleftrightarrow> xs = ys"
  by (auto simp: json_slice_def map_json_inj)

lemma inj_json_GapRange: "inj json_GapRange"
  by (rule injI, rule GapRange.equality) (simp_all add: json_GapRange_def word_uint_eq_iff)

lemma inj_json_PolicyDescriptor: "inj json_PolicyDescriptor"
  by (rule injI, rule PolicyDescriptor.equality) (simp_all add: json_PolicyDescriptor_def word_uint_eq_iff)

lemma inj_json_ConflictRecord: "inj json_ConflictRecord"
  by (rule injI, rule ConflictRecord.equality) (simp_all add: json_ConflictRecord_def word_uint_eq_iff)

lemma inj_json_Summary: "inj json_Summary"
  by (rule injI, rule Summary.equality) (simp_all add: json_Summary_def word_uint_eq_iff)

lemma inj_json_semanticCorroboration: "inj json_semanticCorroboration"
  by (rule injI, rule semanticCorroboration.equality) (simp_all add: json_semanticCorroboration_def)

lemma omit_slice_last_inj:
  "inj j \<Longrightarrow> omit_slice n j xs = omit_slice n j ys \<longleftrightarrow> xs = ys"
  by (auto simp: omit_slice_def omit_when_def map_json_inj)

lemma omit_slice_then_inj:
  assumes "inj j" "n \<noteq> m"
  shows "omit_slice n j xs @ (m, v) # us = omit_slice n j ys @ (m, w) # vs \<longleftrightarrow> xs = ys \<and> v = w \<and> us = vs"
  using assms by (auto simp: omit_slice_def omit_when_def map_json_inj)

lemma inj_JString: "inj JString"
  by (simp add: inj_def)

lemma inj_json_semanticComponent: "inj json_semanticComponent"
  by (rule injI, rule semanticComponent.equality)
    (simp_all add: json_semanticComponent_def json_Payload_inject word_uint_eq_iff
      omit_slice_last_inj[OF inj_json_semanticCorroboration])

lemma inj_json_semanticSource: "inj json_semanticSource"
  by (rule injI, rule semanticSource.equality)
    (simp_all add: json_semanticSource_def word_uint_eq_iff
      omit_slice_then_inj[OF inj_json_GapRange] omit_slice_then_inj[OF inj_JString]
      omit_slice_last_inj[OF inj_JString])

lemma json_semantic_inject: "json_semantic s = json_semantic t \<longleftrightarrow> s = t"
proof
  assume eq: "json_semantic s = json_semantic t"
  show "s = t"
    by (rule semantic.equality)
      (use eq in \<open>simp_all add: json_semantic_def inj_eq[OF inj_json_PolicyDescriptor] inj_eq[OF inj_json_Summary]
        json_slice_inj[OF inj_json_semanticComponent] json_slice_inj[OF inj_json_semanticSource]
        omit_slice_then_inj[OF inj_json_ConflictRecord]
        omit_slice_last_inj[OF inj_json_ConflictRecord]\<close>)
qed simp

lemma json_Proposal_inject: "json_Proposal p = json_Proposal q \<longleftrightarrow> p = q"
proof
  assume "json_Proposal p = json_Proposal q"
  then show "p = q" by (intro Proposal.equality) (simp_all add: json_Proposal_def word_uint_eq_iff)
qed simp

section \<open>Samples\<close>

text \<open>A codec with fixed-size digests, a time context without policy and the first batch of a host.\<close>

definition flat_codec :: codec where
  "flat_codec = \<lparr>cd_marshal = (\<lambda>_. Some ''{}''), cd_transform = Some, cd_sha256 = (\<lambda>_. replicate 64 CHR ''0'')\<rparr>"

definition sample_policy :: PolicyDescriptor where
  "sample_policy = \<lparr>pd_Present = True, pd_Valid = True, pd_Suspended = False, pd_BundleGeneration = 1,
     pd_RootGeneration = 1, pd_UserGeneration = 1, pd_ManifestDigest = ''m''\<rparr>"

definition sample_arrivals :: "arrival list" where
  "sample_arrivals = [(sample_fact 1 True, DomainRoot), (sample_fact 4 True, DomainRoot)]"

definition sample_input :: Input where
  "sample_input = \<lparr>in_Prior = None,
     in_Events = events_of (zip sample_arrivals (fst (run_steps (Accept flat_codec) New sample_arrivals))),
     in_Policy = sample_policy, in_PolicyComponents = [], in_BootID = ''boot-1'', in_PriorFolded = 0,
     in_PriorConsumed = 0, in_EvaluationTick = 5, in_Wake = None\<rparr>"

lemma flat_encodes: "encodable flat_codec t" "length (cd_sha256 flat_codec x) = 64"
  by (simp_all add: encodable_def MarshalCanonical_def Canonicalize_def flat_codec_def MaxCanonicalJSONSize_def)

lemma sample_carries: "acceptor_inv New" "carries New sample_input" "input_ok sample_input"
  by (auto simp: acceptor_inv_def State_Validate_None_iff pending_once_def carries_def input_ok_def
      sample_input_def New_def entries_ok_def)

section \<open>The pipeline\<close>

text \<open>
  C11: the pipeline never wedges. Take any state of the acceptor that its own operations keep valid,
  an input whose prior snapshot carries that state (or the very first input), any arrivals, and the
  events the acceptor makes of them. If the time context and the policy entries are well formed, the
  generation counter has room and the trees of this reduction are encodable, then \<^verbatim>\<open>Reduce\<close> returns a
  snapshot, and that snapshot is valid and again carries the state the acceptor reached.
\<close>

theorem pipeline_live:
  assumes "acceptor_inv st" "carries st i" "input_ok i"
    and "run_steps (Accept cd) st xs = (outs, st')" "in_Events i = events_of (zip xs outs)"
    and "\<forall>t\<in>reduction_trees i. encodable cd t" "\<forall>x. length (cd_sha256 cd x) = 64"
  shows "\<exists>out. Reduce cd i = Inr out \<and> represents st' (out_Snapshot out) \<and> domains_ok (out_Snapshot out) \<and>
    Snapshot_Validate (out_Snapshot out) = None \<and> acceptor_inv st'"
  using pipeline_batch[OF assms] acceptor_sound.run_inv[OF assms(1), of cd xs] assms(4) by auto

theorem pipeline_live_witness:
  "\<exists>out. Reduce flat_codec sample_input = Inr out \<and>
     represents (snd (run_steps (Accept flat_codec) New sample_arrivals)) (out_Snapshot out)"
proof -
  obtain outs st' where run: "run_steps (Accept flat_codec) New sample_arrivals = (outs, st')" by force
  have "in_Events sample_input = events_of (zip sample_arrivals outs)" by (simp add: sample_input_def run)
  from pipeline_live[OF sample_carries run this] show ?thesis using flat_encodes run by auto
qed

lemma sample_reduces: "\<exists>out. Reduce flat_codec sample_input = Inr out"
proof -
  obtain outs st' where run: "run_steps (Accept flat_codec) New sample_arrivals = (outs, st')" by force
  have "in_Events sample_input = events_of (zip sample_arrivals outs)" by (simp add: sample_input_def run)
  from pipeline_batch[OF sample_carries run this] show ?thesis using flat_encodes by auto
qed

text \<open>
  C12: the snapshot refines the acceptor. Whenever a batch of the acceptor's events reduces, the
  consumed watermarks of the snapshot are the acceptor's host sequence and fold position, it has a
  watermark for exactly the sources the acceptor knows, and each says of its source what the
  acceptor says: boot, last sequence, gaps, overflow, owed components, conflicts and retry window,
  the gaps and owed components in sorted order.
\<close>

theorem snapshot_refines_acceptor:
  assumes "carries st i" "run_steps (Accept cd') st xs = (outs, st')" "in_Events i = events_of (zip xs outs)"
    and "Reduce cd i = Inr out"
  shows "sn_ConsumedHostSequence (out_Snapshot out) = st_HostSequence st' \<and>
    sn_ConsumedFoldPosition (out_Snapshot out) = st_FoldPosition st' \<and>
    (\<forall>k. map_option (normal_integrity \<circ> watermark_integrity) (map_of (keyed_sources (sn_Sources (out_Snapshot out))) k) =
      map_option (normal_integrity \<circ> integrityOf) (map_of (st_Sources st') k))"
  using assms(4)
proof (cases rule: Reduce_E)
  case (1 s changed)
  obtain s' where "reduce_events (fold_start i) (events_of (zip xs outs)) = Inr s'" "in_sync st' s'"
    using in_sync_run[OF assms(2) carries_in_sync[OF assms(1)] fold_start_ok[OF 1(1)]] by blast
  then have "in_sync st' s" using 1(2) assms(3) by simp
  then have "represents st' (out_Snapshot out)"
    using in_sync_represents 1(3,5) by (metis fold_ok_def)
  then show ?thesis by (simp add: represents_def tracks_def)
qed

theorem snapshot_refines_acceptor_witness:
  "\<exists>out. Reduce flat_codec sample_input = Inr out \<and> sn_ConsumedHostSequence (out_Snapshot out) =
     st_HostSequence (snd (run_steps (Accept flat_codec) New sample_arrivals))"
proof -
  obtain outs st' where run: "run_steps (Accept flat_codec) New sample_arrivals = (outs, st')" by force
  obtain out where out: "Reduce flat_codec sample_input = Inr out" using sample_reduces by blast
  have "in_Events sample_input = events_of (zip sample_arrivals outs)" by (simp add: sample_input_def run)
  from snapshot_refines_acceptor[OF sample_carries(2) run this out] show ?thesis using out run by simp
qed

section \<open>Reduction\<close>

text \<open>
  C13: a batch is consumed exactly. Every event moves the fold watermark by one and every accepted
  event the host watermark by one, and the events carried exactly the positions that follow the
  prior watermark, in order.
\<close>

theorem watermarks_exact:
  assumes "Reduce cd i = Inr out"
  shows "sn_ConsumedFoldPosition (out_Snapshot out) = fo_folded (fold_start i) + of_nat (length (in_Events i)) \<and>
    sn_ConsumedHostSequence (out_Snapshot out) =
      fo_consumed (fold_start i) + of_nat (length (filter ev_accepted (in_Events i))) \<and>
    map (ac_FoldPosition \<circ> ev_Acceptance) (in_Events i) =
      map (\<lambda>n. fo_folded (fold_start i) + 1 + of_nat n) [0..<length (in_Events i)]"
  using assms
proof (cases rule: Reduce_E)
  case (1 s changed)
  have "sn_ConsumedFoldPosition (out_Snapshot out) = fo_folded s" "sn_ConsumedHostSequence (out_Snapshot out) = fo_consumed s"
    by (subst 1(5), simp)+
  then show ?thesis using reduce_events_positions[OF 1(2)] by simp
qed

theorem watermarks_exact_witness:
  "\<exists>out. Reduce flat_codec sample_input = Inr out \<and>
     sn_ConsumedFoldPosition (out_Snapshot out) = of_nat (length (in_Events sample_input))"
proof -
  obtain out where out: "Reduce flat_codec sample_input = Inr out" using sample_reduces by blast
  have "fo_folded (fold_start sample_input) = 0" by (simp add: fold_start_def sample_input_def)
  with watermarks_exact[OF out] out show ?thesis by simp
qed

lemma out_record:
  assumes "fold_ok s" "r \<in> set (map (\<lambda>c. render_component (the (map_of (fo_components s) c)) (fo_sources s) i) Components)"
  shows "cr_Component r \<in> set Components"
    "\<exists>q. map_of (fo_components s) (cr_Component r) = Some q \<and> r = render_component q (fo_sources s) i"
proof -
  obtain c where c: "c \<in> set Components" "r = render_component (the (map_of (fo_components s) c)) (fo_sources s) i"
    using assms(2) by auto
  obtain q where q: "map_of (fo_components s) c = Some q" "cr_Component q = c"
    using assms(1) c(1) by (fastforce simp: fold_ok_def components_ok_def record_ok_def)
  then have "cr_Component r = c" using c(2) by simp
  then show "cr_Component r \<in> set Components"
    "\<exists>q. map_of (fo_components s) (cr_Component r) = Some q \<and> r = render_component q (fo_sources s) i"
    using c q by auto
qed

lemma reduced_prior:
  "Reduce cd i = Inr out \<Longrightarrow> in_Prior i = Some p \<Longrightarrow> Snapshot_Validate p = None"
  by (auto simp: Reduce_def validateInput_def validate_prior_def split: option.splits if_splits)

lemma newComponentTable_prior:
  assumes "Snapshot_Validate p = None" "r \<in> set (sn_Components p)"
  shows "map_of (newComponentTable (Some p)) (cr_Component r) = Some r"
proof -
  have d: "distinct (map cr_Component (sn_Components p))"
    using assms(1) by (simp add: Snapshot_Validate_None_iff)
  then have "map_of (map (\<lambda>r. (cr_Component r, r)) (sn_Components p)) (cr_Component r) = Some r"
    using assms(2) by (intro map_of_is_SomeI) (auto simp: comp_def)
  then show ?thesis by (simp add: newComponentTable_def Let_def map_of_fold_update[OF d])
qed

lemma fold_start_record:
  "map_of (fo_components (fold_start i)) c = map_option
     (\<lambda>r. if withdrawn i c r then r\<lparr>cr_RebaselineRequired := True\<rparr> else r) (map_of (newComponentTable (in_Prior i)) c)"
  by (simp add: fold_start_def map_of_markRebaseline)

text \<open>Where a component record of the output comes from.\<close>

lemma out_record_origin:
  assumes "Reduce cd i = Inr out" "r \<in> set (sn_Components (out_Snapshot out))"
  obtains s r0 q where "reduce_events (fold_start i) (in_Events i) = Inr s"
    "map_of (newComponentTable (in_Prior i)) (cr_Component r) = Some r0"
    "r = render_component q (fo_sources s) i" "cr_Source r = cr_Source r0"
    "owner_view r = owner_view (fold (\<lambda>e r. observe r e) (owner_events (cr_Component r) (in_Events i))
       (if withdrawn i (cr_Component r) r0 then r0\<lparr>cr_RebaselineRequired := True\<rparr> else r0))"
  using assms(1)
proof (cases rule: Reduce_E)
  case (1 s changed)
  note rec = out_record[OF 1(3) assms(2)[unfolded 1(4)]]
  obtain q where q: "map_of (fo_components s) (cr_Component r) = Some q" "r = render_component q (fo_sources s) i"
    using rec(2) by blast
  obtain r1 where r1: "map_of (fo_components (fold_start i)) (cr_Component r) = Some r1"
    using fold_start_ok[OF 1(1)] rec(1) by (auto simp: fold_ok_def components_ok_def)
  then obtain r0 where r0: "map_of (newComponentTable (in_Prior i)) (cr_Component r) = Some r0"
    "r1 = (if withdrawn i (cr_Component r) r0 then r0\<lparr>cr_RebaselineRequired := True\<rparr> else r0)"
    by (auto simp: fold_start_record)
  from reduce_events_owner[OF 1(2) r1] q have
    "cr_Source q = cr_Source r1" "owner_view q = owner_view (fold (\<lambda>e r. observe r e) (owner_events (cr_Component r) (in_Events i)) r1)"
    by auto
  moreover have "owner_view r = owner_view q" "cr_Source r = cr_Source q" by (simp_all add: q(2))
  moreover have "cr_Source r1 = cr_Source r0" by (simp add: r0(2))
  ultimately show thesis using that[OF 1(2) r0(1) q(2)] r0(2) by simp
qed

lemma observes_last:
  assumes "es \<noteq> []"
  shows "cr_Observed (fold (\<lambda>e r. observe r e) es r) = f_Lifecycle (ev_Fact (last es))"
    "cr_Reason (fold (\<lambda>e r. observe r e) es r) = f_Reason (ev_Fact (last es))"
    "cr_Payload (fold (\<lambda>e r. observe r e) es r) = f_Payload (ev_Fact (last es))"
    "cr_BootID (fold (\<lambda>e r. observe r e) es r) = f_BootID (ev_Fact (last es))"
    "cr_FreshnessDeadline (fold (\<lambda>e r. observe r e) es r) = f_FreshnessDeadline (ev_Fact (last es))"
    "cr_HostSequence (fold (\<lambda>e r. observe r e) es r) = ac_HostSequence (ev_Acceptance (last es))"
  using assms by (induction es rule: rev_induct) (simp_all add: observe_def Let_def)

text \<open>
  C14: a component says what its owner said last. In the output of a reduction the observed
  lifecycle, reason, payload, boot, deadline and host sequence of every component are those of the
  last accepted event in which the component's owner spoke about it; if there was none in the batch
  they are what the prior snapshot had. Corroborating sources, conflicts, duplicates and late
  arrivals change none of them.
\<close>

theorem owner_speaks_last:
  assumes "Reduce cd i = Inr out" "r \<in> set (sn_Components (out_Snapshot out))"
  shows "\<exists>r0. map_of (newComponentTable (in_Prior i)) (cr_Component r) = Some r0 \<and> cr_Source r = cr_Source r0 \<and>
    (cr_Observed r, cr_Reason r, cr_Payload r, cr_BootID r, cr_FreshnessDeadline r, cr_HostSequence r) =
    (let es = owner_events (cr_Component r) (in_Events i) in
     if es = [] then (cr_Observed r0, cr_Reason r0, cr_Payload r0, cr_BootID r0, cr_FreshnessDeadline r0, cr_HostSequence r0)
     else let e = last es in (f_Lifecycle (ev_Fact e), f_Reason (ev_Fact e), f_Payload (ev_Fact e),
       f_BootID (ev_Fact e), f_FreshnessDeadline (ev_Fact e), ac_HostSequence (ev_Acceptance e)))"
proof -
  obtain s r0 q where r0: "map_of (newComponentTable (in_Prior i)) (cr_Component r) = Some r0" "cr_Source r = cr_Source r0"
    and view: "owner_view r = owner_view (fold (\<lambda>e r. observe r e) (owner_events (cr_Component r) (in_Events i))
       (if withdrawn i (cr_Component r) r0 then r0\<lparr>cr_RebaselineRequired := True\<rparr> else r0))"
    using out_record_origin[OF assms] by metis
  show ?thesis
    using r0 view observes_last[of "owner_events (cr_Component r) (in_Events i)"]
    by (cases "owner_events (cr_Component r) (in_Events i) = []") (auto simp: owner_view_def Let_def)
qed

lemma sample_component:
  assumes "Reduce flat_codec sample_input = Inr out"
  shows "\<exists>r\<in>set (sn_Components (out_Snapshot out)). cr_Component r = ComponentPhysicalNetwork"
  using assms
proof (cases rule: Reduce_E)
  case (1 s changed)
  then have "map cr_Component (sn_Components (out_Snapshot out)) = Components"
    by (simp add: Snapshot_Validate_None_iff)
  moreover have "ComponentPhysicalNetwork \<in> set Components" by (simp add: Components_def)
  ultimately show ?thesis by (metis imageE set_map)
qed

theorem owner_speaks_last_witness:
  "\<exists>out r r0. Reduce flat_codec sample_input = Inr out \<and> r \<in> set (sn_Components (out_Snapshot out)) \<and>
     map_of (newComponentTable None) ComponentPhysicalNetwork = Some r0 \<and> cr_Source r = cr_Source r0"
proof -
  obtain out where out: "Reduce flat_codec sample_input = Inr out" using sample_reduces by blast
  obtain r where r: "r \<in> set (sn_Components (out_Snapshot out))" "cr_Component r = ComponentPhysicalNetwork"
    using sample_component[OF out] by blast
  have "in_Prior sample_input = None" by (simp add: sample_input_def)
  with owner_speaks_last[OF out r(1)] out r show ?thesis by auto
qed

lemma deriveState_settled:
  assumes "deriveState r i \<in> {StateReady, StateDegraded, StateFailed, StateNotApplicable}"
  shows "cr_BootID r = in_BootID i" "in_EvaluationTick i \<le> cr_FreshnessDeadline r"
    "\<not> cr_RebaselineRequired r" "cr_Conflicts r = 0" "deriveState r i = cr_Observed r"
  using assms by (auto simp: deriveState_def go_consts word_gt_0 split: if_splits)

text \<open>
  A host that wakes: its prior snapshot had the physical network at host sequence 1, and the batch
  holds the restatement of the network's owner.
\<close>

definition wake_prior :: Snapshot where
  "wake_prior = (assemble sample_input (fold_start sample_input)
     (map (\<lambda>c. (new_record c)\<lparr>cr_HostSequence := (if c = ComponentPhysicalNetwork then 1 else 0)\<rparr>) Components))
     \<lparr>sn_Generation := 1, sn_ConsumedHostSequence := 1, sn_ConsumedFoldPosition := 1\<rparr>"

definition wake_arrivals :: "arrival list" where
  "wake_arrivals = [((sample_fact 1 True)\<lparr>f_Baseline := True\<rparr>, DomainRoot)]"

definition wake_input :: Input where
  "wake_input = sample_input\<lparr>in_Prior := Some wake_prior, in_Wake := Some \<lparr>wk_Tick = 6\<rparr>,
     in_EvaluationTick := 7, in_PriorFolded := 1, in_PriorConsumed := 1,
     in_Events := events_of (zip wake_arrivals (fst (run_steps (Accept flat_codec)
       (New\<lparr>st_HostSequence := 1, st_FoldPosition := 1\<rparr>) wake_arrivals)))\<rparr>"

lemma wake_evaluates:
  "case Reduce flat_codec wake_input of
     Inr out \<Rightarrow> length (sn_Sources (out_Snapshot out)) = 1 \<and>
       (\<exists>p\<in>set (out_Proposals out). pr_Class p = ProposalWithdraw) \<and>
       (\<exists>r\<in>set (sn_Components (out_Snapshot out)). cr_State r = StateUnknown) \<and>
       (\<exists>r\<in>set (sn_Components (out_Snapshot out)). cr_Component r = ComponentPhysicalNetwork \<and> cr_State r = StateReady)
   | Inl _ \<Rightarrow> False"
  by code_simp

lemma wake_reduces:
  obtains out r p where "Reduce flat_codec wake_input = Inr out" "r \<in> set (sn_Components (out_Snapshot out))"
    "cr_Component r = ComponentPhysicalNetwork" "cr_State r = StateReady"
    "length (sn_Sources (out_Snapshot out)) = 1" "p \<in> set (out_Proposals out)" "pr_Class p = ProposalWithdraw"
  using wake_evaluates by (auto split: sum.splits)

lemma wake_unready:
  "Reduce flat_codec wake_input = Inr out \<Longrightarrow> \<exists>r\<in>set (sn_Components (out_Snapshot out)). cr_State r = StateUnknown"
  using wake_evaluates by (auto split: sum.splits)

lemma wake_before:
  "\<exists>r0\<in>set (sn_Components wake_prior). cr_Component r0 = ComponentPhysicalNetwork \<and> cr_HostSequence r0 \<noteq> 0"
  by (auto simp: wake_prior_def Components_def new_record_def)

text \<open>
  C15: a settled state is current. A component that a snapshot reports as ready, degraded, failed or
  not applicable is what its owner asserted in the boot of the reduction, the freshness deadline of
  that assertion has not passed, it is not awaiting a restatement since a wake or a reboot (its
  rebaseline flag is clear), and its owner has no unresolved conflict. The baselines a source owes
  since a gap are another matter: they hold back the aggregate state, not the component.
\<close>

theorem settled_is_current:
  assumes "Reduce cd i = Inr out" "r \<in> set (sn_Components (out_Snapshot out))"
    and "cr_State r \<in> {StateReady, StateDegraded, StateFailed, StateNotApplicable}"
  shows "cr_BootID r = in_BootID i \<and> in_EvaluationTick i \<le> cr_FreshnessDeadline r \<and>
    \<not> cr_RebaselineRequired r \<and> cr_Conflicts r = 0 \<and>
    (\<forall>w\<in>set (sn_Sources (out_Snapshot out)). wm_Source w = cr_Source r \<longrightarrow> wm_Conflicts w = 0) \<and>
    cr_State r = cr_Observed r"
  using assms(1)
proof (cases rule: Reduce_E)
  case (1 s changed)
  obtain q where q: "r = render_component q (fo_sources s) i"
    using out_record(2)[OF 1(3) assms(2)[unfolded 1(4)]] by blast
  have state: "cr_State r = deriveState r i" using render_component_state[of q] q by simp
  note local = deriveState_settled[OF assms(3)[unfolded state]] state
  have "cr_Conflicts r = (case map_of (fo_sources s) (cr_Source r) of Some w \<Rightarrow> wm_Conflicts w | None \<Rightarrow> 0)"
    by (simp add: q render_component_def Let_def)
  moreover have ok: "sources_ok (fo_sources s)" using 1(3) by (simp add: fold_ok_def)
  moreover have "sn_Sources (out_Snapshot out) = renderSources (fo_sources s)" by (subst 1(5)) simp
  moreover have "wm_Conflicts w = 0" if w: "w \<in> set (renderSources (fo_sources s))" "wm_Source w = cr_Source r"
    "(case map_of (fo_sources s) (cr_Source r) of Some w \<Rightarrow> wm_Conflicts w | None \<Rightarrow> 0) = 0" for w
  proof -
    obtain k w0 where w0: "(k, w0) \<in> set (fo_sources s)"
      "w = w0\<lparr>wm_Gaps := sort_slice gap_From (wm_Gaps w0), wm_PendingBaseline := sort_slice (\<lambda>c. c) (wm_PendingBaseline w0)\<rparr>"
      using w(1) by (auto simp: set_renderSources)
    then have "map_of (fo_sources s) (wm_Source w0) = Some w0" using ok by (auto simp: sources_ok_def)
    then show ?thesis using w(2,3) w0 by simp
  qed
  ultimately show ?thesis using local by auto
qed

theorem settled_is_current_witness:
  "\<exists>out r. Reduce flat_codec wake_input = Inr out \<and> r \<in> set (sn_Components (out_Snapshot out)) \<and>
     cr_State r = StateReady \<and> cr_BootID r = ''boot-1'' \<and> 7 \<le> cr_FreshnessDeadline r"
proof -
  obtain out r where w: "Reduce flat_codec wake_input = Inr out" "r \<in> set (sn_Components (out_Snapshot out))"
    "cr_Component r = ComponentPhysicalNetwork" "cr_State r = StateReady" using wake_reduces by blast
  have "in_BootID wake_input = ''boot-1''" "in_EvaluationTick wake_input = 7"
    by (simp_all add: wake_input_def sample_input_def)
  then show ?thesis using settled_is_current[OF w(1,2)] w by auto
qed

text \<open>
  C16: sleep and reboot are not evidence of health. When a reduction carries a wake, or the boot
  changed since the prior snapshot, a time-sensitive component that had been observed before is
  reported as anything but stale, conflict or unknown only if the batch contains an accepted
  baseline in which the component's own owner restated it.
\<close>

theorem wake_needs_baseline:
  assumes "Reduce cd i = Inr out" "in_Prior i = Some p"
    and "in_Wake i \<noteq> None \<or> sn_BootID p \<noteq> in_BootID i"
    and "r0 \<in> set (sn_Components p)" "cr_HostSequence r0 \<noteq> 0" "TimeSensitive (cr_Component r0)"
    and "r \<in> set (sn_Components (out_Snapshot out))" "cr_Component r = cr_Component r0"
    and "cr_State r \<in> {StateReady, StateDegraded, StateFailed, StateNotApplicable}"
  shows "\<exists>e\<in>set (in_Events i). ev_owner e \<and> f_Component (ev_Fact e) = cr_Component r \<and> f_Baseline (ev_Fact e)"
proof -
  obtain s r1 q where "reduce_events (fold_start i) (in_Events i) = Inr s"
    and r1: "map_of (newComponentTable (in_Prior i)) (cr_Component r) = Some r1"
    and rq: "r = render_component q (fo_sources s) i" and "cr_Source r = cr_Source r1"
    and view: "owner_view r = owner_view (fold (\<lambda>e r. observe r e) (owner_events (cr_Component r) (in_Events i))
       (if withdrawn i (cr_Component r) r1 then r1\<lparr>cr_RebaselineRequired := True\<rparr> else r1))"
    by (rule out_record_origin[OF assms(1,7)])
  have "r1 = r0"
    using r1 assms(2,8) newComponentTable_prior[OF reduced_prior[OF assms(1,2)] assms(4)] by simp
  then have "withdrawn i (cr_Component r) r1"
    unfolding withdrawn_def using assms(2,3,5,6,8) by simp
  with view have "cr_RebaselineRequired r = cr_RebaselineRequired (fold (\<lambda>e r. observe r e)
      (owner_events (cr_Component r) (in_Events i)) (r1\<lparr>cr_RebaselineRequired := True\<rparr>))"
    by (simp add: owner_view_def)
  moreover have "cr_State r = deriveState r i" using render_component_state[of q] rq by simp
  moreover note deriveState_settled(3)[OF assms(9)[unfolded calculation(2)]]
  ultimately have "\<exists>e\<in>set (owner_events (cr_Component r) (in_Events i)). f_Baseline (ev_Fact e)"
    by (intro observes_rebaseline[of "r1\<lparr>cr_RebaselineRequired := True\<rparr>"]) simp_all
  then show ?thesis by (auto simp: owner_events_def)
qed

theorem wake_needs_baseline_witness:
  "\<exists>e\<in>set (in_Events wake_input). ev_owner e \<and> f_Component (ev_Fact e) = ComponentPhysicalNetwork \<and> f_Baseline (ev_Fact e)"
proof -
  obtain out r where w: "Reduce flat_codec wake_input = Inr out" "r \<in> set (sn_Components (out_Snapshot out))"
    "cr_Component r = ComponentPhysicalNetwork" "cr_State r = StateReady" using wake_reduces by blast
  obtain r0 where r0: "r0 \<in> set (sn_Components wake_prior)" "cr_Component r0 = ComponentPhysicalNetwork" "cr_HostSequence r0 \<noteq> 0"
    using wake_before by blast
  have i: "in_Prior wake_input = Some wake_prior" "in_Wake wake_input \<noteq> None" by (simp_all add: wake_input_def)
  have "TimeSensitive ComponentPhysicalNetwork" by code_simp
  then show ?thesis
    using wake_needs_baseline[OF w(1) i(1) disjI1[OF i(2)] r0(1,3) _ w(2)] w(3,4) r0(2) by simp
qed

end
