(* ===== verification/Output_Laws.thy ===== *)
theory Output_Laws
  imports Reduction_Laws
begin

text \<open>
  What a reduction publishes beside the component states: the aggregate summary, the snapshot
  generation, the retained conflict records and the reconciliation proposals.
\<close>

section \<open>Summary and generation\<close>

lemma su_State_cong:
  "sn_Components s = sn_Components t \<Longrightarrow> sn_Sources s = sn_Sources t \<Longrightarrow> sn_Authorization s = sn_Authorization t \<Longrightarrow>
   sn_Reason s = sn_Reason t \<Longrightarrow> summarize s o' = summarize t o'"
  by (simp add: summarize_def)

lemma assemble_summary:
  "sn_Summary (assemble i s cs) = summarize (assemble i s cs) (snd (renderConflicts (fo_conflicts s)))"
  unfolding assemble_def Let_def by (auto intro!: su_State_cong split: prod.splits)

text \<open>
  C17: the aggregate state is honest. The published aggregate is failed if some component failed;
  otherwise degraded if some component is degraded, stale or in conflict or the evidence of some
  source is incomplete (an open or forgotten gap, an owed restatement, a conflict); otherwise unknown
  if some component is unknown; and ready only if every component is ready or not applicable and
  every source is whole. The 16-bit counters it is computed from do not wrap.
\<close>

theorem aggregate_honest:
  assumes "Reduce cd i = Inr out" "length (sn_Sources (out_Snapshot out)) < 2 ^ 16"
  shows "su_State (sn_Summary (out_Snapshot out)) =
    (if \<exists>r\<in>set (sn_Components (out_Snapshot out)). cr_State r = StateFailed then AggregateFailed
     else if (\<exists>r\<in>set (sn_Components (out_Snapshot out)). cr_State r \<in> {StateDegraded, StateStale, StateConflict}) \<or>
             (\<exists>w\<in>set (sn_Sources (out_Snapshot out)). impaired w) then AggregateDegraded
     else if \<exists>r\<in>set (sn_Components (out_Snapshot out)). cr_State r \<notin> {StateReady, StateNotApplicable}
       then AggregateUnknown
     else AggregateReady)"
  using assms(1)
proof (cases rule: Reduce_E)
  case (1 s changed)
  let ?a = "assemble i s (sn_Components (out_Snapshot out))"
  have "sn_Summary (out_Snapshot out) = sn_Summary ?a" "sn_Sources (out_Snapshot out) = sn_Sources ?a"
    "sn_Components (out_Snapshot out) = sn_Components ?a"
    by (subst 1(5), simp)+
  moreover have "length (sn_Components (out_Snapshot out)) = length Components" unfolding 1(4) by simp
  moreover have "length Components < 2 ^ 16" by (simp add: Components_def)
  moreover have "\<forall>w\<in>set (sn_Sources (out_Snapshot out)). watermark_bounded w"
    using 1(8) by (simp add: Snapshot_Validate_None_iff)
  ultimately show ?thesis
    using summarize_state[of ?a] assms(2) by (simp add: assemble_summary)
qed

theorem aggregate_honest_witness:
  "\<exists>out. Reduce flat_codec wake_input = Inr out \<and> su_State (sn_Summary (out_Snapshot out)) \<noteq> AggregateReady"
proof -
  obtain out p where w: "Reduce flat_codec wake_input = Inr out" "length (sn_Sources (out_Snapshot out)) = 1"
    "p \<in> set (out_Proposals out)" using wake_reduces by blast
  obtain r where "r \<in> set (sn_Components (out_Snapshot out))" "cr_State r = StateUnknown"
    using wake_unready[OF w(1)] by blast
  then show ?thesis using aggregate_honest[OF w(1)] w(2) by (auto simp: w(1) go_consts)
qed

section \<open>Generation\<close>

text \<open>
  C18: the generation moves exactly with the content. Relative to a prior snapshot, the published
  generation is one higher if the semantic content differs and the same if it does not, and the
  change flag says which, provided the digest does not collide on these two contents.
\<close>

theorem generation_iff_change:
  assumes "Reduce cd i = Inr out" "in_Prior i = Some p"
    and "SemanticDigest cd p = SemanticDigest cd (out_Snapshot out) \<Longrightarrow>
         json_semantic (project p) = json_semantic (project (out_Snapshot out))"
  shows "sn_Generation (out_Snapshot out) =
      (if project (out_Snapshot out) = project p then sn_Generation p else sn_Generation p + 1) \<and>
    (out_Changed out \<longleftrightarrow> project (out_Snapshot out) \<noteq> project p)"
  using assms(1)
proof (cases rule: Reduce_E)
  case (1 s changed)
  let ?a = "assemble i s (sn_Components (out_Snapshot out))"
  have same: "project (out_Snapshot out) = project ?a"
    by (subst 1(5)) (simp add: project_def)
  obtain b a where dig: "SemanticDigest cd p = Inr b" "SemanticDigest cd ?a = Inr a" "changed \<longleftrightarrow> b \<noteq> a"
    using 1(6) assms(2) by (auto simp: effective_def split: sum.splits)
  have "SemanticDigest cd (out_Snapshot out) = Inr a"
    using dig(2) by (simp add: SemanticDigest_def same)
  then have "b = a \<Longrightarrow> project p = project (out_Snapshot out)"
    using assms(3) dig(1) by (simp add: json_semantic_inject)
  moreover have "project p = project (out_Snapshot out) \<Longrightarrow> b = a"
    using dig(1,2) by (simp add: SemanticDigest_def same)
  ultimately have "changed \<longleftrightarrow> project (out_Snapshot out) \<noteq> project p"
    using dig(3) by metis
  moreover have "sn_Generation (out_Snapshot out) = sn_Generation p + (if changed then 1 else 0)"
    by (subst 1(5)) (simp add: assms(2))
  ultimately show ?thesis using 1(7) by simp
qed

text \<open>A reduction of no events over the first snapshot of a host.\<close>

definition quiet_prior :: Snapshot where
  "quiet_prior = (assemble sample_input (fold_start sample_input) (map new_record Components))\<lparr>sn_Generation := 1\<rparr>"

definition quiet_input :: Input where
  "quiet_input = sample_input\<lparr>in_Prior := Some quiet_prior, in_Events := []\<rparr>"

lemma quiet_fields [simp]:
  "sn_Components quiet_prior = map new_record Components" "sn_Sources quiet_prior = []"
  "sn_Conflicts quiet_prior = []" "sn_Generation quiet_prior = 1" "sn_BootID quiet_prior = ''boot-1''"
  "sn_Policy quiet_prior = sample_policy" "sn_EvaluationTick quiet_prior = 5"
  "sn_ConsumedHostSequence quiet_prior = 0" "sn_ConsumedFoldPosition quiet_prior = 0"
  "in_Prior quiet_input = Some quiet_prior" "in_Events quiet_input = []" "in_BootID quiet_input = ''boot-1''"
  "in_EvaluationTick quiet_input = 5" "in_Policy quiet_input = sample_policy" "in_Wake quiet_input = None"
  "in_PolicyComponents quiet_input = []" "in_PriorFolded quiet_input = 0" "in_PriorConsumed quiet_input = 0"
  by (simp_all add: quiet_prior_def quiet_input_def sample_input_def fold_start_def newSourceTable_def
      newConflictTable_def renderSources_def renderConflicts_def)

lemma render_new [simp]: "render_component (new_record c) [] i = new_record c"
  by (simp add: render_component_def deriveState_def new_record_def sortedCorroborations_def)

lemma quiet_valid: "Snapshot_Validate quiet_prior = None"
proof -
  let ?s = "fold_start sample_input"
  have "validateInput sample_input = None"
    using sample_reduces by (auto simp: Reduce_def split: option.splits)
  from fold_start_ok[OF this] have ok: "fold_ok ?s" .
  have [simp]: "fo_sources ?s = []" by (simp add: fold_start_def sample_input_def newSourceTable_def)
  have "map_of (fo_components ?s) c = Some (new_record c)" if "c \<in> set Components" for c
    using that by (simp add: fold_start_record) (simp add: withdrawn_def sample_input_def newComponentTable_def map_of_keyed)
  then have "map new_record Components =
      map (\<lambda>c. render_component (the (map_of (fo_components ?s) c)) (fo_sources ?s) sample_input) Components"
    by simp
  from assemble_valid[OF ok _ _ this] show ?thesis unfolding quiet_prior_def by simp
qed

lemma quiet_carries: "carries New quiet_input" "input_ok quiet_input"
proof -
  have "represents New quiet_prior"
    by (simp add: represents_def tracks_def keyed_sources_def New_def)
  moreover have "domains_ok quiet_prior"
    using owned.authority_total compiled_domains by (fastforce simp: domains_ok_def new_record_def)
  ultimately show "carries New quiet_input" by (simp add: carries_def quiet_valid)
  show "input_ok quiet_input" by (simp add: input_ok_def entries_ok_def)
qed

lemma quiet_fold:
  "fo_sources (fold_start quiet_input) = []" "fo_conflicts (fold_start quiet_input) = []"
  "c \<in> set Components \<Longrightarrow> map_of (fo_components (fold_start quiet_input)) c = Some (new_record c)"
proof -
  show "fo_sources (fold_start quiet_input) = []" "fo_conflicts (fold_start quiet_input) = []"
    by (simp_all add: fold_start_def newSourceTable_def newConflictTable_def)
  assume "c \<in> set Components"
  then show "map_of (fo_components (fold_start quiet_input)) c = Some (new_record c)"
    using newComponentTable_prior[OF quiet_valid, of "new_record c"]
    by (simp add: fold_start_record) (simp add: withdrawn_def new_record_def)
qed

lemma quiet_content:
  "project (assemble quiet_input (fold_start quiet_input) (map new_record Components)) = project quiet_prior"
proof -
  have auth: "authorize sample_policy (Some quiet_prior) = authorize sample_policy None"
    by (simp add: authorize_def)
  moreover have "sn_Authorization quiet_prior = fst (authorize sample_policy None)"
    "sn_Reason quiet_prior = snd (authorize sample_policy None)"
    by (simp_all add: quiet_prior_def sample_input_def)
  moreover have "sn_Summary quiet_prior = summarize quiet_prior False"
    unfolding quiet_prior_def
    by (simp add: assemble_summary)
      (auto intro!: su_State_cong simp: fold_start_def sample_input_def newConflictTable_def renderConflicts_def)
  ultimately show ?thesis
    by (simp add: project_def quiet_fold assemble_summary)
      (auto intro!: su_State_cong simp: quiet_fold renderSources_def renderConflicts_def)
qed

lemma quiet_reduces:
  "\<exists>out. Reduce flat_codec quiet_input = Inr out \<and> project (out_Snapshot out) = project quiet_prior"
proof -
  have "run_steps (Accept flat_codec) New [] = ([], New)" "in_Events quiet_input = events_of (zip [] [])"
    by (simp_all add: events_of_def)
  then obtain out where out: "Reduce flat_codec quiet_input = Inr out"
    using pipeline_batch[OF sample_carries(1) quiet_carries] flat_encodes by metis
  then show ?thesis
  proof (cases rule: Reduce_E)
    case (1 s changed)
    have s: "s = fold_start quiet_input" using 1(2) by simp
    have "sn_Components (out_Snapshot out) = map new_record Components"
      unfolding 1(4) s by (simp add: quiet_fold)
    note content = quiet_content[folded this s]
    have "project (out_Snapshot out) = project (assemble quiet_input s (sn_Components (out_Snapshot out)))"
      by (subst 1(5)) (simp add: project_def)
    then show ?thesis using out content by auto
  qed
qed

theorem generation_iff_change_witness:
  "\<exists>out. Reduce flat_codec quiet_input = Inr out \<and> sn_Generation (out_Snapshot out) = 1 \<and> \<not> out_Changed out"
proof -
  obtain out where out: "Reduce flat_codec quiet_input = Inr out" "project (out_Snapshot out) = project quiet_prior"
    using quiet_reduces by blast
  have "in_Prior quiet_input = Some quiet_prior" "sn_Generation quiet_prior = 1"
    by (simp_all add: quiet_input_def quiet_prior_def)
  then show ?thesis using generation_iff_change[OF out(1), of quiet_prior] out by auto
qed

section \<open>Conflict records\<close>

lemma conflicts_of_sorted:
  "sorted (map (\<lambda>r. (cf_Sequence r, cf_Component r)) (conflicts_of s rs))"
  by (simp add: conflicts_of_def sort_slice_def)

lemma conflict_records_distinct: "conflicts_ok t \<Longrightarrow> distinct (map snd t)"
proof -
  assume "conflicts_ok t"
  then have "map fst t = map conflict_key_of (map snd t)" "distinct (map fst t)"
    by (auto simp: conflicts_ok_def)
  then show "distinct (map snd t)" by (metis distinct_map)
qed

lemma last_n_all_iff:
  assumes "distinct xs"
  shows "set (last_n n xs) = set xs \<longleftrightarrow> length xs \<le> n"
proof
  assume "set (last_n n xs) = set xs"
  then have "card (set (last_n n xs)) = length xs" using assms by (simp add: distinct_card)
  moreover have "card (set (last_n n xs)) \<le> n"
    using card_length[of "last_n n xs"] by (simp add: last_n_def)
  ultimately show "length xs \<le> n" by simp
qed (simp add: last_n_def)

lemma renderConflicts_mem:
  "r \<in> set (fst (renderConflicts t)) \<longleftrightarrow> r \<in> set (last_n MaxConflictRecords (conflicts_of (cf_Source r) (map snd t)))"
  using mset_eq_setD[OF renderConflicts_of_source[of "cf_Source r" t]] by auto

text \<open>
  C19: what a snapshot forgets of a conflict is the oldest. Of the conflict records a fold has
  collected, the snapshot keeps at most the bound per source; a record it drops is no newer than
  any record it keeps of the same source; and it reports an overflow exactly if it dropped one.
\<close>

theorem conflicts_keep_newest:
  assumes "conflicts_ok t"
  shows "(\<forall>s. length (filter (\<lambda>r. cf_Source r = s) (fst (renderConflicts t))) \<le> MaxConflictRecords) \<and>
    set (fst (renderConflicts t)) \<subseteq> set (map snd t) \<and>
    (\<forall>r\<in>set (fst (renderConflicts t)). \<forall>q\<in>set (map snd t) - set (fst (renderConflicts t)).
       cf_Source q = cf_Source r \<longrightarrow> (cf_Sequence q, cf_Component q) \<le> (cf_Sequence r, cf_Component r)) \<and>
    (snd (renderConflicts t) \<longleftrightarrow> set (fst (renderConflicts t)) \<noteq> set (map snd t))"
proof -
  let ?c = "\<lambda>s. conflicts_of s (map snd t)"
  have mem: "q \<in> set (?c s) \<longleftrightarrow> q \<in> set (map snd t) \<and> cf_Source q = s" for q s
    by (auto simp: conflicts_of_def)
  have dist: "distinct (?c s)" for s
    using conflict_records_distinct[OF assms] by (simp add: conflicts_of_def sort_slice_def)
  have sub: "set (fst (renderConflicts t)) \<subseteq> set (map snd t)"
    using conflicts_of_source by (auto simp: renderConflicts_mem simp del: set_map)
  have newest: "(cf_Sequence q, cf_Component q) \<le> (cf_Sequence r, cf_Component r)"
    if "r \<in> set (fst (renderConflicts t))" "q \<in> set (map snd t) - set (fst (renderConflicts t))"
      "cf_Source q = cf_Source r" for q r
    using that mem by (intro last_n_newest[OF conflicts_of_sorted dist, of r MaxConflictRecords "cf_Source r"])
      (auto simp: renderConflicts_mem)
  have all_kept: "set (last_n MaxConflictRecords (?c s)) = set (?c s) \<longleftrightarrow> length (?c s) \<le> MaxConflictRecords" for s
    using last_n_all_iff[OF dist] .
  have nonempty: "s \<in> cf_Source ` set (map snd t)" if "length (?c s) > MaxConflictRecords" for s
  proof -
    have "?c s \<noteq> []" using that by auto
    then have "hd (?c s) \<in> set (?c s)" by simp
    then show ?thesis unfolding mem by (metis imageI)
  qed
  have "snd (renderConflicts t) \<longleftrightarrow> (\<exists>s. length (?c s) > MaxConflictRecords)"
    using nonempty by (auto simp: renderConflicts_def Let_def list_ex_iff)
  also have "\<dots> \<longleftrightarrow> (\<exists>s. set (last_n MaxConflictRecords (?c s)) \<noteq> set (?c s))"
    unfolding all_kept not_le ..
  also have "\<dots> \<longleftrightarrow> set (fst (renderConflicts t)) \<noteq> set (map snd t)"
  proof -
    have "set (last_n MaxConflictRecords (?c s)) = {r \<in> set (fst (renderConflicts t)). cf_Source r = s}" for s
      using conflicts_of_source by (auto simp: renderConflicts_mem simp del: set_map)
    moreover have "set (?c s) = {r \<in> set (map snd t). cf_Source r = s}" for s
      using mem by blast
    ultimately show ?thesis by (simp only:) blast
  qed
  finally have overflow: "snd (renderConflicts t) \<longleftrightarrow> set (fst (renderConflicts t)) \<noteq> set (map snd t)" .
  have bound: "length (filter (\<lambda>r. cf_Source r = s) (fst (renderConflicts t))) \<le> MaxConflictRecords" for s
    using mset_eq_length[OF renderConflicts_of_source[of s t]] by simp
  show ?thesis using sub newest overflow bound by (intro conjI allI ballI impI) blast+
qed

definition nine_conflicts :: conflict_table where
  "nine_conflicts = map (\<lambda>n. ((''root.network'', ComponentPhysicalNetwork, n),
     \<lparr>cf_Source = ''root.network'', cf_Component = ComponentPhysicalNetwork, cf_Sequence = n,
      cf_Reason = AReasonIdentityReused, cf_Count = 1\<rparr>)) [1, 2, 3, 4, 5, 6, 7, 8, 9]"

theorem conflicts_keep_newest_witness:
  "snd (renderConflicts nine_conflicts) \<and>
   set (fst (renderConflicts nine_conflicts)) \<noteq> set (map snd nine_conflicts)"
proof -
  have "conflicts_ok nine_conflicts" by (simp add: conflicts_ok_def nine_conflicts_def conflict_key_of_def)
  moreover have "snd (renderConflicts nine_conflicts)"
    by (simp add: renderConflicts_def Let_def nine_conflicts_def conflicts_of_def MaxConflictRecords_def)
  ultimately show ?thesis using conflicts_keep_newest[of nine_conflicts] by blast
qed

section \<open>Proposals\<close>

lemma propose_entries_mem:
  assumes "propose_entries cd s dd es = Inr ps" "p \<in> set ps"
  shows "\<exists>e\<in>set es. \<exists>c. proposalClass (di_Classification e) = Some c \<and> propose_entry cd s dd e c = Inr p"
  using assms
proof (induction es arbitrary: ps)
  case (Cons e es)
  show ?case
  proof (cases "proposalClass (di_Classification e)")
    case None
    then show ?thesis using Cons by auto
  next
    case (Some c)
    then obtain q qs where "propose_entry cd s dd e c = Inr q" "propose_entries cd s dd es = Inr qs" "ps = q # qs"
      using Cons.prems(1) by (auto split: sum.splits)
    then show ?thesis using Cons.IH[of qs] Cons.prems(2) Some by auto
  qed
qed simp

lemma propose_entry_ok:
  assumes "propose_entry cd s dd e c = Inr p"
  shows "VerifyCurrent cd p s dd = None" "pr_Target p = di_Component e" "pr_Domain p = di_Domain e"
    "pr_Class p = c" "pr_Reason p = di_Reason e"
  using assms by (auto simp: propose_entry_def VerifyCurrent_def Let_def split: sum.splits option.splits prod.splits)

lemma reduced_valid: "Reduce cd i = Inr out \<Longrightarrow> Snapshot_Validate (out_Snapshot out) = None"
  by (erule Reduce_E)

lemma proposalBody_inject: "proposalBody q = proposalBody p \<Longrightarrow> pr_Digest q = pr_Digest p \<Longrightarrow> q = p"
  by (cases q; cases p) (simp add: proposalBody_def)

lemma map_of_fold_update_mem:
  assumes "distinct (map k ws)" "w \<in> set ws"
  shows "map_of (fold (\<lambda>w. AList.update (k w) w) ws t) (k w) = Some w"
proof -
  have "map_of (map (\<lambda>w. (k w, w)) ws) (k w) = Some w"
    using assms by (intro map_of_is_SomeI) (auto simp: comp_def)
  then show ?thesis by (simp add: map_of_fold_update[OF assms(1)])
qed

text \<open>Where a proposal of a reduction comes from.\<close>

lemma proposal_origin:
  assumes "Reduce cd i = Inr out" "p \<in> set (out_Proposals out)"
  obtains r w dd where "sn_Authorization (out_Snapshot out) = AuthorizationAuthorized" "Authorized (in_Policy i)"
    "authorize (in_Policy i) (in_Prior i) = (AuthorizationAuthorized, AuthorizationReasonNone)"
    "Diff_Digest cd (out_Diff out) = Inr dd" "VerifyCurrent cd p (out_Snapshot out) dd = None"
    "r \<in> set (sn_Components (out_Snapshot out))" "w \<in> set (ds_Components (out_Desired out))"
    "cr_Component r = pr_Target p" "dc_Component w = pr_Target p"
    "proposalClass (fst (classify r w (in_Prior i) (out_Snapshot out))) = Some (pr_Class p)"
  using assms(1)
proof (cases rule: Reduce_E)
  case (1 s changed)
  let ?s = "out_Snapshot out"
  have auth: "sn_Authorization ?s = AuthorizationAuthorized" "Authorized (in_Policy i)"
    using 1(11) assms(2) Desire_ok(1)[OF 1(9)] by (auto simp: Propose_def 1(10) Compare_def Let_def split: if_splits)
  obtain dd where dd: "Diff_Digest cd (out_Diff out) = Inr dd"
    "propose_entries cd ?s dd (df_Components (out_Diff out)) = Inr (out_Proposals out)"
    using 1(11) assms(2) by (auto simp: Propose_def split: if_splits sum.splits)
  obtain e c where e: "e \<in> set (df_Components (out_Diff out))" "proposalClass (di_Classification e) = Some c"
    "propose_entry cd ?s dd e c = Inr p" using propose_entries_mem[OF dd(2) assms(2)] by blast
  note p = propose_entry_ok[OF e(3)]
  let ?wanted = "fold (\<lambda>c m. AList.update (dc_Component c) c m) (ds_Components (out_Desired out)) []"
  obtain r where r: "r \<in> set (sn_Components ?s)" "di_Component e = cr_Component r"
    "di_Classification e = fst (classify r (case map_of ?wanted (cr_Component r) of
       None \<Rightarrow> DesiredComponent_zero | Some w \<Rightarrow> w) (in_Prior i) ?s)"
    using e(1) auth Desire_ok(1)[OF 1(9)] unfolding 1(10) by (auto simp: Compare_def Let_def split: prod.splits)
  have comps: "map dc_Component (ds_Components (out_Desired out)) = Components" by (rule Desire_ok(3)[OF 1(9)])
  moreover have "cr_Component r \<in> set Components"
    using r(1) 1(8) by (metis Snapshot_Validate_None_iff image_eqI set_map)
  ultimately obtain w where w: "w \<in> set (ds_Components (out_Desired out))" "dc_Component w = cr_Component r"
    by (metis imageE set_map)
  moreover have "map_of ?wanted (cr_Component r) = Some w"
    using map_of_fold_update_mem[of dc_Component "ds_Components (out_Desired out)" w] comps w by simp
  moreover have "authorize (in_Policy i) (in_Prior i) = (AuthorizationAuthorized, AuthorizationReasonNone)"
    using auth(1) by (subst (asm) 1(5)) (auto simp: authorize_def go_consts split: if_splits)
  ultimately show thesis using that[OF auth _ dd(1) p(1) r(1) w(1)] r p e(2) by simp
qed

lemma pinMismatch_classes:
  "pinMismatch r e = Some (c, why) \<Longrightarrow> c = ClassDivergent \<or> c = ClassMissing"
  by (auto simp: pinMismatch_def Let_def below_def split: if_splits)

lemma classify_unexpected:
  assumes "ComponentState_valid (cr_State r)" "fst (classify r w prior s) = ClassUnexpected"
  shows "cr_State r \<in> {StateReady, StateDegraded, StateFailed} \<and>
    (\<not> dc_Managed w \<or> ex_Lifecycle (dc_Expect w) = LifecycleNotApplicable) \<and>
    \<not> establishedUnderEarlierPolicy r prior s"
proof (cases "pinMismatch r (dc_Expect w)")
  case None
  then show ?thesis
    using assms by (auto simp: classify_def ComponentState_valid_def go_consts split: if_splits)
next
  case (Some m)
  obtain c why where m: "m = (c, why)" by force
  then have "c \<noteq> ClassUnexpected" using Some pinMismatch_classes[of r] by (auto simp: go_consts)
  then show ?thesis
    using assms Some m by (auto simp: classify_def ComponentState_valid_def go_consts split: if_splits)
qed

text \<open>
  C20: proposals speak for the snapshot they come with. Every proposal of a reduction passes the
  check a consumer makes against that very snapshot and diff, and exists only under a policy that is
  present, valid, not suspended and does not regress any generation of the prior snapshot's policy;
  its class is the one the classification of its target asks for.
\<close>

theorem proposals_current:
  assumes "Reduce cd i = Inr out" "p \<in> set (out_Proposals out)"
  shows "\<exists>dd. Diff_Digest cd (out_Diff out) = Inr dd \<and> VerifyCurrent cd p (out_Snapshot out) dd = None \<and>
    pd_Present (in_Policy i) \<and> pd_Valid (in_Policy i) \<and> \<not> pd_Suspended (in_Policy i) \<and>
    (\<forall>q. in_Prior i = Some q \<and> pd_Present (sn_Policy q) \<longrightarrow>
       pd_BundleGeneration (sn_Policy q) \<le> pd_BundleGeneration (in_Policy i) \<and>
       pd_RootGeneration (sn_Policy q) \<le> pd_RootGeneration (in_Policy i) \<and>
       pd_UserGeneration (sn_Policy q) \<le> pd_UserGeneration (in_Policy i)) \<and>
    (\<exists>e\<in>set (df_Components (out_Diff out)). di_Component e = pr_Target p)"
proof -
  obtain r w dd where o: "authorize (in_Policy i) (in_Prior i) = (AuthorizationAuthorized, AuthorizationReasonNone)"
    "Diff_Digest cd (out_Diff out) = Inr dd" "VerifyCurrent cd p (out_Snapshot out) dd = None"
    "r \<in> set (sn_Components (out_Snapshot out))" "cr_Component r = pr_Target p"
    using proposal_origin[OF assms] by metis
  have "map di_Component (df_Components (out_Diff out)) = map cr_Component (sn_Components (out_Snapshot out))"
    using assms(1) by (cases rule: Reduce_E) (simp add: Compare_def Let_def case_prod_beta comp_def)
  then have "\<exists>e\<in>set (df_Components (out_Diff out)). di_Component e = pr_Target p"
    using o(4,5) by (metis imageE image_eqI set_map)
  moreover have "pd_Present (in_Policy i) \<and> pd_Valid (in_Policy i) \<and> \<not> pd_Suspended (in_Policy i)"
    "\<forall>q. in_Prior i = Some q \<and> pd_Present (sn_Policy q) \<longrightarrow>
       pd_BundleGeneration (sn_Policy q) \<le> pd_BundleGeneration (in_Policy i) \<and>
       pd_RootGeneration (sn_Policy q) \<le> pd_RootGeneration (in_Policy i) \<and>
       pd_UserGeneration (sn_Policy q) \<le> pd_UserGeneration (in_Policy i)"
    using o(1) by (auto simp: authorize_def go_consts not_less split: if_splits)
  ultimately show ?thesis using o(2,3) by blast
qed

theorem proposals_current_witness:
  "\<exists>out p dd. Reduce flat_codec wake_input = Inr out \<and> p \<in> set (out_Proposals out) \<and>
     VerifyCurrent flat_codec p (out_Snapshot out) dd = None"
proof -
  obtain out p where w: "Reduce flat_codec wake_input = Inr out" "p \<in> set (out_Proposals out)"
    using wake_reduces by blast
  then show ?thesis using proposals_current[OF w] by blast
qed

text \<open>
  C21: withdrawal is never a surprise. A reduction proposes to withdraw a component only if the
  component is currently observed as ready, degraded or failed, desired state does not manage it or
  expects it to be not applicable, and it was not already running under an earlier policy.
\<close>

theorem withdraw_only_excluded:
  assumes "Reduce cd i = Inr out" "p \<in> set (out_Proposals out)" "pr_Class p = ProposalWithdraw"
  shows "\<exists>r\<in>set (sn_Components (out_Snapshot out)). \<exists>w\<in>set (ds_Components (out_Desired out)).
    cr_Component r = pr_Target p \<and> dc_Component w = pr_Target p \<and>
    cr_State r \<in> {StateReady, StateDegraded, StateFailed} \<and>
    (\<not> dc_Managed w \<or> ex_Lifecycle (dc_Expect w) = LifecycleNotApplicable) \<and>
    \<not> establishedUnderEarlierPolicy r (in_Prior i) (out_Snapshot out)"
proof -
  obtain r w where o: "r \<in> set (sn_Components (out_Snapshot out))" "w \<in> set (ds_Components (out_Desired out))"
    "cr_Component r = pr_Target p" "dc_Component w = pr_Target p"
    "proposalClass (fst (classify r w (in_Prior i) (out_Snapshot out))) = Some ProposalWithdraw"
    using proposal_origin[OF assms(1,2)] assms(3) by metis
  have "ComponentState_valid (cr_State r)"
    using reduced_valid[OF assms(1)] o(1) by (simp add: Snapshot_Validate_None_iff)
  moreover have "fst (classify r w (in_Prior i) (out_Snapshot out)) = ClassUnexpected"
    using o(5) by (auto simp: proposalClass_def go_consts split: if_splits)
  ultimately show ?thesis using o(1-4) classify_unexpected by blast
qed

theorem withdraw_only_excluded_witness:
  "\<exists>out. Reduce flat_codec wake_input = Inr out \<and>
     (\<exists>r\<in>set (sn_Components (out_Snapshot out)). cr_State r \<in> {StateReady, StateDegraded, StateFailed})"
proof -
  obtain out p where w: "Reduce flat_codec wake_input = Inr out" "p \<in> set (out_Proposals out)" "pr_Class p = ProposalWithdraw"
    using wake_reduces by blast
  then show ?thesis using withdraw_only_excluded[OF w] by blast
qed

text \<open>
  C22: proposals are bound to their content. Two proposals with one digest that both verify are the
  same proposal, so a proposal of which any field was changed while its digest was kept no longer
  verifies, provided the digest does not collide on the two bodies.
\<close>

theorem proposal_binds_content:
  assumes "Verify cd p = None" "pr_Digest q = pr_Digest p" "q \<noteq> p"
    and "map_sum id fst (CanonicalSHA256 cd (json_Proposal (proposalBody q))) =
           map_sum id fst (CanonicalSHA256 cd (json_Proposal (proposalBody p))) \<Longrightarrow>
         json_Proposal (proposalBody q) = json_Proposal (proposalBody p)"
  shows "Verify cd q \<noteq> None"
proof
  assume "Verify cd q = None"
  then have "map_sum id fst (CanonicalSHA256 cd (json_Proposal (proposalBody q))) =
      map_sum id fst (CanonicalSHA256 cd (json_Proposal (proposalBody p)))"
    using assms(1,2) by (auto simp: Verify_def split: if_splits sum.splits prod.splits)
  then have "proposalBody q = proposalBody p" using assms(4) json_Proposal_inject by blast
  then show False using assms(2,3) proposalBody_inject by blast
qed

definition sample_proposal :: "u64 \<Rightarrow> Proposal" where
  "sample_proposal n = \<lparr>pr_Schema = ProposalSchema, pr_Version = ProposalSchemaVersion,
     pr_SnapshotGeneration = n, pr_BundleGeneration = 1, pr_DomainPolicyGeneration = 1,
     pr_Domain = DomainRoot, pr_Target = ComponentDNS, pr_Class = ProposalObserve,
     pr_Reason = DiffReasonNotObserved, pr_DiffDigest = replicate 64 CHR ''d'', pr_Digest = replicate 64 CHR ''1''\<rparr>"

text \<open>A codec that tells these proposals apart by their snapshot generation.\<close>

definition generation_codec :: codec where
  "generation_codec = \<lparr>cd_marshal = (\<lambda>j. Some (if j = json_Proposal (proposalBody (sample_proposal 1)) then ''1'' else ''2'')),
     cd_transform = Some, cd_sha256 = (\<lambda>s. replicate 64 (hd s))\<rparr>"

theorem proposal_binds_content_witness: "Verify generation_codec (sample_proposal 2) \<noteq> None"
proof (rule proposal_binds_content[of generation_codec "sample_proposal 1"])
  have digests: "CanonicalSHA256 generation_codec (json_Proposal (proposalBody (sample_proposal 1))) = Inr (replicate 64 CHR ''1'', ''1'')"
    "CanonicalSHA256 generation_codec (json_Proposal (proposalBody (sample_proposal 2))) = Inr (replicate 64 CHR ''2'', ''2'')"
    by (simp_all add: CanonicalSHA256_def MarshalCanonical_def Canonicalize_def SHA256Hex_def generation_codec_def
        json_Proposal_inject MaxCanonicalJSONSize_def proposalBody_def sample_proposal_def)
  show "Verify generation_codec (sample_proposal 1) = None"
    by (simp add: Verify_def digests)
      (simp add: sample_proposal_def Component_Valid_def ProposalClass_valid_def go_consts)
  show "pr_Digest (sample_proposal 2) = pr_Digest (sample_proposal 1)" "sample_proposal 2 \<noteq> sample_proposal 1"
    by (simp_all add: sample_proposal_def)
  show "json_Proposal (proposalBody (sample_proposal 2)) = json_Proposal (proposalBody (sample_proposal 1))"
    if "map_sum id fst (CanonicalSHA256 generation_codec (json_Proposal (proposalBody (sample_proposal 2)))) =
      map_sum id fst (CanonicalSHA256 generation_codec (json_Proposal (proposalBody (sample_proposal 1))))"
    using that by (simp add: digests)
qed

end
