(* ===== verification/Control.thy ===== *)
theory Control
  imports Prelude
begin

text \<open>
  The recovery state machine (\<^verbatim>\<open>internal/control/machine.go\<close>, with the vocabulary of
  \<^verbatim>\<open>internal/control/types.go\<close>): policies and snapshots, the step function with its generation
  check, the backoff loop, the states a machine reaches and what every step keeps.

  \<^verbatim>\<open>control.Tick\<close> is an \<^verbatim>\<open>int64\<close>; here it is an \<open>int\<close> and every sum, difference and product the code
  forms is wrapped by \<open>int64\<close>, so that overflow is in the model. A Go method that mutates the machine
  returns the new machine beside its result.
\<close>

definition int64 :: "int \<Rightarrow> int" where
  "int64 x = (x + 2 ^ 63) mod 2 ^ 64 - 2 ^ 63"

lemma int64_id [simp]: "- (2 ^ 63) \<le> x \<Longrightarrow> x < 2 ^ 63 \<Longrightarrow> int64 x = x"
  by (simp add: int64_def)

section \<open>Vocabulary\<close>

type_synonym control_state = string

definition CtlSuspended :: control_state where [go_consts]: "CtlSuspended = ''SUSPENDED''"
definition CtlHealthy :: control_state where [go_consts]: "CtlHealthy = ''HEALTHY''"
definition CtlDegraded :: control_state where [go_consts]: "CtlDegraded = ''DEGRADED''"
definition CtlRecovering :: control_state where [go_consts]: "CtlRecovering = ''RECOVERING''"
definition CtlSafeMode :: control_state where [go_consts]: "CtlSafeMode = ''SAFE_MODE''"

definition State_Valid :: "control_state \<Rightarrow> bool" where
  "State_Valid s \<longleftrightarrow> s = CtlSuspended \<or> s = CtlHealthy \<or> s = CtlDegraded \<or> s = CtlRecovering \<or> s = CtlSafeMode"

type_synonym control_reason = string

definition CtlReasonNone :: control_reason where [go_consts]: "CtlReasonNone = ''none''"
definition CtlReasonProbeSucceeded :: control_reason where [go_consts]: "CtlReasonProbeSucceeded = ''probe_succeeded''"
definition CtlReasonProbeFailed :: control_reason where [go_consts]: "CtlReasonProbeFailed = ''probe_failed''"
definition CtlReasonFailureThreshold :: control_reason where [go_consts]: "CtlReasonFailureThreshold = ''failure_threshold''"
definition CtlReasonRecoveryAllowed :: control_reason where [go_consts]: "CtlReasonRecoveryAllowed = ''recovery_allowed''"
definition CtlReasonRecoveryBudget :: control_reason where [go_consts]: "CtlReasonRecoveryBudget = ''recovery_budget_exhausted''"
definition CtlReasonVerificationPassed :: control_reason where [go_consts]: "CtlReasonVerificationPassed = ''verification_passed''"
definition CtlReasonCooldownElapsed :: control_reason where [go_consts]: "CtlReasonCooldownElapsed = ''cooldown_elapsed''"
definition CtlReasonDependenciesReady :: control_reason where [go_consts]: "CtlReasonDependenciesReady = ''dependencies_ready''"
definition CtlReasonIntentionalSleep :: control_reason where [go_consts]: "CtlReasonIntentionalSleep = ''intentional_sleep''"
definition CtlReasonOperatorResume :: control_reason where [go_consts]: "CtlReasonOperatorResume = ''operator_resume''"

type_synonym control_event = string

definition EventSuspend :: control_event where [go_consts]: "EventSuspend = ''suspend''"
definition EventDependenciesReady :: control_event where [go_consts]: "EventDependenciesReady = ''dependencies_ready''"
definition EventProbeSucceeded :: control_event where [go_consts]: "EventProbeSucceeded = ''probe_succeeded''"
definition EventProbeFailed :: control_event where [go_consts]: "EventProbeFailed = ''probe_failed''"
definition EventBeginRecovery :: control_event where [go_consts]: "EventBeginRecovery = ''begin_recovery''"
definition EventCooldownElapsed :: control_event where [go_consts]: "EventCooldownElapsed = ''cooldown_elapsed''"
definition EventOperatorResume :: control_event where [go_consts]: "EventOperatorResume = ''operator_resume''"

datatype control_error =
  ErrInvalidPolicy
| ErrInvalidControlSnapshot
| ErrStaleGeneration
| ErrNonMonotonicTick
| ErrInvalidEvent control_event
| ErrResumePrecondition

definition ControlSnapshotSchemaVersion :: u32 where "ControlSnapshotSchemaVersion = 1"

record ControlPolicy =
  po_FailureThreshold :: u32
  po_ActionBudget :: u32
  po_BaseBackoff :: tick
  po_MaxBackoff :: tick
  po_VerificationWindow :: tick
  po_Cooldown :: tick

record ControlSnapshot =
  cs_SchemaVersion :: u32
  cs_Generation :: u64
  cs_State :: control_state
  cs_ConsecutiveFailures :: u32
  cs_Attempts :: u32
  cs_LastTick :: tick
  cs_RecoveringSince :: tick
  cs_NextActionAt :: tick
  cs_SafeUntil :: tick

record Decision =
  de_From :: control_state
  de_To :: control_state
  de_Generation :: u64
  de_Reason :: control_reason
  de_RecoveryApproved :: bool

record Machine =
  mc_policy :: ControlPolicy
  mc_snapshot :: ControlSnapshot

section \<open>Operations\<close>

definition NewSnapshot :: "control_state \<Rightarrow> ControlSnapshot" where
  "NewSnapshot state =
     \<lparr>cs_SchemaVersion = ControlSnapshotSchemaVersion, cs_Generation = 0, cs_State = state,
      cs_ConsecutiveFailures = 0, cs_Attempts = 0, cs_LastTick = 0, cs_RecoveringSince = 0,
      cs_NextActionAt = 0, cs_SafeUntil = 0\<rparr>"

definition validatePolicy :: "ControlPolicy \<Rightarrow> control_error option" where
  "validatePolicy p =
     (if po_FailureThreshold p = 0 \<or> po_ActionBudget p = 0 \<or> po_BaseBackoff p \<le> 0 \<or>
         po_MaxBackoff p < po_BaseBackoff p \<or> po_VerificationWindow p < 0 \<or> po_Cooldown p \<le> 0
      then Some ErrInvalidPolicy else None)"

definition validateSnapshot :: "ControlSnapshot \<Rightarrow> control_error option" where
  "validateSnapshot s =
     (if cs_SchemaVersion s \<noteq> ControlSnapshotSchemaVersion \<or> \<not> State_Valid (cs_State s) \<or>
         cs_LastTick s < 0 \<or> cs_RecoveringSince s < 0 \<or> cs_NextActionAt s < 0 \<or> cs_SafeUntil s < 0
      then Some ErrInvalidControlSnapshot else None)"

definition NewMachine :: "ControlPolicy \<Rightarrow> ControlSnapshot \<Rightarrow> control_error + Machine" where
  "NewMachine p s =
     (case validatePolicy p of
        Some err \<Rightarrow> Inl err
      | None \<Rightarrow> (case validateSnapshot s of
                   Some err \<Rightarrow> Inl err
                 | None \<Rightarrow> Inr \<lparr>mc_policy = p, mc_snapshot = s\<rparr>))"

definition resetHealthy :: "ControlSnapshot \<Rightarrow> ControlSnapshot" where
  "resetHealthy s = s\<lparr>cs_State := CtlHealthy, cs_ConsecutiveFailures := 0, cs_Attempts := 0,
     cs_RecoveringSince := 0, cs_NextActionAt := 0, cs_SafeUntil := 0\<rparr>"

text \<open>
  The loop of \<^verbatim>\<open>backoff\<close>: \<^verbatim>\<open>current\<close> counts up to \<^verbatim>\<open>attempt\<close> on 32 bits. Not returning would be the
  value \<open>None\<close>. Go's \<^verbatim>\<open>/\<close> truncates towards zero.
\<close>

definition half :: "tick \<Rightarrow> tick" where
  "half m = (if m \<ge> 0 then m div 2 else - ((- m) div 2))"

partial_function (option) backoff_loop :: "ControlPolicy \<Rightarrow> u32 \<Rightarrow> u32 \<Rightarrow> tick \<Rightarrow> tick option" where
  [code]: "backoff_loop p current attempt b =
     (if current < attempt
      then if b \<ge> half (po_MaxBackoff p) then Some (po_MaxBackoff p)
           else backoff_loop p (current + 1) attempt (int64 (b * 2))
      else Some (if b > po_MaxBackoff p then po_MaxBackoff p else b))"

definition backoff :: "ControlPolicy \<Rightarrow> u32 \<Rightarrow> tick option" where
  "backoff p attempt = backoff_loop p 1 attempt (po_BaseBackoff p)"

text \<open>
  The switch of \<^verbatim>\<open>Step\<close>: the updated snapshot, the reason and whether a recovery was approved.
  The value of \<^verbatim>\<open>backoff\<close> is total (\<open>backoff_loop_returns\<close> below), so \<open>the\<close> reads it.
\<close>

definition step_probe_succeeded ::
  "ControlPolicy \<Rightarrow> ControlSnapshot \<Rightarrow> tick \<Rightarrow> ControlSnapshot \<times> control_reason" where
  "step_probe_succeeded p s at =
     (if cs_State s = CtlHealthy then (s\<lparr>cs_ConsecutiveFailures := 0\<rparr>, CtlReasonProbeSucceeded)
      else if cs_State s = CtlDegraded then (resetHealthy s, CtlReasonProbeSucceeded)
      else if cs_State s = CtlRecovering then
        (if int64 (at - cs_RecoveringSince s) \<ge> po_VerificationWindow p
         then (resetHealthy s, CtlReasonVerificationPassed) else (s, CtlReasonNone))
      else (s, CtlReasonNone))"

definition step_probe_failed ::
  "ControlPolicy \<Rightarrow> ControlSnapshot \<Rightarrow> tick \<Rightarrow> ControlSnapshot \<times> control_reason" where
  "step_probe_failed p s at =
     (if cs_State s = CtlSuspended \<or> cs_State s = CtlSafeMode then (s, CtlReasonNone)
      else if cs_State s = CtlHealthy then
        (let s = s\<lparr>cs_ConsecutiveFailures := cs_ConsecutiveFailures s + 1\<rparr>
         in if cs_ConsecutiveFailures s \<ge> po_FailureThreshold p
            then (s\<lparr>cs_State := CtlDegraded, cs_NextActionAt := at\<rparr>, CtlReasonFailureThreshold)
            else (s, CtlReasonProbeFailed))
      else if cs_State s = CtlDegraded then
        (s\<lparr>cs_ConsecutiveFailures := cs_ConsecutiveFailures s + 1\<rparr>, CtlReasonProbeFailed)
      else if cs_State s = CtlRecovering then
        (let s = s\<lparr>cs_ConsecutiveFailures := cs_ConsecutiveFailures s + 1, cs_RecoveringSince := 0\<rparr>
         in if cs_Attempts s \<ge> po_ActionBudget p
            then (s\<lparr>cs_State := CtlSafeMode, cs_SafeUntil := int64 (at + po_Cooldown p)\<rparr>, CtlReasonRecoveryBudget)
            else (s\<lparr>cs_State := CtlDegraded\<rparr>, CtlReasonProbeFailed))
      else (s, CtlReasonNone))"

definition step_begin_recovery ::
  "ControlPolicy \<Rightarrow> ControlSnapshot \<Rightarrow> tick \<Rightarrow> ControlSnapshot \<times> control_reason \<times> bool" where
  "step_begin_recovery p s at =
     (if cs_State s = CtlDegraded \<and> at \<ge> cs_NextActionAt s then
        (if cs_Attempts s \<ge> po_ActionBudget p
         then (s\<lparr>cs_State := CtlSafeMode, cs_SafeUntil := int64 (at + po_Cooldown p)\<rparr>,
               CtlReasonRecoveryBudget, False)
         else (let s = s\<lparr>cs_Attempts := cs_Attempts s + 1\<rparr>
               in (s\<lparr>cs_State := CtlRecovering, cs_RecoveringSince := at,
                     cs_NextActionAt := int64 (at + the (backoff p (cs_Attempts s)))\<rparr>,
                   CtlReasonRecoveryAllowed, True)))
      else (s, CtlReasonNone, False))"

definition step_event ::
  "ControlPolicy \<Rightarrow> ControlSnapshot \<Rightarrow> tick \<Rightarrow> control_event \<Rightarrow>
   control_error + ControlSnapshot \<times> control_reason \<times> bool" where
  "step_event p s at event =
     (if event = EventSuspend then
        Inr (s\<lparr>cs_State := CtlSuspended, cs_ConsecutiveFailures := 0, cs_RecoveringSince := 0\<rparr>,
             CtlReasonIntentionalSleep, False)
      else if event = EventDependenciesReady then
        Inr (if cs_State s = CtlSuspended then (resetHealthy s, CtlReasonDependenciesReady, False)
             else (s, CtlReasonNone, False))
      else if event = EventProbeSucceeded then
        (let (s', reason) = step_probe_succeeded p s at in Inr (s', reason, False))
      else if event = EventProbeFailed then
        (let (s', reason) = step_probe_failed p s at in Inr (s', reason, False))
      else if event = EventBeginRecovery then Inr (step_begin_recovery p s at)
      else if event = EventCooldownElapsed then
        Inr (if cs_State s = CtlSafeMode \<and> at \<ge> cs_SafeUntil s
             then (s\<lparr>cs_State := CtlDegraded, cs_Attempts := 0, cs_NextActionAt := at, cs_SafeUntil := 0\<rparr>,
                   CtlReasonCooldownElapsed, False)
             else (s, CtlReasonNone, False))
      else if event = EventOperatorResume then
        (if cs_State s \<noteq> CtlSafeMode then Inl ErrResumePrecondition
         else Inr (s\<lparr>cs_State := CtlDegraded, cs_Attempts := 0, cs_RecoveringSince := 0,
                     cs_NextActionAt := at, cs_SafeUntil := 0\<rparr>, CtlReasonOperatorResume, False))
      else Inl (ErrInvalidEvent event))"

text \<open>An error leaves the machine as it was: every early return precedes the first assignment.\<close>

definition Step :: "Machine \<Rightarrow> u64 \<Rightarrow> tick \<Rightarrow> control_event \<Rightarrow> control_error + Decision \<times> Machine" where
  "Step m expectedGeneration at event =
     (let before = mc_snapshot m in
      if expectedGeneration \<noteq> cs_Generation before then Inl ErrStaleGeneration
      else if at < cs_LastTick before then Inl ErrNonMonotonicTick
      else (case step_event (mc_policy m) before at event of
              Inl err \<Rightarrow> Inl err
            | Inr (s, reason, approved) \<Rightarrow>
                (let s = s\<lparr>cs_LastTick := at\<rparr>;
                     s = (if s \<noteq> before then s\<lparr>cs_Generation := cs_Generation s + 1\<rparr> else s)
                 in Inr (\<lparr>de_From = cs_State before, de_To = cs_State s, de_Generation = cs_Generation s,
                          de_Reason = reason, de_RecoveryApproved = approved\<rparr>,
                         m\<lparr>mc_snapshot := s\<rparr>))))"

section \<open>Backoff\<close>

text \<open>
  The loop returns for every attempt: after \<open>k\<close> rounds the delay is the base doubled \<open>k\<close> times,
  unless the value before the last doubling had reached half of the maximum, when it is the maximum.
  No doubling overflows.
\<close>

lemma backoff_loop_returns:
  assumes "0 < b" "0 \<le> po_MaxBackoff p" "po_MaxBackoff p < 2 ^ 63" "unat attempt = unat current + k"
  shows "backoff_loop p current attempt b =
    Some (if k = 0 then min b (po_MaxBackoff p)
          else if b * 2 ^ (k - 1) \<ge> po_MaxBackoff p div 2 then po_MaxBackoff p else b * 2 ^ k)"
  using assms(1,4)
proof (induction k arbitrary: b current)
  case 0
  then have "\<not> current < attempt" by (simp add: word_less_nat_alt)
  then show ?case by (subst backoff_loop.simps) simp
next
  case (Suc k)
  have lt: "current < attempt" using Suc.prems(2) by (simp add: word_less_nat_alt)
  have half: "half (po_MaxBackoff p) = po_MaxBackoff p div 2" using assms(2) by (simp add: half_def)
  show ?case
  proof (cases "b \<ge> po_MaxBackoff p div 2")
    case True
    have "b * 1 \<le> b * 2 ^ k" using Suc.prems(1) by (intro mult_left_mono) simp_all
    then show ?thesis using True lt half by (subst backoff_loop.simps) simp
  next
    case False
    then have b2: "b * 2 < po_MaxBackoff p" by linarith
    then have "int64 (b * 2) = b * 2" using assms(3) Suc.prems(1) by simp
    moreover have "unat attempt = unat (current + 1) + k"
    proof -
      have "unat (current + 1) = unat current + 1" using lt by unat_arith
      then show ?thesis using Suc.prems(2) by simp
    qed
    ultimately have "backoff_loop p current attempt b =
      Some (if k = 0 then min (b * 2) (po_MaxBackoff p)
        else if b * 2 * 2 ^ (k - 1) \<ge> po_MaxBackoff p div 2 then po_MaxBackoff p else b * 2 * 2 ^ k)"
      using False lt half Suc.IH[of "b * 2" "current + 1"] Suc.prems(1) by (subst backoff_loop.simps) simp
    then show ?thesis using b2 False by (cases k) (simp_all add: mult.assoc)
  qed
qed

definition backoff_spec :: "ControlPolicy \<Rightarrow> nat \<Rightarrow> tick" where
  "backoff_spec p n =
     (if n \<le> 1 then po_BaseBackoff p
      else if po_BaseBackoff p * 2 ^ (n - 2) \<ge> po_MaxBackoff p div 2 then po_MaxBackoff p
      else po_BaseBackoff p * 2 ^ (n - 1))"

lemma validatePolicy_None_iff:
  "validatePolicy p = None \<longleftrightarrow> po_FailureThreshold p \<noteq> 0 \<and> po_ActionBudget p \<noteq> 0 \<and> 0 < po_BaseBackoff p \<and>
     po_BaseBackoff p \<le> po_MaxBackoff p \<and> 0 \<le> po_VerificationWindow p \<and> 0 < po_Cooldown p"
  by (auto simp: validatePolicy_def)

lemma backoff_eq_spec:
  assumes "validatePolicy p = None" "po_MaxBackoff p < 2 ^ 63"
  shows "backoff p n = Some (backoff_spec p (unat n))"
proof (cases "n = 0")
  case True
  then show ?thesis
    using assms unfolding backoff_def by (subst backoff_loop.simps) (simp add: backoff_spec_def validatePolicy_None_iff)
next
  case False
  then obtain k where k: "unat n = Suc k" by (metis not0_implies_Suc unat_eq_zero)
  have "backoff p n = Some (if k = 0 then min (po_BaseBackoff p) (po_MaxBackoff p)
          else if po_BaseBackoff p * 2 ^ (k - 1) \<ge> po_MaxBackoff p div 2 then po_MaxBackoff p
          else po_BaseBackoff p * 2 ^ k)"
    unfolding backoff_def using assms k
    by (intro backoff_loop_returns) (simp_all add: validatePolicy_None_iff)
  then show ?thesis using assms(1) by (simp add: k backoff_spec_def validatePolicy_None_iff)
qed

lemma backoff_spec_bounds:
  assumes "validatePolicy p = None"
  shows "0 < backoff_spec p n \<and> backoff_spec p n \<le> po_MaxBackoff p"
proof (cases "n \<le> 1 \<or> po_BaseBackoff p * 2 ^ (n - 2) \<ge> po_MaxBackoff p div 2")
  case True
  then show ?thesis using assms by (auto simp: backoff_spec_def validatePolicy_None_iff)
next
  case False
  then have "n - 1 = Suc (n - 2)" by linarith
  then have "po_BaseBackoff p * 2 ^ (n - 1) = 2 * (po_BaseBackoff p * 2 ^ (n - 2))" by simp
  then have "po_BaseBackoff p * 2 ^ (n - 1) < po_MaxBackoff p" using False by linarith
  then show ?thesis using False assms by (simp add: backoff_spec_def validatePolicy_None_iff)
qed

section \<open>Steps\<close>

lemmas step_defs = step_event_def step_probe_succeeded_def step_probe_failed_def step_begin_recovery_def
  resetHealthy_def

lemma ctl_neq:
  "CtlSuspended \<noteq> CtlHealthy" "CtlSuspended \<noteq> CtlDegraded" "CtlSuspended \<noteq> CtlRecovering"
  "CtlSuspended \<noteq> CtlSafeMode" "CtlHealthy \<noteq> CtlSuspended" "CtlHealthy \<noteq> CtlDegraded"
  "CtlHealthy \<noteq> CtlRecovering" "CtlHealthy \<noteq> CtlSafeMode" "CtlDegraded \<noteq> CtlSuspended"
  "CtlDegraded \<noteq> CtlHealthy" "CtlDegraded \<noteq> CtlRecovering" "CtlDegraded \<noteq> CtlSafeMode"
  "CtlRecovering \<noteq> CtlSuspended" "CtlRecovering \<noteq> CtlHealthy" "CtlRecovering \<noteq> CtlDegraded"
  "CtlRecovering \<noteq> CtlSafeMode" "CtlSafeMode \<noteq> CtlSuspended" "CtlSafeMode \<noteq> CtlHealthy"
  "CtlSafeMode \<noteq> CtlDegraded" "CtlSafeMode \<noteq> CtlRecovering"
  by (simp_all add: go_consts)

lemma Step_E:
  assumes "Step m g at ev = Inr (d, m')"
  obtains s reason approved where "g = cs_Generation (mc_snapshot m)" "cs_LastTick (mc_snapshot m) \<le> at"
    "step_event (mc_policy m) (mc_snapshot m) at ev = Inr (s, reason, approved)"
    "mc_policy m' = mc_policy m"
    "mc_snapshot m' = s\<lparr>cs_LastTick := at, cs_Generation :=
       cs_Generation s + (if s\<lparr>cs_LastTick := at\<rparr> \<noteq> mc_snapshot m then 1 else 0)\<rparr>"
    "d = \<lparr>de_From = cs_State (mc_snapshot m), de_To = cs_State s, de_Generation = cs_Generation (mc_snapshot m'),
          de_Reason = reason, de_RecoveryApproved = approved\<rparr>"
proof -
  obtain s reason approved where st: "g = cs_Generation (mc_snapshot m)" "cs_LastTick (mc_snapshot m) \<le> at"
    "step_event (mc_policy m) (mc_snapshot m) at ev = Inr (s, reason, approved)"
    using assms by (auto simp: Step_def Let_def not_less split: if_splits sum.splits prod.splits)
  show thesis
  proof (cases "s\<lparr>cs_LastTick := at\<rparr> = mc_snapshot m")
    case True
    have "cs_State s = cs_State (mc_snapshot m)" "cs_Generation s = cs_Generation (mc_snapshot m)"
      using arg_cong[OF True, of cs_State] arg_cong[OF True, of cs_Generation] by simp_all
    then show thesis using that[OF st] assms st True by (auto simp: Step_def Let_def)
  next
    case False
    then show thesis using that[OF st] assms st by (auto simp: Step_def Let_def)
  qed
qed

lemma Step_I:
  assumes "step_event (mc_policy m) (mc_snapshot m) at ev = Inr (s, reason, approved)" "cs_LastTick (mc_snapshot m) \<le> at"
  obtains d m' g where "Step m (cs_Generation (mc_snapshot m)) at ev = Inr (d, m')" "mc_policy m' = mc_policy m"
    "mc_snapshot m' = s\<lparr>cs_LastTick := at, cs_Generation := g\<rparr>" "de_To d = cs_State s"
    "de_Reason d = reason" "de_RecoveryApproved d = approved"
proof -
  obtain r where r: "Step m (cs_Generation (mc_snapshot m)) at ev = Inr r"
    using assms by (simp add: Step_def Let_def)
  obtain d m' where dm: "r = (d, m')" by force
  show thesis using r[unfolded dm] assms(1) that[OF r[unfolded dm]] by (auto elim!: Step_E)
qed

lemma step_event_generation:
  "step_event p s at ev = Inr (s', reason, approved) \<Longrightarrow>
     cs_Generation s' = cs_Generation s \<and> cs_LastTick s' = cs_LastTick s \<and> cs_SchemaVersion s' = cs_SchemaVersion s"
  by (auto simp: step_defs Let_def split: if_splits prod.splits)

text \<open>Which decisions give the budget back.\<close>

definition refunding :: "control_reason \<Rightarrow> control_state \<Rightarrow> bool" where
  "refunding reason from \<longleftrightarrow> reason \<in> {CtlReasonVerificationPassed, CtlReasonDependenciesReady,
     CtlReasonCooldownElapsed, CtlReasonOperatorResume} \<or> reason = CtlReasonProbeSucceeded \<and> from = CtlDegraded"

lemma refunding_simps [simp]:
  "\<not> refunding CtlReasonNone x" "\<not> refunding CtlReasonProbeFailed x" "\<not> refunding CtlReasonFailureThreshold x"
  "\<not> refunding CtlReasonRecoveryAllowed x" "\<not> refunding CtlReasonRecoveryBudget x"
  "\<not> refunding CtlReasonIntentionalSleep x" "refunding CtlReasonVerificationPassed x"
  "refunding CtlReasonDependenciesReady x" "refunding CtlReasonCooldownElapsed x"
  "refunding CtlReasonOperatorResume x" "refunding CtlReasonProbeSucceeded x \<longleftrightarrow> x = CtlDegraded"
  by (simp_all add: refunding_def go_consts)

abbreviation refunds :: "Decision \<Rightarrow> bool" where
  "refunds d \<equiv> refunding (de_Reason d) (de_From d)"

lemma step_event_attempts:
  assumes "step_event p s at ev = Inr (s', reason, approved)"
  shows "cs_Attempts s' = (if approved then cs_Attempts s + 1
      else if refunding reason (cs_State s) then 0 else cs_Attempts s) \<and>
    (approved \<longrightarrow> cs_Attempts s < po_ActionBudget p \<and> ev = EventBeginRecovery \<and> cs_State s = CtlDegraded \<and>
       cs_NextActionAt s \<le> at \<and> cs_State s' = CtlRecovering \<and>
       cs_NextActionAt s' = int64 (at + the (backoff p (cs_Attempts s'))))"
  using assms by (auto simp: step_defs Let_def ctl_neq not_le split: if_splits prod.splits)

lemma Step_attempts:
  assumes "Step m g at ev = Inr (d, m')"
  shows "cs_Attempts (mc_snapshot m') = (if de_RecoveryApproved d then cs_Attempts (mc_snapshot m) + 1
      else if refunds d then 0 else cs_Attempts (mc_snapshot m))"
    "de_RecoveryApproved d \<Longrightarrow> cs_Attempts (mc_snapshot m) < po_ActionBudget (mc_policy m)"
    "mc_policy m' = mc_policy m"
  using assms by (auto elim!: Step_E dest!: step_event_attempts)

text \<open>The machine driven the way its callers drive it, each step with the current generation.\<close>

fun drive :: "Machine \<Rightarrow> (tick \<times> control_event) list \<Rightarrow> control_error + Decision list \<times> Machine" where
  "drive m [] = Inr ([], m)"
| "drive m ((at, ev) # xs) =
     (case Step m (cs_Generation (mc_snapshot m)) at ev of
        Inl err \<Rightarrow> Inl err
      | Inr (d, m') \<Rightarrow>
          (case drive m' xs of Inl err \<Rightarrow> Inl err | Inr (ds, m'') \<Rightarrow> Inr (d # ds, m'')))"

lemma drive_Cons_E:
  assumes "drive m ((at, ev) # xs) = Inr (ds, m'')"
  obtains d m' ds' where "Step m (cs_Generation (mc_snapshot m)) at ev = Inr (d, m')" "drive m' xs = Inr (ds', m'')" "ds = d # ds'"
  using assms by (auto split: sum.splits)

lemma drive_policy: "drive m xs = Inr (ds, m') \<Longrightarrow> mc_policy m' = mc_policy m"
proof (induction xs arbitrary: m ds)
  case (Cons x xs)
  obtain at ev where x: "x = (at, ev)" by force
  from Cons.prems[unfolded x] show ?case by (rule drive_Cons_E) (metis Cons.IH Step_attempts(3))
qed simp

end
