(* ===== verification/Pritunl.thy ===== *)
theory Pritunl
  imports Control
begin

text \<open>
  The Pritunl recovery planner (\<^verbatim>\<open>internal/pritunlplan/planner.go\<close>): what one observation of the
  user's session leads to, over the recovery state machine. The planner is a record; a method
  returns its result beside the planner it leaves behind. The constants of \<^verbatim>\<open>userobserve\<close> and
  \<^verbatim>\<open>observe\<close> it compares with are repeated here. A nil planner, which every method refuses, is not a
  value of the model; the caller's persistence function is the parameter \<open>persist\<close>.
\<close>

section \<open>Vocabulary\<close>

definition SessionActive :: string where [go_consts]: "SessionActive = ''active''"
definition ProfileActive :: string where [go_consts]: "ProfileActive = ''active''"
definition LidStateOpen :: string where [go_consts]: "LidStateOpen = ''open''"
definition LidStateClosed :: string where [go_consts]: "LidStateClosed = ''closed''"
definition WakeKindFull :: string where [go_consts]: "WakeKindFull = ''full''"
definition WakeKindDark :: string where [go_consts]: "WakeKindDark = ''dark''"

type_synonym pritunl_action = string

definition PActionNone :: pritunl_action where [go_consts]: "PActionNone = ''none''"
definition PActionReconnect :: pritunl_action where [go_consts]: "PActionReconnect = ''reconnect''"
definition PActionRequestRescue :: pritunl_action where [go_consts]: "PActionRequestRescue = ''request_rescue''"

type_synonym pritunl_reason = string

definition PReasonSessionInactive :: pritunl_reason where [go_consts]: "PReasonSessionInactive = ''session_inactive''"
definition PReasonLidClosed :: pritunl_reason where [go_consts]: "PReasonLidClosed = ''lid_closed''"
definition PReasonDarkWake :: pritunl_reason where [go_consts]: "PReasonDarkWake = ''dark_wake''"
definition PReasonWakeUnknown :: pritunl_reason where [go_consts]: "PReasonWakeUnknown = ''wake_unknown''"
definition PReasonWakeSettling :: pritunl_reason where [go_consts]: "PReasonWakeSettling = ''wake_settling''"
definition PReasonOuterNotReady :: pritunl_reason where [go_consts]: "PReasonOuterNotReady = ''outer_not_ready''"
definition PReasonProfileConnected :: pritunl_reason where [go_consts]: "PReasonProfileConnected = ''profile_connected''"
definition PReasonProfileNotConnected :: pritunl_reason
  where [go_consts]: "PReasonProfileNotConnected = ''profile_not_connected''"
definition PReasonProfileConnecting :: pritunl_reason where [go_consts]: "PReasonProfileConnecting = ''profile_connecting''"
definition PReasonRecoveryVerifying :: pritunl_reason where [go_consts]: "PReasonRecoveryVerifying = ''recovery_verifying''"
definition PReasonOTPWindowTooShort :: pritunl_reason where [go_consts]: "PReasonOTPWindowTooShort = ''otp_window_too_short''"
definition PReasonRecoveryBackoff :: pritunl_reason where [go_consts]: "PReasonRecoveryBackoff = ''recovery_backoff''"
definition PReasonRecoveryBudget :: pritunl_reason where [go_consts]: "PReasonRecoveryBudget = ''recovery_budget_exhausted''"
definition PReasonReconnectAllowed :: pritunl_reason where [go_consts]: "PReasonReconnectAllowed = ''reconnect_allowed''"
definition PReasonInnerBlackholed :: pritunl_reason where [go_consts]: "PReasonInnerBlackholed = ''inner_blackholed''"
definition PReasonProfileUnreadable :: pritunl_reason where [go_consts]: "PReasonProfileUnreadable = ''profile_unreadable''"
definition PReasonServiceNotRunning :: pritunl_reason where [go_consts]: "PReasonServiceNotRunning = ''service_not_running''"

definition ServiceStopped :: string where [go_consts]: "ServiceStopped = ''stopped''"

definition OptionalInnerUnspecified :: string where [go_consts]: "OptionalInnerUnspecified = ''''"
definition OptionalInnerUnknown :: string where [go_consts]: "OptionalInnerUnknown = ''unknown''"
definition OptionalInnerReady :: string where [go_consts]: "OptionalInnerReady = ''ready''"
definition OptionalInnerFailed :: string where [go_consts]: "OptionalInnerFailed = ''failed''"

definition OptionalInner_valid :: "string \<Rightarrow> bool" where
  "OptionalInner_valid s \<longleftrightarrow> s = OptionalInnerUnspecified \<or> s = OptionalInnerUnknown \<or>
     s = OptionalInnerReady \<or> s = OptionalInnerFailed"

datatype planner_error = ErrInvalidPlannerInput | PlannerControl control_error | PlannerPersist string

record PritunlPolicy =
  pp_Recovery :: ControlPolicy
  pp_WakeSettle :: tick
  pp_ConnectingGrace :: tick
  pp_OTPPeriod :: u32
  pp_OTPMinValid :: u32

record ProfileObservation =
  po_Found :: bool
  po_State :: string
  po_Connecting :: bool
  po_HasClientAddress :: bool

definition Connected :: "ProfileObservation \<Rightarrow> bool" where
  "Connected o' \<longleftrightarrow> po_Found o' \<and> po_State o' = ProfileActive \<and> \<not> po_Connecting o' \<and> po_HasClientAddress o'"

record PritunlObservation =
  ob_At :: tick
  ob_Session :: string
  ob_Lid :: string
  ob_Wake :: string
  ob_OuterReady :: bool
  ob_Profile :: ProfileObservation
  ob_OptionalInner :: string
  ob_OTPSecondsRemaining :: u32
  ob_Service :: string
  ob_ProfileUnreadable :: bool

record PritunlPlan =
  pl_ObserveOnly :: bool
  pl_State :: control_state
  pl_Action :: pritunl_action
  pl_Reason :: pritunl_reason
  pl_NextEvaluationAt :: tick
  pl_Snapshot :: ControlSnapshot

record Planner =
  pn_policy :: PritunlPolicy
  pn_machine :: Machine
  pn_fullWakeSince :: tick
  pn_trackingFullWake :: bool
  pn_connectingSince :: tick
  pn_trackingConnecting :: bool
  pn_lastObservationAt :: tick
  pn_hasObservation :: bool
  pn_lastRescueAt :: tick
  pn_hasRequestedRescue :: bool

abbreviation planner_snapshot :: "Planner \<Rightarrow> ControlSnapshot" where
  "planner_snapshot pl \<equiv> mc_snapshot (pn_machine pl)"

section \<open>Operations\<close>

definition OTPSecondsRemaining :: "int \<Rightarrow> u32 \<Rightarrow> planner_error + u32" where
  "OTPSecondsRemaining unixSeconds period =
     (if unixSeconds < 0 \<or> period = 0 then Inl ErrInvalidPlannerInput
      else Inr (period - word_of_int (unixSeconds mod uint period)))"

definition NewPlanner :: "PritunlPolicy \<Rightarrow> ControlSnapshot \<Rightarrow> planner_error + Planner" where
  "NewPlanner p snapshot =
     (if pp_WakeSettle p < 0 \<or> pp_ConnectingGrace p \<le> 0 \<or> pp_OTPPeriod p = 0 \<or> pp_OTPMinValid p = 0 \<or>
         pp_OTPMinValid p > pp_OTPPeriod p
      then Inl ErrInvalidPlannerInput
      else (case NewMachine (pp_Recovery p) snapshot of
              Inl err \<Rightarrow> Inl (PlannerControl err)
            | Inr machine \<Rightarrow>
                Inr \<lparr>pn_policy = p, pn_machine = machine, pn_fullWakeSince = 0, pn_trackingFullWake = False,
                     pn_connectingSince = 0, pn_trackingConnecting = False, pn_lastObservationAt = 0,
                     pn_hasObservation = False, pn_lastRescueAt = 0, pn_hasRequestedRescue = False\<rparr>))"

definition rescueRequestAllowed :: "Planner \<Rightarrow> tick \<Rightarrow> bool" where
  "rescueRequestAllowed pl at =
     (if \<not> pn_hasRequestedRescue pl then True
      else at \<ge> int64 (pn_lastRescueAt pl + po_Cooldown (pp_Recovery (pn_policy pl))))"

definition planner_step :: "Planner \<Rightarrow> tick \<Rightarrow> control_event \<Rightarrow> planner_error + Decision \<times> Planner" where
  "planner_step pl at event =
     (case Step (pn_machine pl) (cs_Generation (planner_snapshot pl)) at event of
        Inl err \<Rightarrow> Inl (PlannerControl err)
      | Inr (d, m) \<Rightarrow> Inr (d, pl\<lparr>pn_machine := m\<rparr>))"

type_synonym plan_result = "(planner_error + PritunlPlan) \<times> Planner"

text \<open>\<^verbatim>\<open>if _, err := planner.step(...); err != nil { return Plan{}, err }\<close>\<close>

definition after_step ::
  "Planner \<Rightarrow> tick \<Rightarrow> control_event \<Rightarrow> (Decision \<Rightarrow> Planner \<Rightarrow> plan_result) \<Rightarrow> plan_result" where
  "after_step pl at event k =
     (case planner_step pl at event of Inl err \<Rightarrow> (Inl err, pl) | Inr (d, pl') \<Rightarrow> k d pl')"

definition planner_result :: "Planner \<Rightarrow> pritunl_reason \<Rightarrow> pritunl_action \<Rightarrow> tick \<Rightarrow> plan_result" where
  "planner_result pl reason action next' =
     (Inr \<lparr>pl_ObserveOnly = True, pl_State = cs_State (planner_snapshot pl), pl_Action = action,
           pl_Reason = reason, pl_NextEvaluationAt = next', pl_Snapshot = planner_snapshot pl\<rparr>, pl)"

definition planner_suspend :: "Planner \<Rightarrow> tick \<Rightarrow> pritunl_reason \<Rightarrow> plan_result" where
  "planner_suspend pl at reason =
     (let pl = pl\<lparr>pn_trackingFullWake := False, pn_trackingConnecting := False\<rparr>
      in after_step pl at EventSuspend (\<lambda>_ pl. planner_result pl reason PActionNone 0))"

text \<open>The tail of \<^verbatim>\<open>Plan\<close>: the machine is degraded, the one-time password decides, then the budget.\<close>

definition plan_recover :: "Planner \<Rightarrow> PritunlObservation \<Rightarrow> plan_result" where
  "plan_recover pl o' =
     (if ob_OTPSecondsRemaining o' < pp_OTPMinValid (pn_policy pl)
      then planner_result pl PReasonOTPWindowTooShort PActionNone
             (int64 (int64 (ob_At o' + uint (ob_OTPSecondsRemaining o')) + 1))
      else after_step pl (ob_At o') EventBeginRecovery (\<lambda>d pl.
        if de_RecoveryApproved d then planner_result pl PReasonReconnectAllowed PActionReconnect 0
        else if de_To d = CtlSafeMode
          then planner_result pl PReasonRecoveryBudget PActionNone (cs_SafeUntil (planner_snapshot pl))
        else planner_result pl PReasonRecoveryBackoff PActionNone (cs_NextActionAt (planner_snapshot pl))))"

text \<open>The session is readable and not connected.\<close>

definition plan_failed :: "Planner \<Rightarrow> PritunlObservation \<Rightarrow> plan_result" where
  "plan_failed pl o' =
     (let s = planner_snapshot pl in
      if cs_State s = CtlRecovering \<and>
         int64 (ob_At o' - cs_RecoveringSince s) < pp_ConnectingGrace (pn_policy pl)
      then planner_result pl PReasonRecoveryVerifying PActionNone
             (int64 (cs_RecoveringSince s + pp_ConnectingGrace (pn_policy pl)))
      else after_step pl (ob_At o') EventProbeFailed (\<lambda>d pl.
        if de_To d = CtlHealthy then planner_result pl PReasonProfileNotConnected PActionNone 0
        else if de_To d = CtlSafeMode
          then planner_result pl PReasonRecoveryBudget PActionNone (cs_SafeUntil (planner_snapshot pl))
        else if de_To d = CtlDegraded then plan_recover pl o'
        else planner_result pl PReasonProfileNotConnected PActionNone 0))"

definition plan_disconnected :: "Planner \<Rightarrow> PritunlObservation \<Rightarrow> plan_result" where
  "plan_disconnected pl o' =
     (if po_Connecting (ob_Profile o') then
        (let pl = (if \<not> pn_trackingConnecting pl
                   then pl\<lparr>pn_trackingConnecting := True, pn_connectingSince := ob_At o'\<rparr> else pl)
         in if int64 (ob_At o' - pn_connectingSince pl) < pp_ConnectingGrace (pn_policy pl)
            then planner_result pl PReasonProfileConnecting PActionNone
                   (int64 (pn_connectingSince pl + pp_ConnectingGrace (pn_policy pl)))
            else plan_failed pl o')
      else plan_failed (pl\<lparr>pn_trackingConnecting := False\<rparr>) o')"

definition plan_connected :: "Planner \<Rightarrow> PritunlObservation \<Rightarrow> plan_result" where
  "plan_connected pl o' =
     (let pl = pl\<lparr>pn_trackingConnecting := False\<rparr> in
      after_step pl (ob_At o') EventProbeSucceeded (\<lambda>d pl.
        let reason = (if de_To d = CtlRecovering then PReasonRecoveryVerifying else PReasonProfileConnected) in
        if ob_OptionalInner o' = OptionalInnerFailed \<and> rescueRequestAllowed pl (ob_At o')
        then planner_result (pl\<lparr>pn_lastRescueAt := ob_At o', pn_hasRequestedRescue := True\<rparr>)
               PReasonInnerBlackholed PActionRequestRescue 0
        else planner_result pl reason PActionNone 0))"

text \<open>The machine is neither suspended nor within a cooldown.\<close>

definition plan_session :: "Planner \<Rightarrow> PritunlObservation \<Rightarrow> plan_result" where
  "plan_session pl o' =
     (if \<not> Connected (ob_Profile o') \<and> ob_Service o' = ServiceStopped \<and> rescueRequestAllowed pl (ob_At o')
      then after_step pl (ob_At o') EventProbeFailed (\<lambda>_ pl.
        planner_result (pl\<lparr>pn_lastRescueAt := ob_At o', pn_hasRequestedRescue := True\<rparr>)
          PReasonServiceNotRunning PActionRequestRescue 0)
      else if ob_ProfileUnreadable o'
      then after_step pl (ob_At o') EventProbeFailed (\<lambda>_ pl. planner_result pl PReasonProfileUnreadable PActionNone 0)
      else if Connected (ob_Profile o') then plan_connected pl o'
      else plan_disconnected pl o')"

definition plan_wake :: "Planner \<Rightarrow> PritunlObservation \<Rightarrow> plan_result" where
  "plan_wake pl o' =
     (if cs_State (planner_snapshot pl) = CtlSuspended
      then after_step pl (ob_At o') EventDependenciesReady (\<lambda>_ pl. plan_session pl o')
      else plan_session pl o')"

definition plan_outer :: "Planner \<Rightarrow> PritunlObservation \<Rightarrow> plan_result" where
  "plan_outer pl o' =
     (if \<not> ob_OuterReady o' then planner_result pl PReasonOuterNotReady PActionNone 0
      else if cs_State (planner_snapshot pl) = CtlSafeMode then
        (if ob_At o' < cs_SafeUntil (planner_snapshot pl)
         then planner_result pl PReasonRecoveryBudget PActionNone (cs_SafeUntil (planner_snapshot pl))
         else after_step pl (ob_At o') EventCooldownElapsed (\<lambda>_ pl. plan_wake pl o'))
      else plan_wake pl o')"

definition plan_settle :: "Planner \<Rightarrow> PritunlObservation \<Rightarrow> plan_result" where
  "plan_settle pl o' =
     (let pl = (if \<not> pn_trackingFullWake pl
                then pl\<lparr>pn_trackingFullWake := True, pn_fullWakeSince := ob_At o'\<rparr> else pl)
      in if int64 (ob_At o' - pn_fullWakeSince pl) < pp_WakeSettle (pn_policy pl)
         then after_step (pl\<lparr>pn_trackingConnecting := False\<rparr>) (ob_At o') EventSuspend (\<lambda>_ pl.
           planner_result pl PReasonWakeSettling PActionNone
             (int64 (pn_fullWakeSince pl + pp_WakeSettle (pn_policy pl))))
         else plan_outer pl o')"

definition Planner_Plan :: "Planner \<Rightarrow> PritunlObservation \<Rightarrow> plan_result" where
  "Planner_Plan pl o' =
     (if ob_At o' < 0 \<or> \<not> OptionalInner_valid (ob_OptionalInner o') \<or>
         ob_OTPSecondsRemaining o' > pp_OTPPeriod (pn_policy pl)
      then (Inl ErrInvalidPlannerInput, pl)
      else if ob_At o' < cs_LastTick (planner_snapshot pl) \<or>
         pn_hasObservation pl \<and> ob_At o' < pn_lastObservationAt pl
      then (Inl (PlannerControl ErrNonMonotonicTick), pl)
      else
        (let pl = pl\<lparr>pn_lastObservationAt := ob_At o', pn_hasObservation := True\<rparr> in
         if ob_Session o' \<noteq> SessionActive then planner_suspend pl (ob_At o') PReasonSessionInactive
         else if ob_Lid o' = LidStateClosed then planner_suspend pl (ob_At o') PReasonLidClosed
         else if ob_Wake o' = WakeKindDark then planner_suspend pl (ob_At o') PReasonDarkWake
         else if ob_Lid o' \<noteq> LidStateOpen \<or> ob_Wake o' \<noteq> WakeKindFull
           then planner_suspend pl (ob_At o') PReasonWakeUnknown
         else plan_settle pl o'))"

section \<open>Operator actions\<close>

type_synonym persister = "ControlSnapshot \<Rightarrow> string option"

definition replaceSnapshot :: "Planner \<Rightarrow> ControlSnapshot \<Rightarrow> persister \<Rightarrow> (planner_error + ControlSnapshot) \<times> Planner" where
  "replaceSnapshot pl snapshot persist =
     (case NewMachine (pp_Recovery (pn_policy pl)) snapshot of
        Inl err \<Rightarrow> (Inl (PlannerControl err), pl)
      | Inr candidate \<Rightarrow>
          (case persist snapshot of
             Some err \<Rightarrow> (Inl (PlannerPersist err), pl)
           | None \<Rightarrow> (Inr snapshot, pl\<lparr>pn_machine := candidate\<rparr>)))"

definition Planner_Resume ::
  "Planner \<Rightarrow> u64 \<Rightarrow> tick \<Rightarrow> persister \<Rightarrow> (planner_error + ControlSnapshot) \<times> Planner" where
  "Planner_Resume pl expectedGeneration at persist =
     (if at < 0 then (Inl ErrInvalidPlannerInput, pl)
      else (let before = planner_snapshot pl in
            case Step (pn_machine pl) expectedGeneration at EventOperatorResume of
              Inl err \<Rightarrow> (Inl (PlannerControl err), pl)
            | Inr (_, m) \<Rightarrow>
                (let pl' = pl\<lparr>pn_machine := m\<rparr>; after = planner_snapshot pl'
                 in case persist after of
                      None \<Rightarrow> (Inr after, pl')
                    | Some err \<Rightarrow>
                        (case NewMachine (pp_Recovery (pn_policy pl')) before of
                           Inl rollbackErr \<Rightarrow> (Inl (PlannerControl rollbackErr), pl')
                         | Inr rollback \<Rightarrow> (Inl (PlannerPersist err), pl'\<lparr>pn_machine := rollback\<rparr>)))))"

definition CompensateOperatorResume ::
  "Planner \<Rightarrow> u64 \<Rightarrow> ControlSnapshot \<Rightarrow> persister \<Rightarrow> (planner_error + ControlSnapshot) \<times> Planner" where
  "CompensateOperatorResume pl expectedGeneration compensation persist =
     (let current = planner_snapshot pl in
      if cs_Generation current \<noteq> expectedGeneration then (Inl (PlannerControl ErrStaleGeneration), pl)
      else if cs_State current \<noteq> CtlDegraded \<or> cs_State compensation \<noteq> CtlSafeMode \<or>
              cs_Generation compensation \<noteq> cs_Generation current + 1 \<or>
              cs_LastTick compensation < cs_LastTick current
      then (Inl ErrInvalidPlannerInput, pl)
      else replaceSnapshot pl compensation persist)"

definition EnterSafeMode ::
  "Planner \<Rightarrow> u64 \<Rightarrow> tick \<Rightarrow> persister \<Rightarrow> (planner_error + ControlSnapshot) \<times> Planner" where
  "EnterSafeMode pl expectedGeneration at persist =
     (let current = planner_snapshot pl in
      if at < 0 then (Inl ErrInvalidPlannerInput, pl)
      else if cs_Generation current \<noteq> expectedGeneration then (Inl (PlannerControl ErrStaleGeneration), pl)
      else if at < cs_LastTick current then (Inl (PlannerControl ErrNonMonotonicTick), pl)
      else replaceSnapshot pl
        (current\<lparr>cs_Generation := cs_Generation current + 1, cs_State := CtlSafeMode,
           cs_Attempts := po_ActionBudget (pp_Recovery (pn_policy pl)), cs_RecoveringSince := 0,
           cs_NextActionAt := 0, cs_SafeUntil := int64 (at + po_Cooldown (pp_Recovery (pn_policy pl))),
           cs_LastTick := at\<rparr>) persist)"

end
