(* ===== verification/Control_Laws.thy ===== *)
theory Control_Laws
  imports Control
begin

text \<open>
  The properties of the recovery state machine with their witnesses: what its states satisfy, how
  many recoveries it approves and how far apart, when it leaves safe mode, and how its generation
  serialises its callers.
\<close>

section \<open>The transitions\<close>

text \<open>
  The steps of the machine as a relation: from a snapshot, at a tick and with an event, to the next
  snapshot (before its tick and generation are set), with the reason and the approval.
\<close>

inductive ctl_step ::
  "ControlPolicy \<Rightarrow> tick \<Rightarrow> ControlSnapshot \<Rightarrow> control_event \<Rightarrow> ControlSnapshot \<Rightarrow> control_reason \<Rightarrow> bool \<Rightarrow> bool"
  for p at s where
  stay: "ev \<noteq> EventSuspend \<Longrightarrow> ctl_step p at s ev s CtlReasonNone False"
| suspend: "ctl_step p at s EventSuspend
    (s\<lparr>cs_State := CtlSuspended, cs_ConsecutiveFailures := 0, cs_RecoveringSince := 0\<rparr>) CtlReasonIntentionalSleep False"
| ready: "cs_State s = CtlSuspended \<Longrightarrow>
    ctl_step p at s EventDependenciesReady (resetHealthy s) CtlReasonDependenciesReady False"
| fine: "cs_State s = CtlHealthy \<Longrightarrow>
    ctl_step p at s EventProbeSucceeded (s\<lparr>cs_ConsecutiveFailures := 0\<rparr>) CtlReasonProbeSucceeded False"
| recovered: "cs_State s = CtlDegraded \<Longrightarrow>
    ctl_step p at s EventProbeSucceeded (resetHealthy s) CtlReasonProbeSucceeded False"
| verified: "cs_State s = CtlRecovering \<Longrightarrow> int64 (at - cs_RecoveringSince s) \<ge> po_VerificationWindow p \<Longrightarrow>
    ctl_step p at s EventProbeSucceeded (resetHealthy s) CtlReasonVerificationPassed False"
| failing: "cs_State s = CtlHealthy \<Longrightarrow> cs_ConsecutiveFailures s + 1 < po_FailureThreshold p \<Longrightarrow>
    ctl_step p at s EventProbeFailed (s\<lparr>cs_ConsecutiveFailures := cs_ConsecutiveFailures s + 1\<rparr>) CtlReasonProbeFailed False"
| degrade: "cs_State s = CtlHealthy \<Longrightarrow> cs_ConsecutiveFailures s + 1 \<ge> po_FailureThreshold p \<Longrightarrow>
    ctl_step p at s EventProbeFailed (s\<lparr>cs_ConsecutiveFailures := cs_ConsecutiveFailures s + 1,
      cs_State := CtlDegraded, cs_NextActionAt := at\<rparr>) CtlReasonFailureThreshold False"
| still_failing: "cs_State s = CtlDegraded \<Longrightarrow>
    ctl_step p at s EventProbeFailed (s\<lparr>cs_ConsecutiveFailures := cs_ConsecutiveFailures s + 1\<rparr>) CtlReasonProbeFailed False"
| exhausted: "cs_State s = CtlRecovering \<Longrightarrow> cs_Attempts s \<ge> po_ActionBudget p \<Longrightarrow>
    ctl_step p at s EventProbeFailed (s\<lparr>cs_ConsecutiveFailures := cs_ConsecutiveFailures s + 1, cs_RecoveringSince := 0,
      cs_State := CtlSafeMode, cs_SafeUntil := int64 (at + po_Cooldown p)\<rparr>) CtlReasonRecoveryBudget False"
| retry: "cs_State s = CtlRecovering \<Longrightarrow> cs_Attempts s < po_ActionBudget p \<Longrightarrow>
    ctl_step p at s EventProbeFailed (s\<lparr>cs_ConsecutiveFailures := cs_ConsecutiveFailures s + 1, cs_RecoveringSince := 0,
      cs_State := CtlDegraded\<rparr>) CtlReasonProbeFailed False"
| refuse: "cs_State s = CtlDegraded \<Longrightarrow> cs_NextActionAt s \<le> at \<Longrightarrow> cs_Attempts s \<ge> po_ActionBudget p \<Longrightarrow>
    ctl_step p at s EventBeginRecovery (s\<lparr>cs_State := CtlSafeMode, cs_SafeUntil := int64 (at + po_Cooldown p)\<rparr>)
      CtlReasonRecoveryBudget False"
| recover: "cs_State s = CtlDegraded \<Longrightarrow> cs_NextActionAt s \<le> at \<Longrightarrow> cs_Attempts s < po_ActionBudget p \<Longrightarrow>
    ctl_step p at s EventBeginRecovery (s\<lparr>cs_Attempts := cs_Attempts s + 1, cs_State := CtlRecovering,
      cs_RecoveringSince := at, cs_NextActionAt := int64 (at + the (backoff p (cs_Attempts s + 1)))\<rparr>)
      CtlReasonRecoveryAllowed True"
| cooled: "cs_State s = CtlSafeMode \<Longrightarrow> cs_SafeUntil s \<le> at \<Longrightarrow>
    ctl_step p at s EventCooldownElapsed (s\<lparr>cs_State := CtlDegraded, cs_Attempts := 0, cs_NextActionAt := at,
      cs_SafeUntil := 0\<rparr>) CtlReasonCooldownElapsed False"
| resume: "cs_State s = CtlSafeMode \<Longrightarrow>
    ctl_step p at s EventOperatorResume (s\<lparr>cs_State := CtlDegraded, cs_Attempts := 0, cs_RecoveringSince := 0,
      cs_NextActionAt := at, cs_SafeUntil := 0\<rparr>) CtlReasonOperatorResume False"

lemma event_neq:
  "EventSuspend \<noteq> EventDependenciesReady" "EventSuspend \<noteq> EventProbeSucceeded"
  "EventSuspend \<noteq> EventProbeFailed" "EventSuspend \<noteq> EventBeginRecovery"
  "EventSuspend \<noteq> EventCooldownElapsed" "EventSuspend \<noteq> EventOperatorResume"
  "EventDependenciesReady \<noteq> EventSuspend" "EventDependenciesReady \<noteq> EventProbeSucceeded"
  "EventDependenciesReady \<noteq> EventProbeFailed" "EventDependenciesReady \<noteq> EventBeginRecovery"
  "EventDependenciesReady \<noteq> EventCooldownElapsed" "EventDependenciesReady \<noteq> EventOperatorResume"
  "EventProbeSucceeded \<noteq> EventSuspend" "EventProbeSucceeded \<noteq> EventDependenciesReady"
  "EventProbeSucceeded \<noteq> EventProbeFailed" "EventProbeSucceeded \<noteq> EventBeginRecovery"
  "EventProbeSucceeded \<noteq> EventCooldownElapsed" "EventProbeSucceeded \<noteq> EventOperatorResume"
  "EventProbeFailed \<noteq> EventSuspend" "EventProbeFailed \<noteq> EventDependenciesReady"
  "EventProbeFailed \<noteq> EventProbeSucceeded" "EventProbeFailed \<noteq> EventBeginRecovery"
  "EventProbeFailed \<noteq> EventCooldownElapsed" "EventProbeFailed \<noteq> EventOperatorResume"
  "EventBeginRecovery \<noteq> EventSuspend" "EventBeginRecovery \<noteq> EventDependenciesReady"
  "EventBeginRecovery \<noteq> EventProbeSucceeded" "EventBeginRecovery \<noteq> EventProbeFailed"
  "EventBeginRecovery \<noteq> EventCooldownElapsed" "EventBeginRecovery \<noteq> EventOperatorResume"
  "EventCooldownElapsed \<noteq> EventSuspend" "EventCooldownElapsed \<noteq> EventDependenciesReady"
  "EventCooldownElapsed \<noteq> EventProbeSucceeded" "EventCooldownElapsed \<noteq> EventProbeFailed"
  "EventCooldownElapsed \<noteq> EventBeginRecovery" "EventCooldownElapsed \<noteq> EventOperatorResume"
  "EventOperatorResume \<noteq> EventSuspend" "EventOperatorResume \<noteq> EventDependenciesReady"
  "EventOperatorResume \<noteq> EventProbeSucceeded" "EventOperatorResume \<noteq> EventProbeFailed"
  "EventOperatorResume \<noteq> EventBeginRecovery" "EventOperatorResume \<noteq> EventCooldownElapsed"
  by (simp_all add: go_consts)

lemma probe_succeeded_ctl_step:
  "step_probe_succeeded p s at = (s', reason) \<Longrightarrow> ctl_step p at s EventProbeSucceeded s' reason False"
  by (auto simp: step_probe_succeeded_def event_neq split: if_splits
      intro: fine recovered verified stay)

lemma probe_failed_ctl_step:
  "step_probe_failed p s at = (s', reason) \<Longrightarrow> ctl_step p at s EventProbeFailed s' reason False"
  by (auto simp: step_probe_failed_def Let_def not_le event_neq intro: failing degrade still_failing exhausted retry stay
      split: if_splits)

lemma step_event_ctl_step:
  assumes "step_event p s at ev = Inr (s', reason, approved)"
  shows "ctl_step p at s ev s' reason approved"
proof -
  consider "ev = EventSuspend" | "ev = EventDependenciesReady" | "ev = EventProbeSucceeded" | "ev = EventProbeFailed"
    | "ev = EventBeginRecovery" | "ev = EventCooldownElapsed" | "ev = EventOperatorResume"
    using assms by (auto simp: step_event_def split: if_splits)
  then show ?thesis
  proof cases
    case 1
    then show ?thesis using assms by (auto simp: step_event_def intro: suspend)
  next
    case 2
    then show ?thesis using assms by (auto simp: step_event_def event_neq intro: ready stay split: if_splits)
  next
    case 3
    then show ?thesis using assms probe_succeeded_ctl_step[of p s at]
      by (auto simp: step_event_def event_neq split: prod.splits)
  next
    case 4
    then show ?thesis using assms probe_failed_ctl_step[of p s at]
      by (auto simp: step_event_def event_neq split: prod.splits)
  next
    case 5
    then show ?thesis using assms
      by (auto simp: step_event_def step_begin_recovery_def Let_def not_le event_neq intro: refuse recover stay split: if_splits)
  next
    case 6
    then show ?thesis using assms by (auto simp: step_event_def event_neq intro: cooled stay split: if_splits)
  next
    case 7
    then show ?thesis using assms by (auto simp: step_event_def event_neq intro: resume split: if_splits)
  qed
qed

section \<open>Reachable snapshots\<close>

text \<open>
  The snapshots of a machine that starts fresh, not in the middle of a recovery, and makes any steps at ticks below \<open>2 ^ 62\<close>.
\<close>

inductive machine_reaches :: "ControlPolicy \<Rightarrow> ControlSnapshot \<Rightarrow> bool" for p where
  fresh: "State_Valid state \<Longrightarrow> state \<noteq> CtlRecovering \<Longrightarrow> machine_reaches p (NewSnapshot state)"
| step: "machine_reaches p s \<Longrightarrow> at < 2 ^ 62 \<Longrightarrow>
    Step \<lparr>mc_policy = p, mc_snapshot = s\<rparr> g at ev = Inr (d, m') \<Longrightarrow> machine_reaches p (mc_snapshot m')"

definition ctl_inv :: "ControlPolicy \<Rightarrow> ControlSnapshot \<Rightarrow> bool" where
  "ctl_inv p s \<longleftrightarrow> validateSnapshot s = None \<and> cs_Attempts s \<le> po_ActionBudget p \<and>
     (cs_State s = CtlHealthy \<longrightarrow> cs_Attempts s = 0 \<and> cs_ConsecutiveFailures s < po_FailureThreshold p) \<and>
     (cs_State s = CtlRecovering \<longrightarrow> cs_Attempts s \<noteq> 0 \<and> cs_RecoveringSince s \<le> cs_LastTick s \<and>
        cs_RecoveringSince s < cs_NextActionAt s) \<and>
     (cs_State s \<noteq> CtlRecovering \<longrightarrow> cs_RecoveringSince s = 0)"

text \<open>A policy that validates and whose delays leave room in 64 bits.\<close>

definition policy_ok :: "ControlPolicy \<Rightarrow> bool" where
  "policy_ok p \<longleftrightarrow> validatePolicy p = None \<and> po_MaxBackoff p < 2 ^ 62 \<and> po_Cooldown p < 2 ^ 62"

lemma policy_ok_backoff:
  assumes "policy_ok p"
  shows "backoff p n = Some (backoff_spec p (unat n))" "0 < the (backoff p n)" "the (backoff p n) < 2 ^ 62"
  using assms backoff_eq_spec[of p n] backoff_spec_bounds[of p "unat n"] by (auto simp: policy_ok_def)

lemma int64_delay:
  fixes at :: int
  assumes "0 \<le> at" "at < 2 ^ 62" "0 < c" "c < 2 ^ 62"
  shows "int64 (at + c) = at + c"
  using assms by simp

lemma validateSnapshot_None_iff:
  "validateSnapshot s = None \<longleftrightarrow> cs_SchemaVersion s = ControlSnapshotSchemaVersion \<and> State_Valid (cs_State s) \<and>
     0 \<le> cs_LastTick s \<and> 0 \<le> cs_RecoveringSince s \<and> 0 \<le> cs_NextActionAt s \<and> 0 \<le> cs_SafeUntil s"
  by (auto simp: validateSnapshot_def)

lemma fresh_inv: "policy_ok p \<Longrightarrow> State_Valid state \<Longrightarrow> state \<noteq> CtlRecovering \<Longrightarrow> ctl_inv p (NewSnapshot state)"
  by (auto simp: ctl_inv_def NewSnapshot_def validateSnapshot_def policy_ok_def validatePolicy_None_iff word_gt_0)

lemma step_event_inv:
  assumes "policy_ok p" "ctl_inv p s" "cs_LastTick s \<le> at" "at < 2 ^ 62"
    and "step_event p s at ev = Inr (s', reason, approved)"
  shows "ctl_inv p (s'\<lparr>cs_LastTick := at, cs_Generation := g\<rparr>)"
proof -
  have at: "0 \<le> at" using assms(2,3) by (auto simp: ctl_inv_def validateSnapshot_def split: if_splits)
  note delays = policy_ok_backoff[OF assms(1)] int64_delay[OF at assms(4)]
  have valid: "validatePolicy p = None" "po_Cooldown p < 2 ^ 62" using assms(1) by (simp_all add: policy_ok_def)
  from step_event_ctl_step[OF assms(5)] show ?thesis
  proof cases
    case recover
    have "cs_Attempts s + 1 \<le> po_ActionBudget p" "cs_Attempts s + 1 \<noteq> 0"
      using word_less_succ[of "cs_Attempts s"] word_succ_nonzero[of "cs_Attempts s"] recover(7) by blast+
    moreover have "0 \<le> at + backoff_spec p (unat (cs_Attempts s + 1))"
      using at delays(1,2)[of "cs_Attempts s + 1"] by simp
    ultimately show ?thesis
      using recover assms(2) at delays by (simp add: ctl_inv_def validateSnapshot_None_iff State_Valid_def ctl_neq)
  qed (use assms(2,3) at delays valid in \<open>auto simp: ctl_inv_def validateSnapshot_None_iff State_Valid_def ctl_neq
      resetHealthy_def validatePolicy_None_iff word_gt_0 split: if_splits\<close>)
qed

lemma Step_inv:
  assumes "policy_ok p" "ctl_inv p s" "at < 2 ^ 62" "Step \<lparr>mc_policy = p, mc_snapshot = s\<rparr> g at ev = Inr (d, m')"
  shows "ctl_inv p (mc_snapshot m')"
  using assms(4)
proof (rule Step_E)
  fix s' reason approved
  assume "cs_LastTick (mc_snapshot \<lparr>mc_policy = p, mc_snapshot = s\<rparr>) \<le> at"
    "step_event (mc_policy \<lparr>mc_policy = p, mc_snapshot = s\<rparr>) (mc_snapshot \<lparr>mc_policy = p, mc_snapshot = s\<rparr>) at ev =
      Inr (s', reason, approved)"
  then show ?thesis if "mc_snapshot m' = s'\<lparr>cs_LastTick := at, cs_Generation := g'\<rparr>" for g'
    using step_event_inv[OF assms(1,2) _ assms(3)] that by simp
qed

text \<open>
  C23: the machine stays within its budget. Every snapshot of a machine that starts fresh under a
  valid policy is itself valid; it has made no more attempts than the budget allows; a healthy one
  has none and fewer failures than the threshold; one that recovers has made an attempt, not in the
  future, and the next is due only later; and no other state claims a recovery is under way.
\<close>

theorem machine_invariant:
  assumes "policy_ok p" "machine_reaches p s"
  shows "ctl_inv p s"
  using assms(2)
  by induction (use assms(1) fresh_inv Step_inv in \<open>blast+\<close>)

definition sample_control :: ControlPolicy where
  "sample_control = \<lparr>po_FailureThreshold = 2, po_ActionBudget = 2, po_BaseBackoff = 10, po_MaxBackoff = 60,
     po_VerificationWindow = 5, po_Cooldown = 100\<rparr>"

lemma sample_control_ok: "policy_ok sample_control"
  by (simp add: policy_ok_def validatePolicy_def sample_control_def)

theorem machine_invariant_witness: "ctl_inv sample_control (NewSnapshot CtlHealthy)"
  by (rule machine_invariant[OF sample_control_ok]) (rule fresh; simp add: State_Valid_def ctl_neq)

text \<open>
  C24: the backoff loop ends, with the delay it should. For every valid policy and every 32-bit
  attempt the loop returns; the first attempt waits the base delay, each further one twice the one
  before, and from the point where half of the maximum was reached the maximum. The doubling never
  overflows and the delay is between one tick and the maximum.
\<close>

theorem backoff_ends:
  assumes "validatePolicy p = None" "po_MaxBackoff p < 2 ^ 63"
  shows "backoff p n = Some (backoff_spec p (unat n)) \<and> 0 < backoff_spec p (unat n) \<and>
    backoff_spec p (unat n) \<le> po_MaxBackoff p"
  using backoff_eq_spec[OF assms] backoff_spec_bounds[OF assms(1)] by simp

theorem backoff_ends_witness: "backoff sample_control 4 = Some 60"
proof -
  have "validatePolicy sample_control = None" "po_MaxBackoff sample_control < 2 ^ 63"
    by (simp_all add: validatePolicy_def sample_control_def)
  from backoff_ends[OF this, of 4] show ?thesis by (simp add: backoff_spec_def sample_control_def)
qed

section \<open>Budget and spacing\<close>

text \<open>
  C25: recoveries are counted. However a machine is driven, the recoveries it approves, together
  with the attempts it started from, are at most the budget for the start and once more for every
  step that gives the budget back (a verified recovery, a return to health, an elapsed cooldown, the
  end of a suspension, an operator's resume).
\<close>

theorem recoveries_budgeted:
  assumes "drive m xs = Inr (ds, m')" "cs_Attempts (mc_snapshot m) \<le> po_ActionBudget (mc_policy m)"
  shows "length (filter de_RecoveryApproved ds) + unat (cs_Attempts (mc_snapshot m)) \<le>
    unat (po_ActionBudget (mc_policy m)) * (1 + length (filter refunds ds))"
  using assms
proof (induction xs arbitrary: m ds)
  case Nil
  then show ?case by (simp add: word_le_nat_alt)
next
  case (Cons x xs)
  obtain at ev where x: "x = (at, ev)" by force
  obtain d m1 ds' where st: "Step m (cs_Generation (mc_snapshot m)) at ev = Inr (d, m1)"
    and rest: "drive m1 xs = Inr (ds', m')" and ds: "ds = d # ds'"
    using Cons.prems(1)[unfolded x] by (rule drive_Cons_E)
  let ?b = "unat (po_ActionBudget (mc_policy m))"
  note a = Step_attempts[OF st]
  have le: "cs_Attempts (mc_snapshot m1) \<le> po_ActionBudget (mc_policy m1)"
    using a Cons.prems(2) word_less_succ(2) by auto
  have ih: "length (filter de_RecoveryApproved ds') + unat (cs_Attempts (mc_snapshot m1)) \<le> ?b * (1 + length (filter refunds ds'))"
    using Cons.IH[OF rest le] a(3) by simp
  have start: "unat (cs_Attempts (mc_snapshot m)) \<le> ?b" using Cons.prems(2) by (simp add: word_le_nat_alt)
  show ?case
  proof (cases "de_RecoveryApproved d")
    case True
    have "unat (cs_Attempts (mc_snapshot m) + 1) = unat (cs_Attempts (mc_snapshot m)) + 1"
      using a(2)[OF True] by unat_arith
    then show ?thesis using True ih a(1) by (simp add: ds algebra_simps)
  next
    case False
    then show ?thesis using ih a(1) start by (cases "refunds d") (simp_all add: ds)
  qed
qed

text \<open>A machine that fails twice, recovers, fails again and recovers once more.\<close>

definition sample_machine :: Machine where
  "sample_machine = \<lparr>mc_policy = sample_control, mc_snapshot = NewSnapshot CtlHealthy\<rparr>"

definition sample_steps :: "(tick \<times> control_event) list" where
  "sample_steps = [(1, EventProbeFailed), (2, EventProbeFailed), (3, EventBeginRecovery), (9, EventProbeFailed),
     (13, EventBeginRecovery)]"

definition sample_drive :: "(tick \<times> control_event) list \<Rightarrow> Decision list \<times> Machine" where
  "sample_drive xs = (case drive sample_machine xs of Inr r \<Rightarrow> r | Inl _ \<Rightarrow> ([], sample_machine))"

theorem recoveries_budgeted_witness:
  "length (filter de_RecoveryApproved (fst (sample_drive sample_steps))) = 2 \<and>
   2 \<le> unat (po_ActionBudget sample_control) * (1 + length (filter refunds (fst (sample_drive sample_steps))))"
proof -
  have run: "drive sample_machine sample_steps = Inr (fst (sample_drive sample_steps), snd (sample_drive sample_steps))"
    "length (filter de_RecoveryApproved (fst (sample_drive sample_steps))) = 2" by code_simp+
  have "cs_Attempts (mc_snapshot sample_machine) \<le> po_ActionBudget (mc_policy sample_machine)" by code_simp
  from recoveries_budgeted[OF run(1) this] show ?thesis
    using run(2) by (simp add: sample_machine_def)
qed

lemma ctl_step_pending:
  assumes "ctl_step p at s ev s' reason approved" "\<not> refunding reason (cs_State s)" "cs_State s \<noteq> CtlHealthy"
    "\<not> approved"
  shows "cs_State s' \<noteq> CtlHealthy \<and> cs_NextActionAt s' = cs_NextActionAt s"
  using assms by cases (auto simp: ctl_neq)

lemma drive_pending:
  assumes "drive m xs = Inr (ds, m')" "\<forall>d\<in>set ds. \<not> refunds d \<and> \<not> de_RecoveryApproved d"
    "cs_State (mc_snapshot m) \<noteq> CtlHealthy"
  shows "cs_NextActionAt (mc_snapshot m') = cs_NextActionAt (mc_snapshot m)"
  using assms
proof (induction xs arbitrary: m ds)
  case (Cons x xs)
  obtain at ev where x: "x = (at, ev)" by force
  obtain d m1 ds' where st: "Step m (cs_Generation (mc_snapshot m)) at ev = Inr (d, m1)"
    and rest: "drive m1 xs = Inr (ds', m')" and ds: "ds = d # ds'"
    using Cons.prems(1)[unfolded x] by (rule drive_Cons_E)
  have quiet: "\<not> refunds d" "\<not> de_RecoveryApproved d" using Cons.prems(2) by (auto simp: ds)
  obtain s reason where s: "step_event (mc_policy m) (mc_snapshot m) at ev = Inr (s, reason, False)"
    "\<not> refunding reason (cs_State (mc_snapshot m))"
    "cs_State (mc_snapshot m1) = cs_State s" "cs_NextActionAt (mc_snapshot m1) = cs_NextActionAt s"
    using st quiet by (auto elim!: Step_E)
  have "cs_State s \<noteq> CtlHealthy \<and> cs_NextActionAt s = cs_NextActionAt (mc_snapshot m)"
    using ctl_step_pending[OF step_event_ctl_step[OF s(1)] s(2) Cons.prems(3)] by simp
  then show ?case using Cons.IH[OF rest] Cons.prems(2) s(3,4) by (simp add: ds)
qed simp

text \<open>
  C26: recoveries are spaced. After a machine approves a recovery it approves the next one, unless
  something gave the budget back in between, only when the backoff of that attempt has passed.
\<close>

theorem recoveries_spaced:
  assumes "Step m g at ev = Inr (d, m1)" "de_RecoveryApproved d"
    and "drive m1 xs = Inr (ds, m2)" "\<forall>e\<in>set ds. \<not> refunds e \<and> \<not> de_RecoveryApproved e"
    and "Step m2 g' at' ev' = Inr (d', m3)" "de_RecoveryApproved d'"
  shows "at' \<ge> int64 (at + the (backoff (mc_policy m) (cs_Attempts (mc_snapshot m1))))"
proof -
  obtain s reason where s: "step_event (mc_policy m) (mc_snapshot m) at ev = Inr (s, reason, True)"
    "cs_State (mc_snapshot m1) = cs_State s" "cs_NextActionAt (mc_snapshot m1) = cs_NextActionAt s"
    "cs_Attempts (mc_snapshot m1) = cs_Attempts s"
    using assms(1,2) by (auto elim!: Step_E)
  obtain s' reason' where s': "step_event (mc_policy m2) (mc_snapshot m2) at' ev' = Inr (s', reason', True)"
    using assms(5,6) by (auto elim!: Step_E)
  have "cs_State (mc_snapshot m1) \<noteq> CtlHealthy" "cs_NextActionAt (mc_snapshot m1) =
      int64 (at + the (backoff (mc_policy m) (cs_Attempts (mc_snapshot m1))))"
    using step_event_attempts[OF s(1)] s by (simp_all add: ctl_neq)
  moreover have "cs_NextActionAt (mc_snapshot m2) \<le> at'" using step_event_attempts[OF s'] by simp
  ultimately show ?thesis using drive_pending[OF assms(3,4)] by simp
qed

theorem recoveries_spaced_witness: "(13 :: int) \<ge> int64 (3 + the (backoff sample_control 1))"
proof -
  let ?at = "\<lambda>n. snd (sample_drive (take n sample_steps))"
  have 1: "Step (?at 2) (cs_Generation (mc_snapshot (?at 2))) 3 EventBeginRecovery =
      Inr (hd (drop 2 (fst (sample_drive (take 3 sample_steps)))), ?at 3)"
    "de_RecoveryApproved (hd (drop 2 (fst (sample_drive (take 3 sample_steps)))))" by code_simp+
  have 2: "drive (?at 3) [(9, EventProbeFailed)] = Inr (drop 3 (fst (sample_drive (take 4 sample_steps))), ?at 4)"
    "\<forall>e\<in>set (drop 3 (fst (sample_drive (take 4 sample_steps)))). \<not> refunds e \<and> \<not> de_RecoveryApproved e" by code_simp+
  have 3: "Step (?at 4) (cs_Generation (mc_snapshot (?at 4))) 13 EventBeginRecovery =
      Inr (hd (drop 4 (fst (sample_drive sample_steps))), ?at 5)"
    "de_RecoveryApproved (hd (drop 4 (fst (sample_drive sample_steps))))" by code_simp+
  have 4: "mc_policy (?at 2) = sample_control" "cs_Attempts (mc_snapshot (?at 3)) = 1" by code_simp+
  from recoveries_spaced[OF 1 2 3] show ?thesis unfolding 4 .
qed

section \<open>Safe mode and generations\<close>

lemma ctl_step_safe:
  assumes "ctl_step p at s ev s' reason approved" "cs_State s = CtlSafeMode" "ev \<noteq> EventSuspend" "ev \<noteq> EventOperatorResume"
    "at < cs_SafeUntil s"
  shows "s' = s \<and> \<not> approved"
  using assms by cases (auto simp: ctl_neq)

text \<open>
  C27: safe mode holds. As long as neither a suspension nor an operator intervenes and the cooldown
  has not passed, no sequence of probes, recovery requests and cooldown events takes a machine out
  of safe mode or has a recovery approved.
\<close>

theorem safe_mode_holds:
  assumes "drive m xs = Inr (ds, m')" "cs_State (mc_snapshot m) = CtlSafeMode"
    and "\<forall>(at, ev)\<in>set xs. ev \<noteq> EventSuspend \<and> ev \<noteq> EventOperatorResume \<and> at < cs_SafeUntil (mc_snapshot m)"
  shows "cs_State (mc_snapshot m') = CtlSafeMode \<and> (\<forall>d\<in>set ds. \<not> de_RecoveryApproved d)"
  using assms
proof (induction xs arbitrary: m ds)
  case (Cons x xs)
  obtain at ev where x: "x = (at, ev)" by force
  obtain d m1 ds' where st: "Step m (cs_Generation (mc_snapshot m)) at ev = Inr (d, m1)"
    and rest: "drive m1 xs = Inr (ds', m')" and ds: "ds = d # ds'"
    using Cons.prems(1)[unfolded x] by (rule drive_Cons_E)
  have ev: "ev \<noteq> EventSuspend" "ev \<noteq> EventOperatorResume" "at < cs_SafeUntil (mc_snapshot m)"
    using Cons.prems(3) by (auto simp: x)
  obtain s reason approved where s: "step_event (mc_policy m) (mc_snapshot m) at ev = Inr (s, reason, approved)"
    "cs_State (mc_snapshot m1) = cs_State s" "cs_SafeUntil (mc_snapshot m1) = cs_SafeUntil s"
    "de_RecoveryApproved d = approved"
    using st by (auto elim!: Step_E)
  have "s = mc_snapshot m \<and> \<not> approved"
    by (rule ctl_step_safe[OF step_event_ctl_step[OF s(1)] Cons.prems(2) ev])
  then show ?case using Cons.IH[OF rest] Cons.prems(2,3) s by (simp add: ds)
qed simp

definition safe_steps :: "(tick \<times> control_event) list" where
  "safe_steps = sample_steps @ [(19, EventProbeFailed)]"

theorem safe_mode_holds_witness:
  "cs_State (mc_snapshot (snd (sample_drive (safe_steps @ [(20, EventProbeSucceeded), (21, EventCooldownElapsed)])))) = CtlSafeMode"
proof -
  let ?m = "snd (sample_drive safe_steps)" and ?xs = "[(20, EventProbeSucceeded), (21, EventCooldownElapsed)]"
  have "drive ?m ?xs = Inr (drop 6 (fst (sample_drive (safe_steps @ ?xs))), snd (sample_drive (safe_steps @ ?xs)))"
    "cs_State (mc_snapshot ?m) = CtlSafeMode"
    "\<forall>(at, ev)\<in>set ?xs. ev \<noteq> EventSuspend \<and> ev \<noteq> EventOperatorResume \<and> at < cs_SafeUntil (mc_snapshot ?m)"
    by code_simp+
  from safe_mode_holds[OF this] show ?thesis by simp
qed

text \<open>
  What the cooldown does not survive: a machine in safe mode that is suspended and then told its
  dependencies are ready is healthy again with its whole budget, even within the same tick.
\<close>

lemma suspension_clears_safe_mode:
  assumes "cs_State (mc_snapshot m) = CtlSafeMode" "cs_LastTick (mc_snapshot m) \<le> t"
  shows "\<exists>ds m'. drive m [(t, EventSuspend), (t, EventDependenciesReady)] = Inr (ds, m') \<and>
    cs_State (mc_snapshot m') = CtlHealthy \<and> cs_Attempts (mc_snapshot m') = 0 \<and> cs_SafeUntil (mc_snapshot m') = 0"
proof -
  have "step_event (mc_policy m) (mc_snapshot m) t EventSuspend = Inr ((mc_snapshot m)\<lparr>cs_State := CtlSuspended,
      cs_ConsecutiveFailures := 0, cs_RecoveringSince := 0\<rparr>, CtlReasonIntentionalSleep, False)"
    by (simp add: step_event_def)
  then obtain d1 m1 g1 where 1: "Step m (cs_Generation (mc_snapshot m)) t EventSuspend = Inr (d1, m1)"
    "mc_snapshot m1 = (mc_snapshot m)\<lparr>cs_State := CtlSuspended, cs_ConsecutiveFailures := 0, cs_RecoveringSince := 0,
       cs_LastTick := t, cs_Generation := g1\<rparr>"
    by (rule Step_I[OF _ assms(2)])
  have "step_event (mc_policy m1) (mc_snapshot m1) t EventDependenciesReady =
      Inr (resetHealthy (mc_snapshot m1), CtlReasonDependenciesReady, False)"
    by (simp add: step_event_def event_neq 1(2))
  moreover have "cs_LastTick (mc_snapshot m1) \<le> t" by (simp add: 1(2))
  ultimately obtain d2 m2 g2 where
    "Step m1 (cs_Generation (mc_snapshot m1)) t EventDependenciesReady = Inr (d2, m2)"
    "mc_snapshot m2 = (resetHealthy (mc_snapshot m1))\<lparr>cs_LastTick := t, cs_Generation := g2\<rparr>"
    by (rule Step_I)
  then show ?thesis using 1(1) by (simp add: resetHealthy_def)
qed

text \<open>
  C28: a stale writer is refused. Once a step has changed the snapshot, a second caller that still
  holds the generation from before that step gets an error, whatever it asks for.
\<close>

theorem stale_writer_refused:
  assumes "Step m g at ev = Inr (d, m')" "mc_snapshot m' \<noteq> mc_snapshot m"
  shows "Step m' g at' ev' = Inl ErrStaleGeneration"
proof -
  obtain s reason approved where s: "g = cs_Generation (mc_snapshot m)"
    "step_event (mc_policy m) (mc_snapshot m) at ev = Inr (s, reason, approved)"
    "mc_snapshot m' = (let s = s\<lparr>cs_LastTick := at\<rparr> in if s \<noteq> mc_snapshot m then s\<lparr>cs_Generation := cs_Generation s + 1\<rparr> else s)"
    using assms(1) by (auto simp: Step_def Let_def split: if_splits sum.splits prod.splits)
  have "cs_Generation s = g" using step_event_generation[OF s(2)] s(1) by simp
  moreover have "s\<lparr>cs_LastTick := at\<rparr> \<noteq> mc_snapshot m" using s(3) assms(2) by (auto simp: Let_def)
  ultimately have "cs_Generation (mc_snapshot m') = g + 1" using s(3) by (simp add: Let_def)
  then show ?thesis by (simp add: Step_def)
qed

theorem stale_writer_refused_witness:
  "Step (snd (sample_drive [(1, EventProbeFailed)])) 0 2 EventProbeFailed = Inl ErrStaleGeneration"
proof -
  have "Step sample_machine 0 1 EventProbeFailed =
      Inr (hd (fst (sample_drive [(1, EventProbeFailed)])), snd (sample_drive [(1, EventProbeFailed)]))"
    "mc_snapshot (snd (sample_drive [(1, EventProbeFailed)])) \<noteq> mc_snapshot sample_machine"
    by code_simp+
  then show ?thesis by (rule stale_writer_refused)
qed

end
