(* ===== verification/Pritunl_Laws.thy ===== *)
theory Pritunl_Laws
  imports Pritunl Control_Laws
begin

text \<open>
  The properties of the Pritunl planner with their witnesses: it answers every admissible
  observation, it reconnects only on the grounds it names, it spaces its requests to root, its state
  stays well formed and a failed operator action leaves it as it was.
\<close>

section \<open>Steps of the planner\<close>

lemma planner_step_E:
  assumes "planner_step pl at ev = Inr (d, pl')"
  obtains m where "Step (pn_machine pl) (cs_Generation (planner_snapshot pl)) at ev = Inr (d, m)" "pl' = pl\<lparr>pn_machine := m\<rparr>"
  using assms by (auto simp: planner_step_def split: sum.splits)

text \<open>No event the planner sends is refused.\<close>

lemma planner_step_total:
  assumes "cs_LastTick (planner_snapshot pl) \<le> at"
    and "ev \<in> {EventSuspend, EventDependenciesReady, EventProbeSucceeded, EventProbeFailed, EventBeginRecovery, EventCooldownElapsed}"
  shows "\<exists>d pl'. planner_step pl at ev = Inr (d, pl')"
proof -
  have "\<exists>r. step_event (mc_policy (pn_machine pl)) (planner_snapshot pl) at ev = Inr r"
    using assms(2) by (auto simp: step_event_def event_neq simp del: split_paired_Ex split: prod.splits)
  then show ?thesis using assms(1) by (auto simp: planner_step_def Step_def Let_def split: prod.splits)
qed

lemma planner_step_tick: "planner_step pl at ev = Inr (d, pl') \<Longrightarrow> cs_LastTick (planner_snapshot pl') = at"
  by (auto elim!: planner_step_E Step_E)

lemma after_step_total:
  assumes "cs_LastTick (planner_snapshot pl) \<le> at"
    and "ev \<in> {EventSuspend, EventDependenciesReady, EventProbeSucceeded, EventProbeFailed, EventBeginRecovery, EventCooldownElapsed}"
    and "\<And>d pl'. cs_LastTick (planner_snapshot pl') \<le> at \<Longrightarrow> \<exists>p. fst (k d pl') = Inr p"
  shows "\<exists>p. fst (after_step pl at ev k) = Inr p"
proof -
  obtain d pl' where st: "planner_step pl at ev = Inr (d, pl')" using planner_step_total[OF assms(1,2)] by blast
  then show ?thesis using assms(3)[of pl' d] planner_step_tick[OF st] by (simp add: after_step_def)
qed

lemma planner_result_total [simp]: "\<exists>p. fst (planner_result pl r a n) = Inr p"
  by (simp add: planner_result_def)

lemma plan_recover_total: "cs_LastTick (planner_snapshot pl) \<le> ob_At o' \<Longrightarrow> \<exists>p. fst (plan_recover pl o') = Inr p"
  by (auto simp: plan_recover_def intro!: after_step_total)

lemma plan_failed_total: "cs_LastTick (planner_snapshot pl) \<le> ob_At o' \<Longrightarrow> \<exists>p. fst (plan_failed pl o') = Inr p"
  by (auto simp: plan_failed_def Let_def intro!: after_step_total plan_recover_total)

lemma plan_disconnected_total: "cs_LastTick (planner_snapshot pl) \<le> ob_At o' \<Longrightarrow> \<exists>p. fst (plan_disconnected pl o') = Inr p"
  by (auto simp: plan_disconnected_def Let_def intro!: plan_failed_total)

lemma plan_connected_total: "cs_LastTick (planner_snapshot pl) \<le> ob_At o' \<Longrightarrow> \<exists>p. fst (plan_connected pl o') = Inr p"
  by (auto simp: plan_connected_def Let_def intro!: after_step_total)

lemma plan_session_total: "cs_LastTick (planner_snapshot pl) \<le> ob_At o' \<Longrightarrow> \<exists>p. fst (plan_session pl o') = Inr p"
  by (auto simp: plan_session_def intro!: after_step_total plan_connected_total plan_disconnected_total)

lemma plan_wake_total: "cs_LastTick (planner_snapshot pl) \<le> ob_At o' \<Longrightarrow> \<exists>p. fst (plan_wake pl o') = Inr p"
  by (auto simp: plan_wake_def intro!: after_step_total plan_session_total)

lemma plan_outer_total: "cs_LastTick (planner_snapshot pl) \<le> ob_At o' \<Longrightarrow> \<exists>p. fst (plan_outer pl o') = Inr p"
  by (auto simp: plan_outer_def intro!: after_step_total plan_wake_total)

lemma plan_settle_total: "cs_LastTick (planner_snapshot pl) \<le> ob_At o' \<Longrightarrow> \<exists>p. fst (plan_settle pl o') = Inr p"
  by (auto simp: plan_settle_def Let_def intro!: after_step_total plan_outer_total)

lemma planner_suspend_total: "cs_LastTick (planner_snapshot pl) \<le> at \<Longrightarrow> \<exists>p. fst (planner_suspend pl at r) = Inr p"
  by (auto simp: planner_suspend_def Let_def intro!: after_step_total)

text \<open>
  C29: the planner always answers. An observation gets a plan exactly if its tick is not negative and
  not before the machine's or the previous observation's, its inner state is one of the declared ones
  and its remaining one-time password window is within the period; no internal step ever fails.
  A refused observation leaves the planner as it was.
\<close>

theorem planner_answers:
  shows "(\<exists>p. fst (Planner_Plan pl o') = Inr p) = (0 \<le> ob_At o' \<and> OptionalInner_valid (ob_OptionalInner o') \<and>
      ob_OTPSecondsRemaining o' \<le> pp_OTPPeriod (pn_policy pl) \<and> cs_LastTick (planner_snapshot pl) \<le> ob_At o' \<and>
      (pn_hasObservation pl \<longrightarrow> pn_lastObservationAt pl \<le> ob_At o')) \<and>
    ((\<exists>e. fst (Planner_Plan pl o') = Inl e) \<longrightarrow> snd (Planner_Plan pl o') = pl)"
proof (cases "0 \<le> ob_At o' \<and> OptionalInner_valid (ob_OptionalInner o') \<and>
      ob_OTPSecondsRemaining o' \<le> pp_OTPPeriod (pn_policy pl) \<and> cs_LastTick (planner_snapshot pl) \<le> ob_At o' \<and>
      (pn_hasObservation pl \<longrightarrow> pn_lastObservationAt pl \<le> ob_At o')")
  case True
  have "\<exists>p. fst (Planner_Plan pl o') = Inr p"
    using True by (auto simp: Planner_Plan_def Let_def not_less intro!: planner_suspend_total plan_settle_total)
  then show ?thesis using True by auto
next
  case False
  then have "\<exists>e. Planner_Plan pl o' = (Inl e, pl)"
    unfolding Planner_Plan_def by (auto simp: not_le not_less)
  then show ?thesis using False by auto
qed

text \<open>A planner and observations of a session that is not connected.\<close>

definition sample_planner :: Planner where
  "sample_planner = \<lparr>pn_policy = \<lparr>pp_Recovery = sample_control, pp_WakeSettle = 3, pp_ConnectingGrace = 5,
       pp_OTPPeriod = 30, pp_OTPMinValid = 4\<rparr>,
     pn_machine = sample_machine, pn_fullWakeSince = 0, pn_trackingFullWake = False, pn_connectingSince = 0,
     pn_trackingConnecting = False, pn_lastObservationAt = 0, pn_hasObservation = False, pn_lastRescueAt = 0,
     pn_hasRequestedRescue = False\<rparr>"

definition sample_observation :: "tick \<Rightarrow> string \<Rightarrow> PritunlObservation" where
  "sample_observation t service = \<lparr>ob_At = t, ob_Session = SessionActive, ob_Lid = LidStateOpen, ob_Wake = WakeKindFull,
     ob_OuterReady = True, ob_Profile = \<lparr>po_Found = True, po_State = ''inactive'', po_Connecting = False,
       po_HasClientAddress = False\<rparr>, ob_OptionalInner = OptionalInnerUnknown, ob_OTPSecondsRemaining = 20,
     ob_Service = service, ob_ProfileUnreadable = False\<rparr>"

theorem planner_answers_witness: "\<exists>p. fst (Planner_Plan sample_planner (sample_observation 5 ''running'')) = Inr p"
proof -
  have "0 \<le> ob_At (sample_observation 5 ''running'')" "OptionalInner_valid (ob_OptionalInner (sample_observation 5 ''running''))"
    "ob_OTPSecondsRemaining (sample_observation 5 ''running'') \<le> pp_OTPPeriod (pn_policy sample_planner)"
    "cs_LastTick (planner_snapshot sample_planner) \<le> ob_At (sample_observation 5 ''running'')"
    "\<not> pn_hasObservation sample_planner" by code_simp+
  then show ?thesis using planner_answers[of sample_planner "sample_observation 5 ''running''"] by blast
qed

section \<open>Requests to root\<close>

definition agree :: "Planner \<Rightarrow> Planner \<Rightarrow> bool" where
  "agree pl pl' \<longleftrightarrow> pn_policy pl' = pn_policy pl \<and> pn_hasRequestedRescue pl' = pn_hasRequestedRescue pl \<and>
     pn_lastRescueAt pl' = pn_lastRescueAt pl"

definition asks_root :: "planner_error + PritunlPlan \<Rightarrow> bool" where
  "asks_root r \<longleftrightarrow> (case r of Inl _ \<Rightarrow> False | Inr p \<Rightarrow> pl_Action p = PActionRequestRescue)"

definition rescue_log :: "Planner \<Rightarrow> tick \<Rightarrow> plan_result \<Rightarrow> bool" where
  "rescue_log pl t r \<longleftrightarrow>
     (if asks_root (fst r)
      then rescueRequestAllowed pl t \<and> pn_policy (snd r) = pn_policy pl \<and> pn_hasRequestedRescue (snd r) \<and>
           pn_lastRescueAt (snd r) = t
      else agree pl (snd r))"

lemma agree_update [simp]:
  "agree pl (pl1\<lparr>pn_machine := m\<rparr>) = agree pl pl1" "agree pl (pl1\<lparr>pn_trackingConnecting := b\<rparr>) = agree pl pl1"
  "agree pl (pl1\<lparr>pn_trackingFullWake := b\<rparr>) = agree pl pl1" "agree pl (pl1\<lparr>pn_connectingSince := t\<rparr>) = agree pl pl1"
  "agree pl (pl1\<lparr>pn_fullWakeSince := t\<rparr>) = agree pl pl1" "agree pl (pl1\<lparr>pn_lastObservationAt := t\<rparr>) = agree pl pl1"
  "agree pl (pl1\<lparr>pn_hasObservation := b\<rparr>) = agree pl pl1" "agree pl pl"
  by (simp_all add: agree_def)

lemma rescue_log_result [simp]:
  "agree pl pl1 \<Longrightarrow> a \<noteq> PActionRequestRescue \<Longrightarrow> rescue_log pl t (planner_result pl1 r a n)"
  by (simp add: rescue_log_def planner_result_def asks_root_def)

lemma rescue_log_request [simp]:
  "agree pl pl1 \<Longrightarrow> rescueRequestAllowed pl1 t \<Longrightarrow>
   rescue_log pl t (planner_result (pl1\<lparr>pn_lastRescueAt := t, pn_hasRequestedRescue := True\<rparr>) r PActionRequestRescue n)"
  by (auto simp: rescue_log_def planner_result_def asks_root_def agree_def rescueRequestAllowed_def split: if_splits)

lemma after_step_log:
  assumes "agree pl pl1" "\<And>d m. rescue_log pl t (k d (pl1\<lparr>pn_machine := m\<rparr>))"
  shows "rescue_log pl t (after_step pl1 at ev k)"
proof (cases "planner_step pl1 at ev")
  case (Inl err)
  then show ?thesis using assms(1) by (simp add: after_step_def rescue_log_def asks_root_def)
next
  case (Inr x)
  obtain d pl' where x: "x = (d, pl')" by force
  obtain m where "pl' = pl1\<lparr>pn_machine := m\<rparr>" using Inr[unfolded x] by (rule planner_step_E)
  then show ?thesis using assms(2)[of d m] Inr by (simp add: after_step_def x)
qed

lemma action_neq [simp]: "PActionNone \<noteq> PActionRequestRescue" "PActionReconnect \<noteq> PActionRequestRescue"
  "PActionNone \<noteq> PActionReconnect" "PActionRequestRescue \<noteq> PActionReconnect"
  by (simp_all add: go_consts)

lemma plan_recover_log: "agree pl pl1 \<Longrightarrow> rescue_log pl (ob_At o') (plan_recover pl1 o')"
  by (auto simp: plan_recover_def intro!: after_step_log)

lemma plan_failed_log: "agree pl pl1 \<Longrightarrow> rescue_log pl (ob_At o') (plan_failed pl1 o')"
  by (auto simp: plan_failed_def Let_def intro!: after_step_log plan_recover_log)

lemma plan_disconnected_log: "agree pl pl1 \<Longrightarrow> rescue_log pl (ob_At o') (plan_disconnected pl1 o')"
  by (auto simp: plan_disconnected_def Let_def intro!: plan_failed_log)

lemma rescueRequestAllowed_machine [simp]:
  "rescueRequestAllowed (pl\<lparr>pn_machine := m\<rparr>) t = rescueRequestAllowed pl t"
  by (simp add: rescueRequestAllowed_def)

lemma plan_connected_log: "agree pl pl1 \<Longrightarrow> rescue_log pl (ob_At o') (plan_connected pl1 o')"
  by (auto simp: plan_connected_def Let_def intro!: after_step_log)

lemma plan_session_log: "agree pl pl1 \<Longrightarrow> rescue_log pl (ob_At o') (plan_session pl1 o')"
  by (auto simp: plan_session_def intro!: after_step_log plan_connected_log plan_disconnected_log)

lemma plan_wake_log: "agree pl pl1 \<Longrightarrow> rescue_log pl (ob_At o') (plan_wake pl1 o')"
  by (auto simp: plan_wake_def intro!: after_step_log plan_session_log)

lemma plan_outer_log: "agree pl pl1 \<Longrightarrow> rescue_log pl (ob_At o') (plan_outer pl1 o')"
  by (auto simp: plan_outer_def intro!: after_step_log plan_wake_log)

lemma plan_settle_log: "agree pl pl1 \<Longrightarrow> rescue_log pl (ob_At o') (plan_settle pl1 o')"
  by (auto simp: plan_settle_def Let_def intro!: after_step_log plan_outer_log)

lemma planner_suspend_log: "agree pl pl1 \<Longrightarrow> rescue_log pl t (planner_suspend pl1 at r)"
  by (auto simp: planner_suspend_def Let_def intro!: after_step_log)

lemma Planner_Plan_log: "rescue_log pl (ob_At o') (Planner_Plan pl o')"
  by (auto simp: Planner_Plan_def Let_def rescue_log_def[of _ _ "(Inl _, _)"] asks_root_def
      intro!: planner_suspend_log plan_settle_log)

text \<open>Once root was asked at some tick, the planner remembers a request at that tick or later.\<close>

lemma rescue_remembered:
  assumes "pn_hasRequestedRescue pl" "t \<le> pn_lastRescueAt pl" "pn_lastRescueAt pl < 2 ^ 62"
    and "0 < po_Cooldown (pp_Recovery (pn_policy pl))" "po_Cooldown (pp_Recovery (pn_policy pl)) < 2 ^ 62"
    and "0 \<le> t" "ob_At o' < 2 ^ 62" "Planner_Plan pl o' = (r, pl')"
  shows "pn_hasRequestedRescue pl' \<and> t \<le> pn_lastRescueAt pl' \<and> pn_lastRescueAt pl' < 2 ^ 62 \<and>
    pn_policy pl' = pn_policy pl \<and> (asks_root r \<longrightarrow> t + po_Cooldown (pp_Recovery (pn_policy pl)) \<le> ob_At o')"
proof -
  note log = Planner_Plan_log[of pl o', unfolded assms(8) rescue_log_def agree_def, simplified]
  show ?thesis
  proof (cases "asks_root r")
    case True
    have "int64 (pn_lastRescueAt pl + po_Cooldown (pp_Recovery (pn_policy pl))) =
        pn_lastRescueAt pl + po_Cooldown (pp_Recovery (pn_policy pl))"
      using assms by (intro int64_delay) auto
    then show ?thesis using log True assms by (auto simp: rescueRequestAllowed_def)
  qed (use log assms in auto)
qed

lemma rescues_after:
  assumes "run_steps Planner_Plan pl os = (rs, pl')" "pn_hasRequestedRescue pl" "t \<le> pn_lastRescueAt pl"
    and "pn_lastRescueAt pl < 2 ^ 62" "0 < po_Cooldown (pp_Recovery (pn_policy pl))"
    and "po_Cooldown (pp_Recovery (pn_policy pl)) < 2 ^ 62" "0 \<le> t" "\<forall>o'\<in>set os. ob_At o' < 2 ^ 62"
    and "j < length os" "asks_root (rs ! j)"
  shows "t + po_Cooldown (pp_Recovery (pn_policy pl)) \<le> ob_At (os ! j)"
  using assms
proof (induction os arbitrary: pl rs j)
  case (Cons o' os)
  obtain r pl1 rs1 where st: "Planner_Plan pl o' = (r, pl1)" "run_steps Planner_Plan pl1 os = (rs1, pl')" "rs = r # rs1"
    using Cons.prems(1) by (auto split: prod.splits)
  note one = rescue_remembered[OF Cons.prems(2-7) _ st(1)]
  show ?case
  proof (cases j)
    case 0
    then show ?thesis using one Cons.prems(8,10) st(3) by simp
  next
    case (Suc k)
    then show ?thesis
      using Cons.IH[OF st(2), of k] one Cons.prems by (simp add: st(3))
  qed
qed simp

text \<open>
  C30: requests to root are spaced. Whatever a planner observes, if it asks root to restart the
  service at one observation and again at a later one, at least the recovery cooldown lies between
  their ticks.
\<close>

theorem rescues_spaced:
  assumes "run_steps Planner_Plan pl os = (rs, pl')" "i < j" "j < length os"
    and "asks_root (rs ! i)" "asks_root (rs ! j)"
    and "\<forall>o'\<in>set os. 0 \<le> ob_At o' \<and> ob_At o' < 2 ^ 62"
    and "0 < po_Cooldown (pp_Recovery (pn_policy pl))" "po_Cooldown (pp_Recovery (pn_policy pl)) < 2 ^ 62"
  shows "ob_At (os ! i) + po_Cooldown (pp_Recovery (pn_policy pl)) \<le> ob_At (os ! j)"
  using assms
proof (induction os arbitrary: pl rs i j)
  case (Cons o' os)
  obtain r pl1 rs1 where st: "Planner_Plan pl o' = (r, pl1)" "run_steps Planner_Plan pl1 os = (rs1, pl')" "rs = r # rs1"
    using Cons.prems(1) by (auto split: prod.splits)
  obtain k where j: "j = Suc k" using Cons.prems(2) by (cases j) auto
  note log = Planner_Plan_log[of pl o', unfolded st(1) rescue_log_def agree_def, simplified]
  show ?case
  proof (cases i)
    case 0
    then have "asks_root r" using Cons.prems(4) st(3) by simp
    then show ?thesis
      using rescues_after[OF st(2), of "ob_At o'" k] log Cons.prems j 0 by (simp add: st(3))
  next
    case (Suc n)
    moreover have "pn_policy pl1 = pn_policy pl" using log by (auto split: if_splits)
    ultimately show ?thesis
      using Cons.IH[OF st(2), of n k] Cons.prems j by (simp add: st(3))
  qed
qed simp

definition rescue_observations :: "PritunlObservation list" where
  "rescue_observations = map (\<lambda>t. sample_observation t ServiceStopped) [1, 5, 9, 200]"

theorem rescues_spaced_witness:
  "asks_root (fst (run_steps Planner_Plan sample_planner rescue_observations) ! 1) \<and>
   asks_root (fst (run_steps Planner_Plan sample_planner rescue_observations) ! 3) \<and>
   ob_At (rescue_observations ! 1) + po_Cooldown sample_control \<le> ob_At (rescue_observations ! 3)"
proof -
  let ?r = "run_steps Planner_Plan sample_planner rescue_observations"
  have asked: "asks_root (fst ?r ! 1)" "asks_root (fst ?r ! 3)" "length rescue_observations = 4" by code_simp+
  moreover have "\<forall>o'\<in>set rescue_observations. 0 \<le> ob_At o' \<and> ob_At o' < 2 ^ 62"
    "0 < po_Cooldown (pp_Recovery (pn_policy sample_planner))" "po_Cooldown (pp_Recovery (pn_policy sample_planner)) < 2 ^ 62"
    by (simp_all add: rescue_observations_def sample_observation_def sample_planner_def sample_control_def)
  ultimately have "ob_At (rescue_observations ! 1) + po_Cooldown (pp_Recovery (pn_policy sample_planner)) \<le>
      ob_At (rescue_observations ! 3)"
    using rescues_spaced[of sample_planner rescue_observations "fst ?r" "snd ?r" 1 3] by simp
  then show ?thesis using asked by (simp add: sample_planner_def)
qed

section \<open>Reconnecting\<close>

definition reconnects :: "planner_error + PritunlPlan \<Rightarrow> bool" where
  "reconnects r \<longleftrightarrow> (case r of Inl _ \<Rightarrow> False | Inr p \<Rightarrow> pl_Action p = PActionReconnect)"

lemma reconnects_result [simp]: "reconnects (fst (planner_result pl r a n)) \<longleftrightarrow> a = PActionReconnect"
  "snd (planner_result pl r a n) = pl"
  by (simp_all add: planner_result_def reconnects_def)

text \<open>The fields a step of the machine leaves alone, and what it says when a later part reconnects.\<close>

lemma after_step_reconnects:
  assumes "reconnects (fst (after_step pl at ev k))"
  obtains d m where "Step (pn_machine pl) (cs_Generation (planner_snapshot pl)) at ev = Inr (d, m)"
    "reconnects (fst (k d (pl\<lparr>pn_machine := m\<rparr>)))" "after_step pl at ev k = k d (pl\<lparr>pn_machine := m\<rparr>)"
proof (cases "planner_step pl at ev")
  case (Inl err)
  then show thesis using assms by (simp add: after_step_def reconnects_def)
next
  case (Inr x)
  obtain d pl' where x: "x = (d, pl')" by force
  obtain m where m: "Step (pn_machine pl) (cs_Generation (planner_snapshot pl)) at ev = Inr (d, m)"
    "pl' = pl\<lparr>pn_machine := m\<rparr>" using Inr[unfolded x] by (rule planner_step_E)
  show thesis using that[OF m(1)] assms Inr by (simp add: after_step_def x m(2))
qed

definition awake_as :: "Planner \<Rightarrow> Planner \<Rightarrow> bool" where
  "awake_as pl pl' \<longleftrightarrow> pn_policy pl' = pn_policy pl \<and> pn_fullWakeSince pl' = pn_fullWakeSince pl \<and>
     mc_policy (pn_machine pl') = mc_policy (pn_machine pl)"

lemma awake_as_update [simp]:
  "awake_as pl (pl1\<lparr>pn_trackingConnecting := b\<rparr>) = awake_as pl pl1"
  "awake_as pl (pl1\<lparr>pn_connectingSince := t\<rparr>) = awake_as pl pl1"
  "awake_as pl pl" by (simp_all add: awake_as_def)

lemma awake_as_step:
  "awake_as pl pl1 \<Longrightarrow> Step (pn_machine pl1) g at ev = Inr (d, m) \<Longrightarrow> awake_as pl (pl1\<lparr>pn_machine := m\<rparr>)"
  by (simp add: awake_as_def Step_attempts(3))

definition approved_by :: "Planner \<Rightarrow> PritunlObservation \<Rightarrow> plan_result \<Rightarrow> bool" where
  "approved_by pl o' r \<longleftrightarrow> awake_as pl (snd r) \<and> pp_OTPMinValid (pn_policy pl) \<le> ob_OTPSecondsRemaining o' \<and>
     cs_State (planner_snapshot (snd r)) = CtlRecovering \<and> cs_RecoveringSince (planner_snapshot (snd r)) = ob_At o' \<and>
     cs_Attempts (planner_snapshot (snd r)) \<le> po_ActionBudget (mc_policy (pn_machine pl))"

lemma plan_recover_reconnects:
  assumes "awake_as pl pl1" "reconnects (fst (plan_recover pl1 o'))"
  shows "approved_by pl o' (plan_recover pl1 o')"
proof (cases "ob_OTPSecondsRemaining o' < pp_OTPMinValid (pn_policy pl1)")
  case True
  then show ?thesis using assms(2) by (simp add: plan_recover_def)
next
  case False
  let ?k = "\<lambda>d pl. if de_RecoveryApproved d then planner_result pl PReasonReconnectAllowed PActionReconnect 0
        else if de_To d = CtlSafeMode
          then planner_result pl PReasonRecoveryBudget PActionNone (cs_SafeUntil (planner_snapshot pl))
        else planner_result pl PReasonRecoveryBackoff PActionNone (cs_NextActionAt (planner_snapshot pl))"
  have eq: "plan_recover pl1 o' = after_step pl1 (ob_At o') EventBeginRecovery ?k" using False by (simp add: plan_recover_def)
  obtain d m where st: "Step (pn_machine pl1) (cs_Generation (planner_snapshot pl1)) (ob_At o') EventBeginRecovery = Inr (d, m)"
    "reconnects (fst (?k d (pl1\<lparr>pn_machine := m\<rparr>)))" "plan_recover pl1 o' = ?k d (pl1\<lparr>pn_machine := m\<rparr>)"
    using assms(2) unfolding eq by (rule after_step_reconnects)
  have app: "de_RecoveryApproved d" using st(2) by (auto split: if_splits)
  have "cs_State (mc_snapshot m) = CtlRecovering" "cs_RecoveringSince (mc_snapshot m) = ob_At o'"
    using st(1) app by (auto elim!: Step_E simp: step_event_def step_begin_recovery_def event_neq Let_def split: if_splits)
  moreover have "cs_Attempts (mc_snapshot m) \<le> po_ActionBudget (mc_policy (pn_machine pl1))"
    using Step_attempts(1,2)[OF st(1)] app word_less_succ(2) by simp
  ultimately show ?thesis
    using assms(1) False awake_as_step[OF assms(1) st(1)] app by (simp add: approved_by_def st(3) awake_as_def not_less)
qed

lemma plan_failed_reconnects:
  assumes "awake_as pl pl1" "reconnects (fst (plan_failed pl1 o'))"
  shows "approved_by pl o' (plan_failed pl1 o')"
proof -
  let ?k = "\<lambda>d pl. if de_To d = CtlHealthy then planner_result pl PReasonProfileNotConnected PActionNone 0
        else if de_To d = CtlSafeMode
          then planner_result pl PReasonRecoveryBudget PActionNone (cs_SafeUntil (planner_snapshot pl))
        else if de_To d = CtlDegraded then plan_recover pl o'
        else planner_result pl PReasonProfileNotConnected PActionNone 0"
  have eq: "plan_failed pl1 o' = after_step pl1 (ob_At o') EventProbeFailed ?k"
    using assms(2) by (auto simp: plan_failed_def Let_def split: if_splits)
  obtain d m where st: "Step (pn_machine pl1) (cs_Generation (planner_snapshot pl1)) (ob_At o') EventProbeFailed = Inr (d, m)"
    "reconnects (fst (?k d (pl1\<lparr>pn_machine := m\<rparr>)))" "plan_failed pl1 o' = ?k d (pl1\<lparr>pn_machine := m\<rparr>)"
    using assms(2) unfolding eq by (rule after_step_reconnects)
  then have "plan_failed pl1 o' = plan_recover (pl1\<lparr>pn_machine := m\<rparr>) o'"
    "reconnects (fst (plan_recover (pl1\<lparr>pn_machine := m\<rparr>) o'))" by (auto split: if_splits)
  then show ?thesis using plan_recover_reconnects[OF awake_as_step[OF assms(1) st(1)]] by simp
qed

lemma plan_disconnected_reconnects:
  "awake_as pl pl1 \<Longrightarrow> reconnects (fst (plan_disconnected pl1 o')) \<Longrightarrow> approved_by pl o' (plan_disconnected pl1 o')"
  by (auto simp: plan_disconnected_def Let_def intro!: plan_failed_reconnects split: if_splits)

lemma plan_session_reconnects:
  assumes "awake_as pl pl1" "reconnects (fst (plan_session pl1 o'))"
  shows "approved_by pl o' (plan_session pl1 o') \<and> \<not> Connected (ob_Profile o') \<and> \<not> ob_ProfileUnreadable o'"
proof -
  have "\<not> reconnects (fst (plan_connected pl1 o'))"
    by (auto simp: plan_connected_def Let_def elim!: after_step_reconnects split: if_splits)
  moreover have "plan_session pl1 o' = plan_connected pl1 o' \<or> plan_session pl1 o' = plan_disconnected pl1 o' \<and>
      \<not> Connected (ob_Profile o') \<and> \<not> ob_ProfileUnreadable o'"
    using assms(2) by (auto simp: plan_session_def elim!: after_step_reconnects split: if_splits)
  ultimately show ?thesis using plan_disconnected_reconnects[OF assms(1)] assms(2) by auto
qed

lemma plan_wake_reconnects:
  assumes "awake_as pl pl1" "reconnects (fst (plan_wake pl1 o'))"
  shows "approved_by pl o' (plan_wake pl1 o') \<and> \<not> Connected (ob_Profile o') \<and> \<not> ob_ProfileUnreadable o'"
proof (cases "cs_State (planner_snapshot pl1) = CtlSuspended")
  case True
  then have "plan_wake pl1 o' = after_step pl1 (ob_At o') EventDependenciesReady (\<lambda>_ pl. plan_session pl o')"
    by (simp add: plan_wake_def)
  moreover obtain d m where "Step (pn_machine pl1) (cs_Generation (planner_snapshot pl1)) (ob_At o') EventDependenciesReady = Inr (d, m)"
    "reconnects (fst (plan_session (pl1\<lparr>pn_machine := m\<rparr>) o'))"
    "after_step pl1 (ob_At o') EventDependenciesReady (\<lambda>_ pl. plan_session pl o') = plan_session (pl1\<lparr>pn_machine := m\<rparr>) o'"
    using assms(2) unfolding calculation by (rule after_step_reconnects)
  ultimately show ?thesis using plan_session_reconnects[OF awake_as_step[OF assms(1)]] by simp
next
  case False
  then show ?thesis using assms plan_session_reconnects by (simp add: plan_wake_def)
qed

lemma plan_outer_reconnects:
  assumes "awake_as pl pl1" "reconnects (fst (plan_outer pl1 o'))"
  shows "approved_by pl o' (plan_outer pl1 o') \<and> \<not> Connected (ob_Profile o') \<and> \<not> ob_ProfileUnreadable o' \<and> ob_OuterReady o'"
proof -
  have "ob_OuterReady o'" using assms(2) by (cases "ob_OuterReady o'") (simp_all add: plan_outer_def)
  moreover have "\<exists>m. awake_as pl (pl1\<lparr>pn_machine := m\<rparr>) \<and> plan_outer pl1 o' = plan_wake (pl1\<lparr>pn_machine := m\<rparr>) o'"
  proof (cases "cs_State (planner_snapshot pl1) = CtlSafeMode")
    case True
    then have "plan_outer pl1 o' = after_step pl1 (ob_At o') EventCooldownElapsed (\<lambda>_ pl. plan_wake pl o')"
      using assms(2) calculation by (auto simp: plan_outer_def split: if_splits)
    then show ?thesis using assms awake_as_step by (metis after_step_reconnects)
  next
    case False
    then show ?thesis using assms(1) calculation by (intro exI[of _ "pn_machine pl1"]) (simp add: plan_outer_def)
  qed
  ultimately show ?thesis using plan_wake_reconnects assms(2) by metis
qed

text \<open>
  C31: the planner reconnects only on its grounds. A plan to reconnect comes only from an active
  session on an open lid in a full wake that has lasted at least the settling time, with the outer
  path ready and a readable profile that is not connected, with enough of the one-time password
  window left, and with a recovery the state machine has just approved within its budget.
\<close>

theorem reconnect_grounds:
  assumes "Planner_Plan pl o' = (Inr p, pl')" "pl_Action p = PActionReconnect"
  shows "ob_Session o' = SessionActive \<and> ob_Lid o' = LidStateOpen \<and> ob_Wake o' = WakeKindFull \<and> ob_OuterReady o' \<and>
    \<not> ob_ProfileUnreadable o' \<and> \<not> Connected (ob_Profile o') \<and>
    pp_OTPMinValid (pn_policy pl) \<le> ob_OTPSecondsRemaining o' \<and>
    pp_WakeSettle (pn_policy pl) \<le> int64 (ob_At o' - pn_fullWakeSince pl') \<and>
    cs_State (planner_snapshot pl') = CtlRecovering \<and> cs_RecoveringSince (planner_snapshot pl') = ob_At o' \<and>
    cs_Attempts (planner_snapshot pl') \<le> po_ActionBudget (mc_policy (pn_machine pl))"
proof -
  let ?pl = "pl\<lparr>pn_lastObservationAt := ob_At o', pn_hasObservation := True\<rparr>"
  have rec: "reconnects (fst (Planner_Plan pl o'))" using assms by (simp add: reconnects_def)
  have "\<not> reconnects (fst (planner_suspend q t r))" for q t r
    by (auto simp: planner_suspend_def Let_def elim!: after_step_reconnects)
  then have awake: "ob_Session o' = SessionActive" "ob_Lid o' = LidStateOpen" "ob_Wake o' = WakeKindFull"
    and settle: "Planner_Plan pl o' = plan_settle ?pl o'"
    using rec by (auto simp: Planner_Plan_def Let_def reconnects_def[of "Inl _"] split: if_splits)
  define pl1 where "pl1 = (if \<not> pn_trackingFullWake ?pl
    then ?pl\<lparr>pn_trackingFullWake := True, pn_fullWakeSince := ob_At o'\<rparr> else ?pl)"
  have outer: "plan_settle ?pl o' = plan_outer pl1 o'" "pp_WakeSettle (pn_policy pl1) \<le> int64 (ob_At o' - pn_fullWakeSince pl1)"
    using rec unfolding settle plan_settle_def Let_def pl1_def[symmetric]
    by (auto elim!: after_step_reconnects split: if_splits)
  have "pn_policy pl1 = pn_policy pl" "mc_policy (pn_machine pl1) = mc_policy (pn_machine pl)" by (simp_all add: pl1_def)
  moreover have "plan_outer pl1 o' = (Inr p, pl')" using assms(1) outer(1) settle by simp
  ultimately show ?thesis
    using plan_outer_reconnects[of pl1 pl1 o'] rec awake outer settle by (auto simp: approved_by_def awake_as_def)
qed

definition reconnect_observations :: "PritunlObservation list" where
  "reconnect_observations = map (\<lambda>t. sample_observation t ''running'') [1, 5, 6]"

theorem reconnect_grounds_witness:
  "reconnects (fst (run_steps Planner_Plan sample_planner reconnect_observations) ! 2) \<and>
   pp_OTPMinValid (pn_policy sample_planner) \<le> ob_OTPSecondsRemaining (sample_observation 6 ''running'')"
proof -
  let ?pl = "snd (run_steps Planner_Plan sample_planner (take 2 reconnect_observations))"
  let ?o = "sample_observation 6 ''running''"
  have rec: "reconnects (fst (Planner_Plan ?pl ?o))" "reconnects (fst (run_steps Planner_Plan sample_planner reconnect_observations) ! 2)"
    by code_simp+
  then obtain p pl' where "Planner_Plan ?pl ?o = (Inr p, pl')" "pl_Action p = PActionReconnect"
    by (cases "Planner_Plan ?pl ?o") (auto simp: reconnects_def split: sum.splits)
  from reconnect_grounds[OF this] have "pp_OTPMinValid (pn_policy ?pl) \<le> ob_OTPSecondsRemaining ?o" by blast
  moreover have "pn_policy ?pl = pn_policy sample_planner" by code_simp
  ultimately show ?thesis using rec(2) by simp
qed

section \<open>Well-formed planners\<close>

text \<open>
  What every elementary effect of \<^verbatim>\<open>Plan\<close> keeps, \<^verbatim>\<open>Plan\<close> keeps: the interface between the planner's
  bookkeeping and a property \<open>I\<close> of planners at ticks of \<open>T\<close>.
\<close>

locale planner_effects =
  fixes I :: "Planner \<Rightarrow> bool" and T :: "tick \<Rightarrow> bool"
  assumes I_step: "I pl \<Longrightarrow> T at \<Longrightarrow> planner_step pl at ev = Inr (d, pl') \<Longrightarrow> I pl'"
    and I_wake: "I pl \<Longrightarrow> I (pl\<lparr>pn_trackingFullWake := b\<rparr>)" "I pl \<Longrightarrow> T t \<Longrightarrow> I (pl\<lparr>pn_fullWakeSince := t\<rparr>)"
    and I_connect: "I pl \<Longrightarrow> I (pl\<lparr>pn_trackingConnecting := b\<rparr>)" "I pl \<Longrightarrow> T t \<Longrightarrow> I (pl\<lparr>pn_connectingSince := t\<rparr>)"
    and I_seen: "I pl \<Longrightarrow> T t \<Longrightarrow> I (pl\<lparr>pn_lastObservationAt := t\<rparr>)" "I pl \<Longrightarrow> I (pl\<lparr>pn_hasObservation := b\<rparr>)"
    and I_rescue: "I pl \<Longrightarrow> T t \<Longrightarrow> I (pl\<lparr>pn_lastRescueAt := t\<rparr>)" "I pl \<Longrightarrow> I (pl\<lparr>pn_hasRequestedRescue := b\<rparr>)"
begin

lemmas I_intros = I_wake I_connect I_seen I_rescue

lemma result_keeps [simp]: "I (snd (planner_result pl r a n)) = I pl"
  by (simp add: planner_result_def)

lemma after_step_keeps:
  "I pl \<Longrightarrow> T at \<Longrightarrow> (\<And>d pl'. I pl' \<Longrightarrow> I (snd (k d pl'))) \<Longrightarrow> I (snd (after_step pl at ev k))"
  by (auto simp: after_step_def split: sum.splits dest: I_step)

lemma recover_keeps: "I pl \<Longrightarrow> T (ob_At o') \<Longrightarrow> I (snd (plan_recover pl o'))"
  by (auto simp: plan_recover_def intro!: after_step_keeps)

lemma failed_keeps: "I pl \<Longrightarrow> T (ob_At o') \<Longrightarrow> I (snd (plan_failed pl o'))"
  by (auto simp: plan_failed_def Let_def intro!: after_step_keeps recover_keeps)

lemma disconnected_keeps: "I pl \<Longrightarrow> T (ob_At o') \<Longrightarrow> I (snd (plan_disconnected pl o'))"
  by (auto simp: plan_disconnected_def Let_def intro!: failed_keeps I_intros)

lemma connected_keeps: "I pl \<Longrightarrow> T (ob_At o') \<Longrightarrow> I (snd (plan_connected pl o'))"
  by (auto simp: plan_connected_def Let_def intro!: after_step_keeps I_intros)

lemma session_keeps: "I pl \<Longrightarrow> T (ob_At o') \<Longrightarrow> I (snd (plan_session pl o'))"
  by (auto simp: plan_session_def intro!: after_step_keeps connected_keeps disconnected_keeps I_intros)

lemma wake_keeps: "I pl \<Longrightarrow> T (ob_At o') \<Longrightarrow> I (snd (plan_wake pl o'))"
  by (auto simp: plan_wake_def intro!: after_step_keeps session_keeps)

lemma outer_keeps: "I pl \<Longrightarrow> T (ob_At o') \<Longrightarrow> I (snd (plan_outer pl o'))"
  by (auto simp: plan_outer_def intro!: after_step_keeps wake_keeps)

lemma settle_keeps: "I pl \<Longrightarrow> T (ob_At o') \<Longrightarrow> I (snd (plan_settle pl o'))"
  by (auto simp: plan_settle_def Let_def intro!: after_step_keeps outer_keeps I_intros)

lemma suspend_keeps: "I pl \<Longrightarrow> T at \<Longrightarrow> I (snd (planner_suspend pl at r))"
  by (auto simp: planner_suspend_def Let_def intro!: after_step_keeps I_intros)

lemma plan_keeps: "I pl \<Longrightarrow> T (ob_At o') \<Longrightarrow> I (snd (Planner_Plan pl o'))"
  by (auto simp: Planner_Plan_def Let_def intro!: suspend_keeps settle_keeps I_intros)

end

definition planner_inv :: "Planner \<Rightarrow> bool" where
  "planner_inv pl \<longleftrightarrow> mc_policy (pn_machine pl) = pp_Recovery (pn_policy pl) \<and> policy_ok (pp_Recovery (pn_policy pl)) \<and>
     0 \<le> pp_WakeSettle (pn_policy pl) \<and> 0 < pp_ConnectingGrace (pn_policy pl) \<and>
     0 < pp_OTPMinValid (pn_policy pl) \<and> pp_OTPMinValid (pn_policy pl) \<le> pp_OTPPeriod (pn_policy pl) \<and>
     ctl_inv (pp_Recovery (pn_policy pl)) (planner_snapshot pl)"

lemma planner_step_inv:
  assumes "planner_inv pl" "at < 2 ^ 62" "planner_step pl at ev = Inr (d, pl')"
  shows "planner_inv pl'"
  using assms(3)
proof (rule planner_step_E)
  fix m assume m: "Step (pn_machine pl) (cs_Generation (planner_snapshot pl)) at ev = Inr (d, m)" "pl' = pl\<lparr>pn_machine := m\<rparr>"
  let ?p = "pp_Recovery (pn_policy pl)"
  have "pn_machine pl = \<lparr>mc_policy = ?p, mc_snapshot = planner_snapshot pl\<rparr>"
    using assms(1) by (simp add: planner_inv_def Machine.equality)
  then have "ctl_inv ?p (mc_snapshot m)"
    using Step_inv[of ?p "planner_snapshot pl" at] m(1) assms(1,2) by (simp add: planner_inv_def)
  then show ?thesis using assms(1) m(2) Step_attempts(3)[OF m(1)] by (simp add: planner_inv_def)
qed

interpretation planner_formed: planner_effects planner_inv "\<lambda>t. t < 2 ^ 62"
proof (unfold_locales, goal_cases)
  case 1
  then show ?case using planner_step_inv by blast
qed (simp_all add: planner_inv_def)

lemma NewPlanner_inv:
  assumes "NewPlanner p (NewSnapshot s) = Inr pl" "po_MaxBackoff (pp_Recovery p) < 2 ^ 62"
    "po_Cooldown (pp_Recovery p) < 2 ^ 62" "s \<noteq> CtlRecovering"
  shows "planner_inv pl"
proof -
  have "NewMachine (pp_Recovery p) (NewSnapshot s) = Inr (pn_machine pl)" "pn_policy pl = p"
    "0 \<le> pp_WakeSettle p" "0 < pp_ConnectingGrace p" "0 < pp_OTPMinValid p" "pp_OTPMinValid p \<le> pp_OTPPeriod p"
    using assms(1) by (auto simp: NewPlanner_def word_gt_0 not_less split: if_splits sum.splits)
  moreover then have "validatePolicy (pp_Recovery p) = None" "State_Valid s"
    "pn_machine pl = \<lparr>mc_policy = pp_Recovery p, mc_snapshot = NewSnapshot s\<rparr>"
    by (auto simp: NewMachine_def validateSnapshot_None_iff NewSnapshot_def split: option.splits)
  ultimately show ?thesis
    using assms fresh_inv[of "pp_Recovery p" s] by (simp add: planner_inv_def policy_ok_def)
qed

lemma replaceSnapshot_inv:
  assumes "planner_inv pl" "ctl_inv (pp_Recovery (pn_policy pl)) s \<or> validateSnapshot s \<noteq> None"
  shows "planner_inv (snd (replaceSnapshot pl s persist))"
  using assms by (auto simp: replaceSnapshot_def NewMachine_def planner_inv_def ctl_inv_def split: option.splits)

text \<open>
  C32: planners stay well formed. Every operation of a well-formed planner (\<open>NewPlanner_inv\<close>: a new
  one is) leaves a planner whose machine runs under its own recovery policy, with the policy valid and
  the snapshot within the invariant of the state machine: every observation, every operator resume,
  every forced safe mode, and the compensation of a resume with the snapshot the resume started from,
  renumbered and moved to its tick as the resume plan prepares it, provided that one was within the
  invariant. This holds whether the operation succeeds or fails and whatever the persistence answers.
\<close>

theorem planner_well_formed:
  assumes "planner_inv pl" "at < 2 ^ 62" "ob_At o' < 2 ^ 62" "ctl_inv (pp_Recovery (pn_policy pl)) before"
  shows "planner_inv (snd (Planner_Plan pl o')) \<and> planner_inv (snd (Planner_Resume pl g at persist)) \<and>
    planner_inv (snd (EnterSafeMode pl g at persist)) \<and>
    planner_inv (snd (CompensateOperatorResume pl g (before\<lparr>cs_Generation := g', cs_LastTick := at\<rparr>) persist))"
proof (intro conjI)
  show "planner_inv (snd (Planner_Plan pl o'))" by (rule planner_formed.plan_keeps[OF assms(1,3)])
  show "planner_inv (snd (Planner_Resume pl g at persist))"
  proof (cases "Step (pn_machine pl) g at EventOperatorResume")
    case (Inl e)
    then show ?thesis using assms(1) by (simp add: Planner_Resume_def Let_def)
  next
    case (Inr x)
    obtain d m where x: "x = (d, m)" by force
    have "g = cs_Generation (planner_snapshot pl)" using Inr[unfolded x] by (rule Step_E)
    then have "planner_step pl at EventOperatorResume = Inr (d, pl\<lparr>pn_machine := m\<rparr>)"
      using Inr by (simp add: planner_step_def x)
    then have after: "planner_inv (pl\<lparr>pn_machine := m\<rparr>)" by (rule planner_step_inv[OF assms(1,2)])
    then show ?thesis using assms(1) Inr x
      by (auto simp: Planner_Resume_def Let_def NewMachine_def planner_inv_def split: option.splits sum.splits)
  qed
  show "planner_inv (snd (EnterSafeMode pl g at persist))"
  proof -
    let ?s = "(planner_snapshot pl)\<lparr>cs_Generation := cs_Generation (planner_snapshot pl) + 1, cs_State := CtlSafeMode,
           cs_Attempts := po_ActionBudget (pp_Recovery (pn_policy pl)), cs_RecoveringSince := 0,
           cs_NextActionAt := 0, cs_SafeUntil := int64 (at + po_Cooldown (pp_Recovery (pn_policy pl))),
           cs_LastTick := at\<rparr>"
    have "ctl_inv (pp_Recovery (pn_policy pl)) ?s \<or> validateSnapshot ?s \<noteq> None"
      by (auto simp: ctl_inv_def ctl_neq)
    from replaceSnapshot_inv[OF assms(1) this] show ?thesis
      using assms(1) by (auto simp: EnterSafeMode_def Let_def)
  qed
  let ?c = "before\<lparr>cs_Generation := g', cs_LastTick := at\<rparr>"
  have "ctl_inv (pp_Recovery (pn_policy pl)) ?c \<or> validateSnapshot ?c \<noteq> None" if "cs_State before = CtlSafeMode"
    using assms(4) that by (auto simp: ctl_inv_def ctl_neq)
  with replaceSnapshot_inv[OF assms(1), of ?c]
  show "planner_inv (snd (CompensateOperatorResume pl g ?c persist))"
    using assms(1) by (auto simp: CompensateOperatorResume_def Let_def)
qed

lemma sample_planner_inv: "planner_inv sample_planner"
  using fresh_inv[OF sample_control_ok, of CtlHealthy] sample_control_ok
  by (simp add: planner_inv_def sample_planner_def sample_machine_def State_Valid_def ctl_neq)

theorem planner_well_formed_witness:
  "planner_inv (snd (EnterSafeMode sample_planner 0 7 (\<lambda>_. None))) \<and>
   cs_State (planner_snapshot (snd (EnterSafeMode sample_planner 0 7 (\<lambda>_. None)))) = CtlSafeMode"
proof -
  have "cs_State (planner_snapshot (snd (EnterSafeMode sample_planner 0 7 (\<lambda>_. None)))) = CtlSafeMode" by code_simp
  moreover have "ctl_inv (pp_Recovery (pn_policy sample_planner)) (planner_snapshot sample_planner)"
    using sample_planner_inv by (simp add: planner_inv_def)
  ultimately show ?thesis
    using planner_well_formed[OF sample_planner_inv, of 7 "sample_observation 5 ''running''" "planner_snapshot sample_planner" 0 "\<lambda>_. None"]
    by (simp add: sample_observation_def)
qed

text \<open>
  C33: a failed operator action changes nothing. If resuming, compensating a resume or forcing safe
  mode returns an error, the persistence failing included, the planner is exactly what it was.
\<close>

theorem operator_failure_atomic:
  assumes "planner_inv pl"
  shows "(\<forall>e. fst (Planner_Resume pl g at persist) = Inl e \<longrightarrow> snd (Planner_Resume pl g at persist) = pl) \<and>
    (\<forall>e. fst (CompensateOperatorResume pl g c persist) = Inl e \<longrightarrow> snd (CompensateOperatorResume pl g c persist) = pl) \<and>
    (\<forall>e. fst (EnterSafeMode pl g at persist) = Inl e \<longrightarrow> snd (EnterSafeMode pl g at persist) = pl)"
proof (intro conjI allI impI)
  have machine: "pn_machine pl = \<lparr>mc_policy = pp_Recovery (pn_policy pl), mc_snapshot = planner_snapshot pl\<rparr>"
    using assms by (simp add: planner_inv_def Machine.equality)
  have valid: "NewMachine (pp_Recovery (pn_policy pl)) (planner_snapshot pl) = Inr (pn_machine pl)"
    using assms machine by (simp add: NewMachine_def planner_inv_def policy_ok_def ctl_inv_def)
  have replace: "fst (replaceSnapshot pl s persist) = Inl e \<Longrightarrow> snd (replaceSnapshot pl s persist) = pl" for s e
    by (auto simp: replaceSnapshot_def split: sum.splits option.splits)
  show "snd (Planner_Resume pl g at persist) = pl" if "fst (Planner_Resume pl g at persist) = Inl e" for e
    using that valid by (auto simp: Planner_Resume_def Let_def split: if_splits sum.splits option.splits)
  show "snd (CompensateOperatorResume pl g c persist) = pl" if "fst (CompensateOperatorResume pl g c persist) = Inl e" for e
    using that replace by (auto simp: CompensateOperatorResume_def Let_def split: if_splits)
  show "snd (EnterSafeMode pl g at persist) = pl" if "fst (EnterSafeMode pl g at persist) = Inl e" for e
    using that replace by (auto simp: EnterSafeMode_def Let_def split: if_splits)
qed

theorem operator_failure_atomic_witness:
  "snd (EnterSafeMode sample_planner 0 7 (\<lambda>_. Some ''disk full'')) = sample_planner"
proof -
  have "fst (EnterSafeMode sample_planner 0 7 (\<lambda>_. Some ''disk full'')) = Inl (PlannerPersist ''disk full'')" by code_simp
  then show ?thesis
    using operator_failure_atomic[OF sample_planner_inv, of 0 7 "\<lambda>_. Some ''disk full''"] by blast
qed

end
