(* ===== verification/Checkpoint.thy ===== *)
theory Checkpoint
  imports Reduce
begin

text \<open>
  The links of the read-model lineage (\<^verbatim>\<open>internal/connectivitycheckpoint/checkpoint.go\<close>,
  \<^verbatim>\<open>digest.go\<close> and \<^verbatim>\<open>SealFrom\<close> of \<^verbatim>\<open>replay.go\<close>): what a checkpoint carries, the address that binds
  it and the checks a reader makes.
\<close>

section \<open>Vocabulary\<close>

definition CheckpointSchema :: string where [go_consts]: "CheckpointSchema = ''hexroute.connectivity-checkpoint.v1''"
definition CheckpointSchemaVersion :: u16 where "CheckpointSchemaVersion = 1"
definition IndexSchema :: string where [go_consts]: "IndexSchema = ''hexroute.connectivity-checkpoint-index.v1''"
definition PointerSchema :: string where [go_consts]: "PointerSchema = ''hexroute.connectivity-checkpoint-pointer.v1''"
definition MaxCheckpointBytes :: nat where "MaxCheckpointBytes = 192 * 1024"
definition MaxIndexEntries :: nat where "MaxIndexEntries = 64"
definition DefaultMaxRecoveryDepth :: int where "DefaultMaxRecoveryDepth = 8"

type_synonym resume_reason = string

definition ResumeReasonNone :: resume_reason where [go_consts]: "ResumeReasonNone = ''none''"
definition ResumeReasonNoPointer :: resume_reason where [go_consts]: "ResumeReasonNoPointer = ''no_pointer''"
definition ResumeReasonPointerInvalid :: resume_reason where [go_consts]: "ResumeReasonPointerInvalid = ''pointer_invalid''"
definition ResumeReasonRecordMissing :: resume_reason where [go_consts]: "ResumeReasonRecordMissing = ''record_missing''"
definition ResumeReasonRecordInvalid :: resume_reason where [go_consts]: "ResumeReasonRecordInvalid = ''record_invalid''"
definition ResumeReasonParentBroken :: resume_reason where [go_consts]: "ResumeReasonParentBroken = ''parent_link_broken''"
definition ResumeReasonDigestMismatch :: resume_reason where [go_consts]: "ResumeReasonDigestMismatch = ''digest_mismatch''"
definition ResumeReasonDepthExhausted :: resume_reason
  where [go_consts]: "ResumeReasonDepthExhausted = ''recovery_depth_exhausted''"
definition ResumeReasonLineageEvicted :: resume_reason where [go_consts]: "ResumeReasonLineageEvicted = ''lineage_evicted''"

datatype checkpoint_error =
    ErrInvalidCheckpoint string
  | ErrLineageBroken string
  | ErrGenerationGuard string
  | ErrStoreUnavailable string
  | ErrNotFound
  | ErrInjectedFault
  | ErrReduction reduce_error
  | CapacityPanic

record LineageBreak =
  lb_AfterID :: string
  lb_Reason :: resume_reason

record Checkpoint =
  ck_Schema :: string
  ck_Version :: u16
  ck_ID :: string
  ck_Parent :: string
  ck_ParentDigest :: string
  ck_Break :: "LineageBreak option"
  ck_PriorSnapshotDigest :: string
  ck_Wake :: "Wake option"
  ck_ConsumedFrom :: u64
  ck_ConsumedTo :: u64
  ck_SourceWatermarks :: "SourceWatermark list"
  ck_Policy :: PolicyDescriptor
  ck_ReducerID :: string
  ck_ReducerVersion :: u16
  ck_SnapshotGeneration :: u64
  ck_SnapshotDigest :: string
  ck_Snapshot :: Snapshot
  ck_DiffDigest :: string
  ck_ProposalsDigest :: string
  ck_Digest :: string

record IndexEntry =
  ie_Schema :: string
  ie_Sequence :: u64
  ie_ID :: string
  ie_Parent :: string
  ie_Digest :: string
  ie_Generation :: u64
  ie_ConsumedTo :: u64

record Pointer =
  pt_Schema :: string
  pt_ID :: string
  pt_Digest :: string
  pt_Generation :: u64
  pt_Sequence :: u64
  pt_Overflow :: bool

definition json_LineageBreak :: "LineageBreak \<Rightarrow> json" where
  "json_LineageBreak b = JObject [(''after_id'', JString (lb_AfterID b)), (''reason'', JString (lb_Reason b))]"

definition json_Wake :: "Wake \<Rightarrow> json" where
  "json_Wake w = JObject [(''Tick'', JInt (wk_Tick w))]"

definition omit_string :: "string \<Rightarrow> string \<Rightarrow> (string \<times> json) list" where
  "omit_string n s = omit_when (s = '''') n (JString s)"

definition json_Checkpoint :: "Checkpoint \<Rightarrow> json" where
  "json_Checkpoint c = JObject (
     [(''schema'', JString (ck_Schema c)), (''version'', JInt (uint (ck_Version c))), (''id'', JString (ck_ID c))] @
     omit_string ''parent'' (ck_Parent c) @
     omit_string ''parent_digest'' (ck_ParentDigest c) @
     omit_ptr ''lineage_break'' json_LineageBreak (ck_Break c) @
     omit_string ''prior_snapshot_digest'' (ck_PriorSnapshotDigest c) @
     omit_ptr ''wake'' json_Wake (ck_Wake c) @
     [(''consumed_from'', JInt (uint (ck_ConsumedFrom c))), (''consumed_to'', JInt (uint (ck_ConsumedTo c))),
      (''source_watermarks'', json_slice json_SourceWatermark (ck_SourceWatermarks c)),
      (''policy'', json_PolicyDescriptor (ck_Policy c)), (''reducer_id'', JString (ck_ReducerID c)),
      (''reducer_version'', JInt (uint (ck_ReducerVersion c))),
      (''snapshot_generation'', JInt (uint (ck_SnapshotGeneration c))),
      (''snapshot_digest'', JString (ck_SnapshotDigest c)), (''snapshot'', json_Snapshot (ck_Snapshot c)),
      (''diff_digest'', JString (ck_DiffDigest c)), (''proposals_digest'', JString (ck_ProposalsDigest c)),
      (''digest'', JString (ck_Digest c))])"

section \<open>Validation\<close>

definition lower_alnum_dash :: "char \<Rightarrow> bool" where
  "lower_alnum_dash r \<longleftrightarrow> (CHR ''a'' \<le> r \<and> r \<le> CHR ''z'') \<or> (CHR ''0'' \<le> r \<and> r \<le> CHR ''9'') \<or> r = CHR ''-''"

definition checkpoint_identifier :: "string \<Rightarrow> bool" where
  "checkpoint_identifier s \<longleftrightarrow> length s \<noteq> 0 \<and> length s \<le> 64 \<and> list_all lower_alnum_dash s"

definition LineageBreak_Validate :: "LineageBreak \<Rightarrow> checkpoint_error option" where
  "LineageBreak_Validate b =
     (if \<not> checkpoint_identifier (lb_AfterID b) then Some (ErrInvalidCheckpoint ''lineage break names no checkpoint'')
      else if lb_Reason b \<in> {ResumeReasonPointerInvalid, ResumeReasonRecordMissing, ResumeReasonRecordInvalid,
           ResumeReasonParentBroken, ResumeReasonDigestMismatch, ResumeReasonDepthExhausted,
           ResumeReasonLineageEvicted} then None
      else Some (ErrInvalidCheckpoint ''lineage break gives no reason''))"

definition checkpointBody :: "Checkpoint \<Rightarrow> Checkpoint" where
  "checkpointBody c = c\<lparr>ck_Digest := ''''\<rparr>"

definition validate_parent :: "Checkpoint \<Rightarrow> checkpoint_error option" where
  "validate_parent c =
     (if ck_Parent c = '''' then
        (if ck_ParentDigest c \<noteq> '''' then Some (ErrInvalidCheckpoint ''genesis carries a parent digest'')
         else (case ck_Break c of
                 None \<Rightarrow> None
               | Some b \<Rightarrow>
                   (case LineageBreak_Validate b of
                      Some err \<Rightarrow> Some err
                    | None \<Rightarrow> if lb_AfterID b = ck_ID c
                        then Some (ErrInvalidCheckpoint ''checkpoint breaks from itself'') else None)))
      else if ck_Break c \<noteq> None then Some (ErrInvalidCheckpoint ''a continued lineage carries a break'')
      else if \<not> checkpoint_identifier (ck_Parent c) \<or> length (ck_ParentDigest c) \<noteq> 64
        then Some (ErrInvalidCheckpoint ''parent binding'')
      else if ck_Parent c = ck_ID c then Some (ErrInvalidCheckpoint ''checkpoint is its own parent'')
      else None)"

definition watermark_agrees :: "SourceWatermark \<Rightarrow> SourceWatermark \<Rightarrow> bool" where
  "watermark_agrees w carried \<longleftrightarrow> wm_Source w = wm_Source carried \<and> wm_BootID w = wm_BootID carried \<and>
     wm_LastSequence w = wm_LastSequence carried \<and> wm_Conflicts w = wm_Conflicts carried \<and>
     Watermark_AwaitingBaseline w = Watermark_AwaitingBaseline carried \<and>
     length (wm_PendingBaseline w) = length (wm_PendingBaseline carried) \<and>
     length (wm_Gaps w) = length (wm_Gaps carried)"

text \<open>The digests the snapshot and the record itself are checked against come last in the source.\<close>

definition validate_content :: "codec \<Rightarrow> Checkpoint \<Rightarrow> checkpoint_error option" where
  "validate_content cd c =
     (case Snapshot_Digest cd (ck_Snapshot c) of
        Inl _ \<Rightarrow> Some (ErrInvalidCheckpoint ''snapshot digest'')
      | Inr snapshotDigest \<Rightarrow>
          if snapshotDigest \<noteq> ck_SnapshotDigest c
            then Some (ErrInvalidCheckpoint ''snapshot does not match its digest'')
          else if sn_Generation (ck_Snapshot c) \<noteq> ck_SnapshotGeneration c
            then Some (ErrInvalidCheckpoint ''snapshot generation'')
          else if sn_ConsumedFoldPosition (ck_Snapshot c) \<noteq> ck_ConsumedTo c
            then Some (ErrInvalidCheckpoint ''consumed watermark'')
          else if length (ck_SourceWatermarks c) \<noteq> length (sn_Sources (ck_Snapshot c))
            then Some (ErrInvalidCheckpoint ''watermark count'')
          else if \<not> list_all (\<lambda>(w, carried). watermark_agrees w carried)
                (zip (ck_SourceWatermarks c) (sn_Sources (ck_Snapshot c)))
            then Some (ErrInvalidCheckpoint ''watermark disagrees with the snapshot'')
          else (case CanonicalSHA256 cd (json_Checkpoint (checkpointBody c)) of
                  Inl _ \<Rightarrow> Some (ErrInvalidCheckpoint ''encoding'')
                | Inr (expected, _) \<Rightarrow>
                    if expected \<noteq> ck_Digest c then Some (ErrInvalidCheckpoint ''digest'') else None))"

definition Checkpoint_Validate :: "codec \<Rightarrow> Checkpoint \<Rightarrow> checkpoint_error option" where
  "Checkpoint_Validate cd c =
     (if ck_Schema c \<noteq> CheckpointSchema \<or> ck_Version c \<noteq> CheckpointSchemaVersion
        then Some (ErrInvalidCheckpoint ''schema'')
      else if \<not> checkpoint_identifier (ck_ID c) then Some (ErrInvalidCheckpoint ''id'')
      else (case validate_parent c of
              Some err \<Rightarrow> Some err
            | None \<Rightarrow>
                if ck_SnapshotGeneration c = 0 \<or> length (ck_SnapshotDigest c) \<noteq> 64 \<or>
                   length (ck_DiffDigest c) \<noteq> 64 \<or> length (ck_ProposalsDigest c) \<noteq> 64
                  then Some (ErrInvalidCheckpoint ''output digests'')
                else if ck_ReducerID c \<noteq> ReducerID \<or> ck_ReducerVersion c \<noteq> ReducerVersion
                  then Some (ErrInvalidCheckpoint ''reducer identity'')
                else if ck_ConsumedFrom c \<noteq> 0 \<and> ck_ConsumedTo c < ck_ConsumedFrom c
                  then Some (ErrInvalidCheckpoint ''consumed range'')
                else if Snapshot_Validate (ck_Snapshot c) \<noteq> None
                  then Some (ErrInvalidCheckpoint ''snapshot'')
                else validate_content cd c))"

definition Seal :: "codec \<Rightarrow> Checkpoint \<Rightarrow> checkpoint_error + Checkpoint" where
  "Seal cd c =
     (let c = c\<lparr>ck_Schema := CheckpointSchema, ck_Version := CheckpointSchemaVersion\<rparr>
      in case CanonicalSHA256 cd (json_Checkpoint (checkpointBody c)) of
           Inl _ \<Rightarrow> Inl (ErrInvalidCheckpoint ''encoding'')
         | Inr (digest, _) \<Rightarrow>
             (let c = c\<lparr>ck_Digest := digest\<rparr>
              in case Checkpoint_Validate cd c of Some err \<Rightarrow> Inl err | None \<Rightarrow> Inr c))"

definition proposalsDigest :: "codec \<Rightarrow> Proposal list \<Rightarrow> checkpoint_error + string" where
  "proposalsDigest cd ps =
     (case CanonicalSHA256 cd (JArray (map json_Proposal ps)) of
        Inl _ \<Rightarrow> Inl (ErrInvalidCheckpoint '''') | Inr (digest, _) \<Rightarrow> Inr digest)"

definition SealFrom ::
  "codec \<Rightarrow> Checkpoint option \<Rightarrow> LineageBreak option \<Rightarrow> string \<Rightarrow> Output \<Rightarrow> u64 \<Rightarrow> Wake option \<Rightarrow>
   checkpoint_error + Checkpoint" where
  "SealFrom cd parent broken id' output consumedFrom wake =
     (case Snapshot_Digest cd (out_Snapshot output) of Inl err \<Rightarrow> Inl (ErrReduction err) | Inr snapshotDigest \<Rightarrow>
     (case Diff_Digest cd (out_Diff output) of Inl err \<Rightarrow> Inl (ErrReduction err) | Inr diffDigest \<Rightarrow>
     (case proposalsDigest cd (out_Proposals output) of Inl err \<Rightarrow> Inl err | Inr proposals \<Rightarrow>
       (let s = out_Snapshot output;
            c = \<lparr>ck_Schema = '''', ck_Version = 0, ck_ID = id', ck_Parent = '''', ck_ParentDigest = '''',
                 ck_Break = None, ck_PriorSnapshotDigest = '''', ck_Wake = wake,
                 ck_ConsumedFrom = consumedFrom, ck_ConsumedTo = sn_ConsumedFoldPosition s,
                 ck_SourceWatermarks = sn_Sources s, ck_Policy = sn_Policy s, ck_ReducerID = ReducerID,
                 ck_ReducerVersion = ReducerVersion, ck_SnapshotGeneration = sn_Generation s,
                 ck_SnapshotDigest = snapshotDigest, ck_Snapshot = s, ck_DiffDigest = diffDigest,
                 ck_ProposalsDigest = proposals, ck_Digest = ''''\<rparr>;
            c = (case parent of
                   Some p \<Rightarrow> c\<lparr>ck_Parent := ck_ID p, ck_ParentDigest := ck_Digest p,
                                ck_PriorSnapshotDigest := ck_SnapshotDigest p\<rparr>
                 | None \<Rightarrow> (case broken of Some b \<Rightarrow> c\<lparr>ck_Break := Some b\<rparr> | None \<Rightarrow> c))
        in Seal cd c))))"

section \<open>Sealed checkpoints are valid\<close>

text \<open>SHA-256 in hexadecimal has 64 characters.\<close>

definition digests_wide :: "codec \<Rightarrow> bool" where
  "digests_wide cd \<longleftrightarrow> (\<forall>x. length (cd_sha256 cd x) = 64)"

lemma Seal_ok [ok_dests]:
  "Seal cd c = Inr c' \<Longrightarrow> Checkpoint_Validate cd c' = None \<and>
     c' = c\<lparr>ck_Schema := CheckpointSchema, ck_Version := CheckpointSchemaVersion, ck_Digest := ck_Digest c'\<rparr>"
  by (auto simp: Seal_def Let_def split: sum.splits option.splits)

lemma Checkpoint_Validate_None:
  assumes "Checkpoint_Validate cd c = None"
  shows "checkpoint_identifier (ck_ID c)" "Snapshot_Validate (ck_Snapshot c) = None"
    "sn_ConsumedFoldPosition (ck_Snapshot c) = ck_ConsumedTo c"
    "sn_Generation (ck_Snapshot c) = ck_SnapshotGeneration c" "ck_SnapshotGeneration c \<noteq> 0"
    "Snapshot_Digest cd (ck_Snapshot c) = Inr (ck_SnapshotDigest c)"
    "ck_Parent c \<noteq> '''' \<Longrightarrow> checkpoint_identifier (ck_Parent c) \<and> ck_Parent c \<noteq> ck_ID c"
    "ck_Parent c = '''' \<Longrightarrow> ck_ParentDigest c = ''''"
  using assms by (auto simp: Checkpoint_Validate_def validate_content_def validate_parent_def split: if_splits option.splits sum.splits)

lemma SealFrom_child:
  assumes "SealFrom cd (Some p) broken id' out from wake = Inr c"
  shows "Checkpoint_Validate cd c = None \<and> ck_Parent c = ck_ID p \<and> ck_ParentDigest c = ck_Digest p \<and> ck_Break c = None"
proof -
  obtain c' where c': "Seal cd c' = Inr c" "ck_Parent c' = ck_ID p" "ck_ParentDigest c' = ck_Digest p" "ck_Break c' = None"
    using assms by (auto simp: SealFrom_def Let_def split: sum.splits)
  from Seal_ok [OF c'(1)] obtain d where "Checkpoint_Validate cd c = None"
    "c = c'\<lparr>ck_Schema := CheckpointSchema, ck_Version := CheckpointSchemaVersion, ck_Digest := d\<rparr>" by blast
  with c' show ?thesis by simp
qed

lemma validated_digest:
  assumes "digests_wide cd" "Checkpoint_Validate cd c = None"
  shows "length (ck_Digest c) = 64"
proof -
  have "\<exists>x. cd_sha256 cd x = ck_Digest c"
    using assms(2) by (auto simp: Checkpoint_Validate_def validate_content_def CanonicalSHA256_def SHA256Hex_def
        split: if_splits option.splits sum.splits)
  then show ?thesis using assms(1) by (metis digests_wide_def)
qed

text \<open>Where nothing is too large to encode, a reduction's output can be sealed.\<close>

definition parent_fits :: "Checkpoint option \<Rightarrow> string \<Rightarrow> bool" where
  "parent_fits parent id' \<longleftrightarrow> (case parent of None \<Rightarrow> True
     | Some p \<Rightarrow> checkpoint_identifier (ck_ID p) \<and> ck_ID p \<noteq> id' \<and> length (ck_Digest p) = 64)"

definition break_fits :: "LineageBreak option \<Rightarrow> string \<Rightarrow> bool" where
  "break_fits broken id' \<longleftrightarrow> (case broken of None \<Rightarrow> True
     | Some b \<Rightarrow> LineageBreak_Validate b = None \<and> lb_AfterID b \<noteq> id')"

lemma validate_parent_update [simp]:
  "validate_parent (c\<lparr>ck_Schema := a, ck_Version := v, ck_Digest := d\<rparr>) = validate_parent c"
  by (cases "ck_Break c") (simp_all add: validate_parent_def)

lemma Seal_total:
  assumes enc: "\<exists>x. CanonicalSHA256 cd (json_Checkpoint (checkpointBody
        (c\<lparr>ck_Schema := CheckpointSchema, ck_Version := CheckpointSchemaVersion\<rparr>))) = Inr x"
    and id: "checkpoint_identifier (ck_ID c)" and parent: "validate_parent c = None"
    and digests: "length (ck_SnapshotDigest c) = 64" "length (ck_DiffDigest c) = 64" "length (ck_ProposalsDigest c) = 64"
    and reducer: "ck_ReducerID c = ReducerID" "ck_ReducerVersion c = ReducerVersion"
    and range: "ck_ConsumedFrom c = 0 \<or> ck_ConsumedFrom c \<le> ck_ConsumedTo c"
    and snapshot: "Snapshot_Validate (ck_Snapshot c) = None" "Snapshot_Digest cd (ck_Snapshot c) = Inr (ck_SnapshotDigest c)"
      "sn_Generation (ck_Snapshot c) = ck_SnapshotGeneration c" "ck_SnapshotGeneration c \<noteq> 0"
      "sn_ConsumedFoldPosition (ck_Snapshot c) = ck_ConsumedTo c" "ck_SourceWatermarks c = sn_Sources (ck_Snapshot c)"
  shows "\<exists>c'. Seal cd c = Inr c'"
proof -
  let ?c = "c\<lparr>ck_Schema := CheckpointSchema, ck_Version := CheckpointSchemaVersion\<rparr>"
  obtain d x where d: "CanonicalSHA256 cd (json_Checkpoint (checkpointBody ?c)) = Inr (d, x)" using enc by fastforce
  have body: "checkpointBody (?c\<lparr>ck_Digest := d\<rparr>) = checkpointBody ?c" by (simp add: checkpointBody_def)
  have agrees: "list_all (\<lambda>(w, carried). watermark_agrees w carried) (zip ws ws)" for ws
    by (induction ws) (simp_all add: watermark_agrees_def)
  have "validate_parent (?c\<lparr>ck_Digest := d\<rparr>) = None" using parent by simp
  moreover have "validate_content cd (?c\<lparr>ck_Digest := d\<rparr>) = None"
    unfolding validate_content_def body d using snapshot agrees by simp
  ultimately have "Checkpoint_Validate cd (?c\<lparr>ck_Digest := d\<rparr>) = None"
    using id digests reducer range snapshot by (auto simp: Checkpoint_Validate_def)
  then show ?thesis by (simp add: Seal_def Let_def d)
qed

lemma SealFrom_total:
  assumes enc: "\<And>t. \<exists>x. CanonicalSHA256 cd t = Inr x" and wide: "digests_wide cd"
    and s: "Snapshot_Validate (out_Snapshot out) = None" "sn_Generation (out_Snapshot out) \<noteq> 0"
    and id: "checkpoint_identifier id'" and lo: "from = 0 \<or> from \<le> sn_ConsumedFoldPosition (out_Snapshot out)"
    and p: "parent_fits parent id'" and b: "break_fits broken id'"
  shows "\<exists>c. SealFrom cd parent broken id' out from wake = Inr c"
proof -
  have digest: "\<exists>d e. CanonicalSHA256 cd t = Inr (d, e) \<and> length d = 64" for t
    using enc [of t] wide by (fastforce simp: CanonicalSHA256_def SHA256Hex_def digests_wide_def split: sum.splits)
  obtain sd dd pd where d: "Snapshot_Digest cd (out_Snapshot out) = Inr sd" "Diff_Digest cd (out_Diff out) = Inr dd"
    "proposalsDigest cd (out_Proposals out) = Inr pd" "length sd = 64" "length dd = 64" "length pd = 64"
    using digest [of "json_Snapshot (out_Snapshot out)"] digest [of "json_Diff (out_Diff out)"]
      digest [of "JArray (map json_Proposal (out_Proposals out))"]
    by (auto simp: Snapshot_Digest_def Diff_Digest_def proposalsDigest_def)
  have "\<not> checkpoint_identifier ''''" by (simp add: checkpoint_identifier_def)
  then show ?thesis
    unfolding SealFrom_def Let_def d sum.case
    using enc d s id lo p b
    by (intro Seal_total) (auto simp: validate_parent_def parent_fits_def break_fits_def split: option.splits)
qed

end
