(* ===== verification/Store.thy ===== *)
theory Store
  imports Checkpoint
begin

text \<open>
  The durable read-model lineage (\<^verbatim>\<open>internal/connectivitycheckpoint/store.go\<close> and
  \<^verbatim>\<open>resume.go\<close>): the three durable writes of \<^verbatim>\<open>Append\<close> with every point a crash can land on,
  and the backwards search of \<^verbatim>\<open>Resume\<close>.

  The directory is its contents: the checkpoint records by identity, the index entries by
  the sequence in their file name, and the pointer. A file holds what its decoder reads
  (\<open>Content\<close>), something the decoder refuses (\<open>Garbled\<close>), or cannot be read
  (\<open>Unreadable\<close>); staged files start with a dot and no reader looks at them. Which system
  calls fail is the argument \<open>os\<close>.

  Two idealisations. What \<^verbatim>\<open>json.Marshal\<close> wrote is what the decoder reads back, so a published file
  holds the value itself. And a published rename is in the directory from then on, whether or not the
  directory sync after it was reached: the crashes of the model are those of the process, at any
  system call and at every boundary of \<^verbatim>\<open>Options.Faults\<close>, not a loss of power that takes an unsynced
  rename with it.
\<close>

section \<open>The directory\<close>

datatype 'a stored = Unreadable | Garbled | Content 'a

datatype Operation = OpCheckpoint | OpIndex | OpPointer

datatype Boundary = BeforeFileSync | AfterFileSync | BeforeRename | AfterRename
  | BeforeDirectorySync | AfterDirectorySync

datatype syscall = SysMakeDirectory | SysStage Operation | SysWrite Operation | SysSync Operation
  | SysClose Operation | SysRename Operation | SysSyncDirectory Operation
  | SysReadIndex | SysRemove u64 | SysSyncEvicted

type_synonym os = "syscall \<Rightarrow> bool"

record Disk =
  dk_checkpoints :: "string \<rightharpoonup> Checkpoint stored"
  dk_index :: "(u64 \<times> IndexEntry stored) list"
  dk_pointer :: "Pointer stored option"

record Store =
  so_depth :: nat
  so_faults :: "(Operation \<times> Boundary) list"

record StoreOptions =
  sp_MaxRecoveryDepth :: int
  sp_Faults :: "(Operation \<times> Boundary) list"

definition Store_Open :: "os \<Rightarrow> string \<Rightarrow> StoreOptions \<Rightarrow> checkpoint_error + Store" where
  "Store_Open os root options =
     (if take 1 root \<noteq> ''/'' then Inl (ErrStoreUnavailable ''path must be absolute'')
      else let depth = sp_MaxRecoveryDepth options;
               depth = (if depth \<le> 0 then DefaultMaxRecoveryDepth else depth)
           in if os SysMakeDirectory then Inl (ErrStoreUnavailable ''directory'')
              else Inr \<lparr>so_depth = nat depth, so_faults = sp_Faults options\<rparr>)"

definition fires :: "Store \<Rightarrow> Operation \<Rightarrow> Boundary \<Rightarrow> bool" where
  "fires so operation boundary \<longleftrightarrow> (operation, boundary) \<in> set (so_faults so)"

text \<open>
  One durable write: its error, and whether the target now holds the content. \<open>held\<close> says
  that the target already exists, which a rename without replacement refuses.
\<close>

definition writeRecord :: "Store \<Rightarrow> os \<Rightarrow> Operation \<Rightarrow> bool \<Rightarrow> bool \<Rightarrow> checkpoint_error option \<times> bool" where
  "writeRecord so os operation held replace =
     (if os (SysStage operation) then (Some (ErrStoreUnavailable ''stage''), False)
      else if os (SysWrite operation) then (Some (ErrStoreUnavailable ''write''), False)
      else if fires so operation BeforeFileSync then (Some ErrInjectedFault, False)
      else if os (SysSync operation) then (Some (ErrStoreUnavailable ''sync''), False)
      else if os (SysClose operation) then (Some (ErrStoreUnavailable ''close''), False)
      else if fires so operation AfterFileSync then (Some ErrInjectedFault, False)
      else if fires so operation BeforeRename then (Some ErrInjectedFault, False)
      else if os (SysRename operation) \<or> (\<not> replace \<and> held)
        then (Some (ErrStoreUnavailable ''publish''), False)
      else if fires so operation AfterRename then (Some ErrInjectedFault, True)
      else if fires so operation BeforeDirectorySync then (Some ErrInjectedFault, True)
      else if os (SysSyncDirectory operation) then (Some (ErrStoreUnavailable ''sync dir''), True)
      else if fires so operation AfterDirectorySync then (Some ErrInjectedFault, True)
      else (None, True))"

definition readJSON :: "'a stored option \<Rightarrow> checkpoint_error + 'a" where
  "readJSON f =
     (case f of
        None \<Rightarrow> Inl ErrNotFound
      | Some Unreadable \<Rightarrow> Inl (ErrStoreUnavailable ''read'')
      | Some Garbled \<Rightarrow> Inl (ErrInvalidCheckpoint ''decode'')
      | Some (Content x) \<Rightarrow> Inr x)"

section \<open>Reading the lineage\<close>

definition pointer_formed :: "Pointer \<Rightarrow> bool" where
  "pointer_formed p \<longleftrightarrow> pt_Schema p = PointerSchema \<and> checkpoint_identifier (pt_ID p) \<and>
     length (pt_Digest p) = 64 \<and> pt_Generation p \<noteq> 0 \<and> pt_Sequence p \<noteq> 0"

definition pointerLocked :: "Disk \<Rightarrow> checkpoint_error + Pointer" where
  "pointerLocked dk =
     (case readJSON (dk_pointer dk) of
        Inl err \<Rightarrow> Inl err
      | Inr p \<Rightarrow> if pointer_formed p then Inr p else Inl (ErrInvalidCheckpoint ''pointer''))"

definition Store_Load :: "codec \<Rightarrow> Disk \<Rightarrow> string \<Rightarrow> checkpoint_error + Checkpoint" where
  "Store_Load cd dk id' =
     (if \<not> checkpoint_identifier id' then Inl (ErrInvalidCheckpoint ''id'')
      else (case readJSON (dk_checkpoints dk id') of
              Inl err \<Rightarrow> Inl err
            | Inr c \<Rightarrow>
                (case Checkpoint_Validate cd c of
                   Some err \<Rightarrow> Inl err
                 | None \<Rightarrow> if ck_ID c \<noteq> id' then Inl (ErrInvalidCheckpoint ''record is filed under another id'')
                           else Inr c)))"

definition entry_formed :: "IndexEntry \<Rightarrow> bool" where
  "entry_formed e \<longleftrightarrow> ie_Schema e = IndexSchema \<and> checkpoint_identifier (ie_ID e) \<and> length (ie_Digest e) = 64"

fun read_entries :: "(u64 \<times> IndexEntry stored) list \<Rightarrow> checkpoint_error + IndexEntry list" where
  "read_entries [] = Inr []"
| "read_entries ((name, f) # rest) =
     (case readJSON (Some f) of
        Inl err \<Rightarrow> Inl err
      | Inr e \<Rightarrow> if \<not> entry_formed e then Inl (ErrInvalidCheckpoint ''index entry'')
                 else (case read_entries rest of Inl err \<Rightarrow> Inl err | Inr es \<Rightarrow> Inr (e # es)))"

text \<open>\<^verbatim>\<open>os.ReadDir\<close> lists by file name, and the names are zero-padded sequences.\<close>

definition indexLocked :: "os \<Rightarrow> Disk \<Rightarrow> checkpoint_error + IndexEntry list" where
  "indexLocked os dk =
     (if os SysReadIndex then Inl (ErrStoreUnavailable ''read dir'')
      else (case read_entries (sort_slice fst (dk_index dk)) of
              Inl err \<Rightarrow> Inl err
            | Inr es \<Rightarrow> Inr (sort_slice ie_Sequence es)))"

record latest =
  la_present :: bool
  la_id :: string
  la_digest :: string
  la_generation :: u64
  la_sequence :: u64
  la_overflow :: bool

definition latestLocked :: "os \<Rightarrow> Disk \<Rightarrow> checkpoint_error + latest" where
  "latestLocked os dk =
     (case pointerLocked dk of
        Inr p \<Rightarrow> Inr \<lparr>la_present = True, la_id = pt_ID p, la_digest = pt_Digest p,
                       la_generation = pt_Generation p, la_sequence = pt_Sequence p, la_overflow = pt_Overflow p\<rparr>
      | Inl _ \<Rightarrow>
          (case indexLocked os dk of
             Inl err \<Rightarrow> Inl err
           | Inr [] \<Rightarrow> Inr \<lparr>la_present = False, la_id = '''', la_digest = '''', la_generation = 0,
                             la_sequence = 0, la_overflow = False\<rparr>
           | Inr (e # es) \<Rightarrow>
               (let newest = last (e # es)
                in Inr \<lparr>la_present = True, la_id = ie_ID newest, la_digest = ie_Digest newest,
                         la_generation = ie_Generation newest, la_sequence = ie_Sequence newest,
                         la_overflow = (1 < ie_Sequence e)\<rparr>)))"

section \<open>Appending a checkpoint\<close>

fun evict_entries :: "os \<Rightarrow> IndexEntry list \<Rightarrow> (u64 \<times> IndexEntry stored) list \<Rightarrow>
    bool \<times> (u64 \<times> IndexEntry stored) list" where
  "evict_entries os [] files = (True, files)"
| "evict_entries os (e # es) files =
     (if os (SysRemove (ie_Sequence e)) then (False, files)
      else evict_entries os es (filter (\<lambda>(name, _). name \<noteq> ie_Sequence e) files))"

definition evictIndexLocked :: "os \<Rightarrow> Disk \<Rightarrow> (checkpoint_error + bool) \<times> Disk" where
  "evictIndexLocked os dk =
     (case indexLocked os dk of
        Inl err \<Rightarrow> (Inl err, dk)
      | Inr entries \<Rightarrow>
          if length entries \<le> MaxIndexEntries then (Inr False, dk)
          else (case evict_entries os (take (length entries - MaxIndexEntries) entries) (dk_index dk) of
                  (removed, files) \<Rightarrow>
                    (let dk = dk\<lparr>dk_index := files\<rparr>
                     in if \<not> removed then (Inl (ErrStoreUnavailable ''evict index''), dk)
                        else if os SysSyncEvicted then (Inl (ErrStoreUnavailable ''sync dir''), dk)
                        else (Inr True, dk))))"

definition generation_guard :: "latest \<Rightarrow> Checkpoint \<Rightarrow> checkpoint_error option" where
  "generation_guard la c =
     (if la_present la then
        (if ck_Parent c = '''' then
           (case ck_Break c of
              None \<Rightarrow> Some (ErrGenerationGuard ''no parent'')
            | Some b \<Rightarrow> if lb_AfterID b \<noteq> la_id la then Some (ErrGenerationGuard ''break names another checkpoint'')
                        else None)
         else if ck_Break c \<noteq> None then Some (ErrGenerationGuard ''a continued lineage carries a break'')
         else if ck_Parent c \<noteq> la_id la then Some (ErrGenerationGuard ''parent is not the latest'')
         else if ck_ParentDigest c \<noteq> la_digest la then Some (ErrGenerationGuard ''parent digest'')
         else if ck_SnapshotGeneration c < la_generation la then Some (ErrGenerationGuard ''generation is behind'')
         else None)
      else if ck_Parent c \<noteq> '''' then Some (ErrGenerationGuard ''first checkpoint claims a parent'')
      else if ck_Break c \<noteq> None
        then Some (ErrGenerationGuard ''first checkpoint abandons a lineage that was never there'')
      else None)"

definition json_IndexEntry :: "IndexEntry \<Rightarrow> json" where
  "json_IndexEntry e = JObject ([(''schema'', JString (ie_Schema e)), (''sequence'', JInt (uint (ie_Sequence e))),
     (''id'', JString (ie_ID e))] @ omit_string ''parent'' (ie_Parent e) @
     [(''digest'', JString (ie_Digest e)), (''snapshot_generation'', JInt (uint (ie_Generation e))),
      (''consumed_to'', JInt (uint (ie_ConsumedTo e)))])"

definition json_Pointer :: "Pointer \<Rightarrow> json" where
  "json_Pointer p = JObject [(''schema'', JString (pt_Schema p)), (''id'', JString (pt_ID p)),
     (''digest'', JString (pt_Digest p)), (''snapshot_generation'', JInt (uint (pt_Generation p))),
     (''index_sequence'', JInt (uint (pt_Sequence p))), (''lineage_overflow'', JBool (pt_Overflow p))]"

definition index_entry :: "Checkpoint \<Rightarrow> u64 \<Rightarrow> IndexEntry" where
  "index_entry c sequence = \<lparr>ie_Schema = IndexSchema, ie_Sequence = sequence, ie_ID = ck_ID c,
     ie_Parent = ck_Parent c, ie_Digest = ck_Digest c, ie_Generation = ck_SnapshotGeneration c,
     ie_ConsumedTo = ck_ConsumedTo c\<rparr>"

definition next_pointer :: "Checkpoint \<Rightarrow> u64 \<Rightarrow> bool \<Rightarrow> Pointer" where
  "next_pointer c sequence overflow = \<lparr>pt_Schema = PointerSchema, pt_ID = ck_ID c, pt_Digest = ck_Digest c,
     pt_Generation = ck_SnapshotGeneration c, pt_Sequence = sequence, pt_Overflow = overflow\<rparr>"

text \<open>The three writes, in the order the source makes them.\<close>

definition append_pointer :: "codec \<Rightarrow> Store \<Rightarrow> os \<Rightarrow> Disk \<Rightarrow> Checkpoint \<Rightarrow> u64 \<Rightarrow> bool \<Rightarrow>
    checkpoint_error option \<times> Disk" where
  "append_pointer cd so os dk c sequence overflow =
     (let p = next_pointer c sequence overflow
      in case cd_marshal cd (json_Pointer p) of
           None \<Rightarrow> (Some (ErrInvalidCheckpoint ''encoding''), dk)
         | Some _ \<Rightarrow>
             (case writeRecord so os OpPointer (dk_pointer dk \<noteq> None) True of
                (err, published) \<Rightarrow> (err, if published then dk\<lparr>dk_pointer := Some (Content p)\<rparr> else dk)))"

definition append_index :: "codec \<Rightarrow> Store \<Rightarrow> os \<Rightarrow> Disk \<Rightarrow> Checkpoint \<Rightarrow> latest \<Rightarrow>
    checkpoint_error option \<times> Disk" where
  "append_index cd so os dk c la =
     (let sequence = la_sequence la + 1; entry = index_entry c sequence
      in case cd_marshal cd (json_IndexEntry entry) of
           None \<Rightarrow> (Some (ErrInvalidCheckpoint ''encoding''), dk)
         | Some _ \<Rightarrow>
             (case writeRecord so os OpIndex (sequence \<in> fst ` set (dk_index dk)) False of
                (err, published) \<Rightarrow>
                  (let dk = (if published then dk\<lparr>dk_index := dk_index dk @ [(sequence, Content entry)]\<rparr> else dk)
                   in case err of
                        Some e \<Rightarrow> (Some e, dk)
                      | None \<Rightarrow>
                          (case evictIndexLocked os dk of
                             (Inl e, dk) \<Rightarrow> (Some e, dk)
                           | (Inr overflow, dk) \<Rightarrow>
                               append_pointer cd so os dk c sequence (la_overflow la \<or> overflow)))))"

definition append_record :: "codec \<Rightarrow> Store \<Rightarrow> os \<Rightarrow> Disk \<Rightarrow> Checkpoint \<Rightarrow> latest \<Rightarrow>
    checkpoint_error option \<times> Disk" where
  "append_record cd so os dk c la =
     (case cd_marshal cd (json_Checkpoint c) of
        None \<Rightarrow> (Some (ErrInvalidCheckpoint ''encoding''), dk)
      | Some encoded \<Rightarrow>
          if length encoded > MaxCheckpointBytes then (Some (ErrInvalidCheckpoint ''record too large''), dk)
          else (case writeRecord so os OpCheckpoint (dk_checkpoints dk (ck_ID c) \<noteq> None) False of
                  (err, published) \<Rightarrow>
                    (let dk = (if published
                               then dk\<lparr>dk_checkpoints := (dk_checkpoints dk)(ck_ID c \<mapsto> Content c)\<rparr> else dk)
                     in case err of Some e \<Rightarrow> (Some e, dk) | None \<Rightarrow> append_index cd so os dk c la)))"

definition Store_Append :: "codec \<Rightarrow> Store \<Rightarrow> os \<Rightarrow> Disk \<Rightarrow> Checkpoint \<Rightarrow> checkpoint_error option \<times> Disk" where
  "Store_Append cd so os dk c =
     (case Checkpoint_Validate cd c of
        Some err \<Rightarrow> (Some err, dk)
      | None \<Rightarrow>
          (case latestLocked os dk of
             Inl err \<Rightarrow> (Some err, dk)
           | Inr la \<Rightarrow>
               (case generation_guard la c of
                  Some err \<Rightarrow> (Some err, dk)
                | None \<Rightarrow> append_record cd so os dk c la)))"

section \<open>Resuming\<close>

type_synonym resume_status = string

definition ResumeGenesis :: resume_status where [go_consts]: "ResumeGenesis = ''genesis''"
definition ResumeLatest :: resume_status where [go_consts]: "ResumeLatest = ''latest''"
definition ResumeAncestor :: resume_status where [go_consts]: "ResumeAncestor = ''recovered_ancestor''"
definition ResumeUnrecoverable :: resume_status where [go_consts]: "ResumeUnrecoverable = ''unrecoverable''"

record Resume =
  rs_Status :: resume_status
  rs_Reason :: resume_reason
  rs_Checkpoint :: "Checkpoint option"
  rs_Depth :: nat
  rs_LineageOverflow :: bool

definition Usable :: "Resume \<Rightarrow> bool" where
  "Usable r \<longleftrightarrow> rs_Checkpoint r \<noteq> None \<and> (rs_Status r = ResumeLatest \<or> rs_Status r = ResumeAncestor)"

text \<open>The walk over the retained ancestry: \<open>n\<close> steps are left before the bound.\<close>

fun prove_ancestry :: "codec \<Rightarrow> Disk \<Rightarrow> bool \<Rightarrow> nat \<Rightarrow> Checkpoint \<Rightarrow> resume_reason" where
  "prove_ancestry cd dk overflow 0 current = ResumeReasonNone"
| "prove_ancestry cd dk overflow (Suc n) current =
     (if ck_Parent current = '''' then ResumeReasonNone
      else (case Store_Load cd dk (ck_Parent current) of
              Inl ErrNotFound \<Rightarrow> if overflow then ResumeReasonNone else ResumeReasonParentBroken
            | Inl _ \<Rightarrow> ResumeReasonRecordInvalid
            | Inr parent \<Rightarrow>
                if ck_Digest parent \<noteq> ck_ParentDigest current then ResumeReasonParentBroken
                else prove_ancestry cd dk overflow n parent))"

definition entry_matches :: "IndexEntry \<Rightarrow> Checkpoint \<Rightarrow> bool" where
  "entry_matches e c \<longleftrightarrow> ck_Digest c = ie_Digest e \<and> ck_Parent c = ie_Parent e \<and>
     ck_SnapshotGeneration c = ie_Generation e \<and> ck_ConsumedTo c = ie_ConsumedTo e"

definition proveLocked :: "codec \<Rightarrow> Store \<Rightarrow> Disk \<Rightarrow> IndexEntry \<Rightarrow> bool \<Rightarrow> Checkpoint option \<times> resume_reason" where
  "proveLocked cd so dk entry overflow =
     (case Store_Load cd dk (ie_ID entry) of
        Inl ErrNotFound \<Rightarrow> (None, ResumeReasonRecordMissing)
      | Inl _ \<Rightarrow> (None, ResumeReasonRecordInvalid)
      | Inr c \<Rightarrow>
          if \<not> entry_matches entry c then (None, ResumeReasonDigestMismatch)
          else (let failure = prove_ancestry cd dk overflow (so_depth so) c
                in if failure = ResumeReasonNone then (Some c, ResumeReasonNone) else (None, failure)))"

text \<open>\<open>left\<close> counts the candidates that may still be tried, so \<open>depth + left = so_depth + 1\<close>.\<close>

fun search_loop :: "codec \<Rightarrow> Store \<Rightarrow> Disk \<Rightarrow> IndexEntry list \<Rightarrow> int \<Rightarrow> bool \<Rightarrow> resume_reason \<Rightarrow>
    nat \<Rightarrow> nat \<Rightarrow> resume_reason \<Rightarrow> resume_reason \<Rightarrow> Resume" where
  "search_loop cd so dk entries start overflow initial 0 depth reason firstFailure =
     \<lparr>rs_Status = ResumeUnrecoverable, rs_Reason = ResumeReasonDepthExhausted, rs_Checkpoint = None,
      rs_Depth = so_depth so, rs_LineageOverflow = overflow\<rparr>"
| "search_loop cd so dk entries start overflow initial (Suc left) depth reason firstFailure =
     (let position = start - int depth
      in if position < 0 then
           \<lparr>rs_Status = ResumeUnrecoverable,
            rs_Reason = (if overflow then ResumeReasonLineageEvicted
                         else if reason = ResumeReasonNone then ResumeReasonRecordMissing else reason),
            rs_Checkpoint = None, rs_Depth = depth, rs_LineageOverflow = overflow\<rparr>
         else (case proveLocked cd so dk (entries ! nat position) overflow of (candidate, failure) \<Rightarrow>
           if failure = ResumeReasonNone then
             \<lparr>rs_Status = (if depth = 0 \<and> initial = ResumeReasonNone then ResumeLatest else ResumeAncestor),
              rs_Reason = (if initial = ResumeReasonNone then firstFailure else initial),
              rs_Checkpoint = candidate, rs_Depth = depth, rs_LineageOverflow = overflow\<rparr>
           else search_loop cd so dk entries start overflow initial left (Suc depth)
                  (if reason = ResumeReasonNone \<or> depth > 0 then failure else reason)
                  (if firstFailure = ResumeReasonNone then failure else firstFailure)))"

definition searchLocked :: "codec \<Rightarrow> Store \<Rightarrow> Disk \<Rightarrow> IndexEntry list \<Rightarrow> int \<Rightarrow> bool \<Rightarrow> resume_reason \<Rightarrow> Resume" where
  "searchLocked cd so dk entries start overflow initial =
     search_loop cd so dk entries start overflow initial (Suc (so_depth so)) 0 initial ResumeReasonNone"

text \<open>The loop keeps the last entry that carries the pointer's identity.\<close>

fun start_from :: "string \<Rightarrow> IndexEntry list \<Rightarrow> int \<Rightarrow> int \<Rightarrow> int" where
  "start_from id' [] index start = start"
| "start_from id' (e # es) index start =
     start_from id' es (index + 1) (if ie_ID e = id' then index else start)"

definition resume_without_pointer :: "codec \<Rightarrow> Store \<Rightarrow> os \<Rightarrow> Disk \<Rightarrow> resume_status \<Rightarrow> resume_reason \<Rightarrow>
    resume_reason \<Rightarrow> checkpoint_error + Resume" where
  "resume_without_pointer cd so os dk empty_status empty_reason initial =
     (case indexLocked os dk of
        Inl err \<Rightarrow> Inl err
      | Inr entries \<Rightarrow>
          if entries = [] then
            Inr \<lparr>rs_Status = empty_status, rs_Reason = empty_reason, rs_Checkpoint = None, rs_Depth = 0,
                 rs_LineageOverflow = False\<rparr>
          else Inr (searchLocked cd so dk entries (int (length entries) - 1) False initial))"

definition Store_Resume :: "codec \<Rightarrow> Store \<Rightarrow> os \<Rightarrow> Disk \<Rightarrow> checkpoint_error + Resume" where
  "Store_Resume cd so os dk =
     (case pointerLocked dk of
        Inl ErrNotFound \<Rightarrow> resume_without_pointer cd so os dk ResumeGenesis ResumeReasonNone ResumeReasonNoPointer
      | Inl _ \<Rightarrow> resume_without_pointer cd so os dk ResumeUnrecoverable ResumeReasonPointerInvalid
                     ResumeReasonPointerInvalid
      | Inr p \<Rightarrow>
          (case indexLocked os dk of
             Inl err \<Rightarrow> Inl err
           | Inr entries \<Rightarrow>
               (let start = start_from (pt_ID p) entries 0 (int (length entries) - 1);
                    r = searchLocked cd so dk entries start (pt_Overflow p) ResumeReasonNone
                in Inr (if rs_Status r = ResumeAncestor \<and> rs_Depth r = 0 then r\<lparr>rs_Status := ResumeLatest\<rparr> else r))))"

end
