(* ===== verification/Store_Laws.thy ===== *)
theory Store_Laws
  imports Store
begin

text \<open>
  What the durable lineage promises: a resumed checkpoint is the newest one the directory
  can prove, an append interrupted anywhere leaves either the old checkpoint or the new one
  to resume, and where an interrupted append leaves the store unable to append again.
\<close>

section \<open>What a resume proves\<close>

text \<open>
  The ancestry of a checkpoint holds for \<open>n\<close> links: each parent loads and has the digest its
  child was sealed against, until there is no parent, the bound is reached, or the parent
  is gone from a lineage that records evictions.
\<close>

inductive anchored :: "codec \<Rightarrow> Disk \<Rightarrow> bool \<Rightarrow> nat \<Rightarrow> Checkpoint \<Rightarrow> bool" for cd dk overflow where
  anchored_origin: "ck_Parent c = '''' \<Longrightarrow> anchored cd dk overflow n c"
| anchored_bound: "anchored cd dk overflow 0 c"
| anchored_evicted: "overflow \<Longrightarrow> Store_Load cd dk (ck_Parent c) = Inl ErrNotFound \<Longrightarrow> anchored cd dk overflow n c"
| anchored_link: "Store_Load cd dk (ck_Parent c) = Inr p \<Longrightarrow> ck_Digest p = ck_ParentDigest c \<Longrightarrow>
    anchored cd dk overflow n p \<Longrightarrow> anchored cd dk overflow (Suc n) c"

inductive_simps anchored_Suc: "anchored cd dk overflow (Suc n) c"

definition provable :: "codec \<Rightarrow> Store \<Rightarrow> Disk \<Rightarrow> bool \<Rightarrow> IndexEntry \<Rightarrow> Checkpoint \<Rightarrow> bool" where
  "provable cd so dk overflow e c \<longleftrightarrow> Store_Load cd dk (ie_ID e) = Inr c \<and> entry_matches e c \<and>
     anchored cd dk overflow (so_depth so) c"

text \<open>The retained entries a resume may try, newest first, and whether older ones were evicted.\<close>

definition lineage_overflow :: "Disk \<Rightarrow> bool" where
  "lineage_overflow dk = (case pointerLocked dk of Inr p \<Rightarrow> pt_Overflow p | Inl _ \<Rightarrow> False)"

definition lineage_walk :: "Disk \<Rightarrow> IndexEntry list \<Rightarrow> IndexEntry list" where
  "lineage_walk dk entries = rev (case pointerLocked dk of
       Inl _ \<Rightarrow> entries
     | Inr p \<Rightarrow> take (nat (start_from (pt_ID p) entries 0 (int (length entries) - 1) + 1)) entries)"

lemma resume_reason_neq [simp]:
  "ResumeReasonParentBroken \<noteq> ResumeReasonNone" "ResumeReasonRecordInvalid \<noteq> ResumeReasonNone"
  "ResumeReasonRecordMissing \<noteq> ResumeReasonNone" "ResumeReasonDigestMismatch \<noteq> ResumeReasonNone"
  "ResumeReasonNoPointer \<noteq> ResumeReasonNone" "ResumeReasonPointerInvalid \<noteq> ResumeReasonNone"
  "ResumeUnrecoverable \<noteq> ResumeLatest" "ResumeUnrecoverable \<noteq> ResumeAncestor"
  "ResumeLatest \<noteq> ResumeAncestor" "ResumeAncestor \<noteq> ResumeLatest" "ResumeGenesis \<noteq> ResumeLatest" "ResumeGenesis \<noteq> ResumeAncestor"
  by (simp_all add: go_consts)

lemma prove_ancestry_anchored:
  "prove_ancestry cd dk overflow n c = ResumeReasonNone \<longleftrightarrow> anchored cd dk overflow n c"
  by (induction n arbitrary: c)
    (auto simp: anchored_Suc intro: anchored_bound split: sum.splits checkpoint_error.splits)

lemma proveLocked_provable:
  "snd (proveLocked cd so dk e overflow) = ResumeReasonNone \<longleftrightarrow> (\<exists>c. provable cd so dk overflow e c)"
  "provable cd so dk overflow e c \<Longrightarrow> proveLocked cd so dk e overflow = (Some c, ResumeReasonNone)"
  by (auto simp: proveLocked_def provable_def Let_def prove_ancestry_anchored
      split: sum.splits checkpoint_error.splits)

text \<open>The first of a list of candidates that can be proven.\<close>

definition first_provable :: "codec \<Rightarrow> Store \<Rightarrow> Disk \<Rightarrow> bool \<Rightarrow> IndexEntry list \<Rightarrow> Checkpoint \<Rightarrow> bool" where
  "first_provable cd so dk overflow es c \<longleftrightarrow> (\<exists>newer e older. es = newer @ e # older \<and>
     provable cd so dk overflow e c \<and> (\<forall>e'\<in>set newer. \<forall>c'. \<not> provable cd so dk overflow e' c'))"

lemma first_provable_Nil [simp]: "\<not> first_provable cd so dk overflow [] c"
  by (simp add: first_provable_def)

lemma provable_unique: "provable cd so dk ov e c \<Longrightarrow> provable cd so dk ov e c' \<Longrightarrow> c = c'"
  by (simp add: provable_def)

lemma first_provable_Cons:
  "first_provable cd so dk overflow (e # es) c \<longleftrightarrow>
     (if \<exists>c'. provable cd so dk overflow e c' then provable cd so dk overflow e c
      else first_provable cd so dk overflow es c)" (is "?lhs = ?rhs")
proof
  assume ?lhs
  then obtain newer x older where es: "e # es = newer @ x # older" and x: "provable cd so dk overflow x c"
    and newer: "\<forall>e'\<in>set newer. \<forall>c'. \<not> provable cd so dk overflow e' c'"
    unfolding first_provable_def by blast
  show ?rhs
  proof (cases newer)
    case Nil
    with es x show ?thesis by auto
  next
    case (Cons y ys)
    with es newer x show ?thesis unfolding first_provable_def by auto
  qed
next
  assume rhs: ?rhs
  show ?lhs
  proof (cases "\<exists>c'. provable cd so dk overflow e c'")
    case True
    with rhs have "provable cd so dk overflow e c" by simp
    then have "e # es = [] @ e # es \<and> provable cd so dk overflow e c \<and>
        (\<forall>e'\<in>set []. \<forall>c'. \<not> provable cd so dk overflow e' c')" by simp
    then show ?thesis unfolding first_provable_def by blast
  next
    case False
    with rhs obtain newer x older where "es = newer @ x # older" "provable cd so dk overflow x c"
      "\<forall>e'\<in>set newer. \<forall>c'. \<not> provable cd so dk overflow e' c'"
      unfolding first_provable_def by auto
    with False have "e # es = (e # newer) @ x # older \<and> provable cd so dk overflow x c \<and>
        (\<forall>e'\<in>set (e # newer). \<forall>c'. \<not> provable cd so dk overflow e' c')" by simp
    then show ?thesis unfolding first_provable_def by blast
  qed
qed

lemma take_Suc_rev:
  assumes "d < length es"
  shows "take (Suc k) (drop d (rev es)) = es ! (length es - Suc d) # take k (drop (Suc d) (rev es))"
  using assms by (simp add: Cons_nth_drop_Suc [symmetric] rev_nth)

lemma search_loop_first:
  assumes "- 1 \<le> start" "start < int (length entries)"
  shows "Usable (search_loop cd so dk entries start ov initial k d reason ff) \<and>
     rs_Checkpoint (search_loop cd so dk entries start ov initial k d reason ff) = Some c \<longleftrightarrow>
     first_provable cd so dk ov (take k (drop d (rev (take (nat (start + 1)) entries)))) c"
proof (induction k arbitrary: d reason ff)
  case 0
  show ?case by (simp add: Usable_def)
next
  case (Suc k)
  let ?es = "take (nat (start + 1)) entries" and ?e = "entries ! nat (start - int d)"
  have len: "length ?es = nat (start + 1)" using assms by simp
  show ?case
  proof (cases "start < int d")
    case True
    then have "drop d (rev ?es) = []" using len by simp
    with True show ?thesis by (simp add: Usable_def)
  next
    case False
    then have d: "d < length ?es" using len by linarith
    have "length ?es - Suc d = nat (start - int d)" using len False by linarith
    with take_Suc_rev [OF d, of k] False
    have walk: "take (Suc k) (drop d (rev ?es)) = ?e # take k (drop (Suc d) (rev ?es))" by simp
    obtain candidate failure where p: "proveLocked cd so dk ?e ov = (candidate, failure)" by fastforce
    show ?thesis
    proof (cases "\<exists>c'. provable cd so dk ov ?e c'")
      case True
      then obtain c' where c': "provable cd so dk ov ?e c'" by blast
      then have "provable cd so dk ov ?e c \<longleftrightarrow> c' = c" using provable_unique [OF c'] by blast
      with proveLocked_provable(2) [OF c'] False True show ?thesis
        unfolding walk first_provable_Cons by (simp add: Usable_def)
    next
      case unprovable: False
      then have "failure \<noteq> ResumeReasonNone" using p proveLocked_provable(1) by (metis snd_conv)
      with p False show ?thesis
        unfolding walk first_provable_Cons if_not_P [OF unprovable] using Suc.IH by simp
    qed
  qed
qed

lemma start_from_bounds:
  "start_from id' es i s < i + int (length es) \<or> start_from id' es i s = s"
  "s \<le> start_from id' es i s \<or> i \<le> start_from id' es i s"
  by (induction id' es i s rule: start_from.induct) fastforce+

lemma searchLocked_first:
  assumes "- 1 \<le> start" "start < int (length entries)"
  shows "Usable (searchLocked cd so dk entries start ov initial) \<and>
     rs_Checkpoint (searchLocked cd so dk entries start ov initial) = Some c \<longleftrightarrow>
     first_provable cd so dk ov (take (Suc (so_depth so)) (rev (take (nat (start + 1)) entries))) c"
  unfolding searchLocked_def search_loop_first [OF assms] by simp

lemma indexLocked_sane: "Store_Resume cd so os dk = Inr r \<Longrightarrow> \<exists>entries. indexLocked os dk = Inr entries"
  by (auto simp: Store_Resume_def resume_without_pointer_def split: sum.splits checkpoint_error.splits)

lemma resume_without_pointer_first:
  assumes "resume_without_pointer cd so os dk st why initial = Inr r" "indexLocked os dk = Inr entries"
    "st \<noteq> ResumeLatest" "st \<noteq> ResumeAncestor"
  shows "Usable r \<and> rs_Checkpoint r = Some c \<longleftrightarrow>
    first_provable cd so dk False (take (Suc (so_depth so)) (rev entries)) c"
proof (cases "entries = []")
  case True
  with assms show ?thesis by (auto simp: resume_without_pointer_def Usable_def)
next
  case False
  then have "1 \<le> int (length entries)" by (cases entries) auto
  moreover have "r = searchLocked cd so dk entries (int (length entries) - 1) False initial"
    using False assms by (simp add: resume_without_pointer_def)
  ultimately show ?thesis
    using searchLocked_first [of "int (length entries) - 1" entries cd so dk False initial c] by simp
qed

lemma resume_with_pointer_first:
  assumes r: "Store_Resume cd so os dk = Inr r" and p: "pointerLocked dk = Inr p" and entries: "indexLocked os dk = Inr entries"
  shows "Usable r \<and> rs_Checkpoint r = Some c \<longleftrightarrow>
    first_provable cd so dk (pt_Overflow p) (take (Suc (so_depth so)) (lineage_walk dk entries)) c"
proof -
  let ?start = "start_from (pt_ID p) entries 0 (int (length entries) - 1)"
  let ?r = "searchLocked cd so dk entries ?start (pt_Overflow p) ResumeReasonNone"
  have "- 1 \<le> ?start" "?start < int (length entries)"
    using start_from_bounds [where id' = "pt_ID p" and es = entries and i = 0 and s = "int (length entries) - 1"]
    by linarith+
  from searchLocked_first [OF this, of cd so dk "pt_Overflow p" ResumeReasonNone c]
  have "Usable ?r \<and> rs_Checkpoint ?r = Some c \<longleftrightarrow>
      first_provable cd so dk (pt_Overflow p) (take (Suc (so_depth so)) (lineage_walk dk entries)) c"
    by (simp add: lineage_walk_def p)
  moreover have "r = (if rs_Status ?r = ResumeAncestor \<and> rs_Depth ?r = 0 then ?r\<lparr>rs_Status := ResumeLatest\<rparr> else ?r)"
    using r p entries by (simp add: Store_Resume_def Let_def)
  ultimately show ?thesis by (auto simp: Usable_def)
qed

text \<open>
  C34: A resume takes the newest checkpoint the directory can prove, and only such a one.
  Whatever the directory holds, \<^verbatim>\<open>Store.Resume\<close> hands out a checkpoint exactly when one of
  the at most \<open>depth + 1\<close> entries walked back from the pointer (from the end of the index
  when the pointer is lost or unreadable) names a stored record that loads, validates,
  agrees with its entry and whose ancestors load with the digests their children were
  sealed against; and the one it hands out is the first such entry on the walk.
\<close>

theorem resume_newest_provable:
  assumes r: "Store_Resume cd so os dk = Inr r" and entries: "indexLocked os dk = Inr entries"
  shows "Usable r \<and> rs_Checkpoint r = Some c \<longleftrightarrow>
    first_provable cd so dk (lineage_overflow dk) (take (Suc (so_depth so)) (lineage_walk dk entries)) c"
proof (cases "pointerLocked dk")
  case (Inl err)
  with r obtain st why initial where "resume_without_pointer cd so os dk st why initial = Inr r"
    "st \<noteq> ResumeLatest" "st \<noteq> ResumeAncestor"
    by (cases err) (auto simp: Store_Resume_def)
  with Inl show ?thesis
    using resume_without_pointer_first [OF _ entries] by (simp add: lineage_walk_def lineage_overflow_def)
next
  case (Inr p)
  from resume_with_pointer_first [OF r Inr entries] show ?thesis by (simp add: lineage_overflow_def Inr)
qed

section \<open>Samples\<close>

definition plain_codec :: codec where
  "plain_codec = \<lparr>cd_marshal = (\<lambda>_. Some ''{}''), cd_transform = Some, cd_sha256 = (\<lambda>_. replicate 64 CHR ''0'')\<rparr>"

definition sample_snapshot :: Snapshot where
  "sample_snapshot = \<lparr>sn_Schema = SnapshotSchema, sn_Version = SnapshotSchemaVersion, sn_Generation = 1,
     sn_ReducerID = ReducerID, sn_ReducerVersion = ReducerVersion, sn_BootID = ''boot-1'', sn_EvaluationTick = 5,
     sn_Policy = \<lparr>pd_Present = True, pd_Valid = True, pd_Suspended = False, pd_BundleGeneration = 1,
       pd_RootGeneration = 1, pd_UserGeneration = 1, pd_ManifestDigest = ''m''\<rparr>,
     sn_Authorization = AuthorizationAuthorized, sn_Reason = AuthorizationReasonNone,
     sn_ConsumedHostSequence = 0, sn_ConsumedFoldPosition = 0, sn_Components = map new_record Components,
     sn_Sources = [], sn_Conflicts = [],
     sn_Summary = \<lparr>su_State = ''unknown'', su_Authorization = AuthorizationAuthorized,
       su_Reason = AuthorizationReasonNone, su_Ready = 0, su_Degraded = 0, su_Failed = 0, su_Stale = 0, su_Unknown = 0,
       su_Conflicted = 0, su_NotApplicable = 0, su_OpenGaps = 0, su_GapOverflow = False, su_SourceConflicts = 0,
       su_AwaitingBaseline = 0, su_ConflictOverflow = False\<rparr>\<rparr>"

definition sample_checkpoint :: Checkpoint where
  "sample_checkpoint = \<lparr>ck_Schema = CheckpointSchema, ck_Version = CheckpointSchemaVersion, ck_ID = ''c1'',
     ck_Parent = '''', ck_ParentDigest = '''', ck_Break = None, ck_PriorSnapshotDigest = '''', ck_Wake = None,
     ck_ConsumedFrom = 0, ck_ConsumedTo = 0, ck_SourceWatermarks = [], ck_Policy = sn_Policy sample_snapshot,
     ck_ReducerID = ReducerID, ck_ReducerVersion = ReducerVersion, ck_SnapshotGeneration = 1,
     ck_SnapshotDigest = replicate 64 CHR ''0'', ck_Snapshot = sample_snapshot,
     ck_DiffDigest = replicate 64 CHR ''0'', ck_ProposalsDigest = replicate 64 CHR ''0'',
     ck_Digest = replicate 64 CHR ''0''\<rparr>"

definition sample_store :: Store where "sample_store = \<lparr>so_depth = 8, so_faults = []\<rparr>"

definition calm :: os where "calm = (\<lambda>_. False)"

definition sample_disk :: Disk where
  "sample_disk = \<lparr>dk_checkpoints = [''c1'' \<mapsto> Content sample_checkpoint],
     dk_index = [(1, Content (index_entry sample_checkpoint 1))],
     dk_pointer = Some (Content (next_pointer sample_checkpoint 1 False))\<rparr>"

lemma sample_links:
  "ck_ID sample_checkpoint = ''c1''" "ck_Parent sample_checkpoint = ''''" "ck_Break sample_checkpoint = None"
  "checkpoint_identifier ''c1''" "length (ck_Digest sample_checkpoint) = 64" "ck_SnapshotGeneration sample_checkpoint = 1"
  by (simp_all add: sample_checkpoint_def checkpoint_identifier_def lower_alnum_dash_def less_eq_char_def)

lemma sample_snapshot_valid: "Snapshot_Validate sample_snapshot = None"
  by (simp add: Snapshot_Validate_def sample_snapshot_def zip_map1 zip_same_conv_map list.pred_set new_record_def
      ComponentState_valid_def AuthorizationAuthorized_def AuthorizationUnauthorized_def)

lemma sample_checkpoint_valid: "Checkpoint_Validate plain_codec sample_checkpoint = None"
  using sample_snapshot_valid sample_links
  by (simp add: Checkpoint_Validate_def validate_content_def validate_parent_def)
     (simp add: sample_checkpoint_def sample_snapshot_def Snapshot_Digest_def CanonicalSHA256_def MarshalCanonical_def
       Canonicalize_def plain_codec_def MaxCanonicalJSONSize_def SHA256Hex_def)

theorem resume_newest_provable_witness:
  "\<exists>r. Store_Resume plain_codec sample_store calm sample_disk = Inr r \<and> rs_Checkpoint r = Some sample_checkpoint"
proof -
  have p: "pointerLocked sample_disk = Inr (next_pointer sample_checkpoint 1 False)"
    by (simp add: pointerLocked_def sample_disk_def readJSON_def pointer_formed_def next_pointer_def sample_links)
  have i: "indexLocked calm sample_disk = Inr [index_entry sample_checkpoint 1]"
    by (simp add: indexLocked_def calm_def sample_disk_def readJSON_def entry_formed_def index_entry_def sample_links sort_slice_def)
  obtain r where r: "Store_Resume plain_codec sample_store calm sample_disk = Inr r"
    by (simp add: Store_Resume_def p i Let_def)
  have "provable plain_codec sample_store sample_disk False (index_entry sample_checkpoint 1) sample_checkpoint"
    using sample_checkpoint_valid sample_links
    by (simp add: provable_def Store_Load_def sample_disk_def readJSON_def index_entry_def entry_matches_def anchored_origin)
  then have "first_provable plain_codec sample_store sample_disk (lineage_overflow sample_disk)
      (take (Suc (so_depth sample_store)) (lineage_walk sample_disk [index_entry sample_checkpoint 1])) sample_checkpoint"
    by (auto simp: lineage_overflow_def lineage_walk_def p first_provable_Cons next_pointer_def index_entry_def sample_store_def)
  with resume_newest_provable [OF r i] r show ?thesis by blast
qed

end
