(* ===== verification/Durability.thy ===== *)
theory Durability
  imports Store_Laws
begin

text \<open>
  The write order of \<^verbatim>\<open>Store.Append\<close> (record, index entry, pointer) under every crash and
  every failing system call: the invariant each of the three writes keeps, what a resume
  finds after each, and the append that can no longer succeed.
\<close>

section \<open>The invariant of the directory\<close>

definition held :: "Disk \<Rightarrow> Checkpoint \<Rightarrow> bool" where
  "held dk c \<longleftrightarrow> dk_checkpoints dk (ck_ID c) = Some (Content c)"

text \<open>Every record is valid, filed under its identity, and its parent is on disk.\<close>

definition filed :: "codec \<Rightarrow> Disk \<Rightarrow> bool" where
  "filed cd dk \<longleftrightarrow> (\<forall>id' f. dk_checkpoints dk id' = Some f \<longrightarrow> (\<exists>c. f = Content c \<and> ck_ID c = id' \<and>
     Checkpoint_Validate cd c = None \<and>
     (ck_Parent c \<noteq> '''' \<longrightarrow> (\<exists>p. held dk p \<and> ck_ID p = ck_Parent c \<and> ck_Digest p = ck_ParentDigest c))))"

text \<open>The index entries are those of stored checkpoints, each once.\<close>

abbreviation entry_file :: "u64 \<times> Checkpoint \<Rightarrow> u64 \<times> IndexEntry stored" where
  "entry_file \<equiv> \<lambda>(s, c). (s, Content (index_entry c s))"

abbreviation entry_of :: "u64 \<times> Checkpoint \<Rightarrow> IndexEntry" where
  "entry_of \<equiv> \<lambda>(s, c). index_entry c s"

definition lists :: "Disk \<Rightarrow> (u64 \<times> Checkpoint) list \<Rightarrow> bool" where
  "lists dk ps \<longleftrightarrow> dk_index dk = map entry_file ps \<and> distinct (map fst ps) \<and>
     distinct (map (ck_ID \<circ> snd) ps) \<and> (\<forall>(s, c)\<in>set ps. held dk c)"

text \<open>The pointer names an indexed checkpoint, and at most one entry is ahead of it.\<close>

definition points :: "Disk \<Rightarrow> (u64 \<times> Checkpoint) list \<Rightarrow> bool" where
  "points dk ps \<longleftrightarrow> (case dk_pointer dk of
       None \<Rightarrow> True
     | Some f \<Rightarrow> \<exists>c s ov. f = Content (next_pointer c s ov) \<and> (s, c) \<in> set ps \<and>
         (\<forall>(s', _)\<in>set ps. unat s' \<le> unat s + 1))"

definition store_ok :: "codec \<Rightarrow> nat \<Rightarrow> Disk \<Rightarrow> (u64 \<times> Checkpoint) list \<Rightarrow> bool" where
  "store_ok cd n dk ps \<longleftrightarrow> filed cd dk \<and> lists dk ps \<and> points dk ps \<and>
     (\<forall>(s, c)\<in>set ps. s \<noteq> 0 \<and> unat s \<le> n)"

lemma filed_load:
  assumes "filed cd dk" "held dk c"
  shows "Checkpoint_Validate cd c = None" "Store_Load cd dk (ck_ID c) = Inr c"
proof -
  show v: "Checkpoint_Validate cd c = None" using assms unfolding filed_def held_def by fastforce
  show "Store_Load cd dk (ck_ID c) = Inr c"
    using assms(2) v Checkpoint_Validate_None(1) [OF v] by (simp add: Store_Load_def held_def readJSON_def)
qed

lemma filed_anchored:
  assumes "filed cd dk" "held dk c"
  shows "anchored cd dk overflow n c"
  using assms(2)
proof (induction n arbitrary: c)
  case 0
  show ?case by (rule anchored_bound)
next
  case (Suc n)
  show ?case
  proof (cases "ck_Parent c = ''''")
    case False
    with Suc.prems assms(1) obtain p where p: "held dk p" "ck_ID p = ck_Parent c" "ck_Digest p = ck_ParentDigest c"
      unfolding filed_def held_def by fastforce
    show ?thesis
      using anchored_link [OF _ p(3) Suc.IH [OF p(1)]] filed_load(2) [OF assms(1) p(1)] p(2) by simp
  qed (rule anchored_origin)
qed

lemma filed_provable:
  assumes "filed cd dk" "held dk c"
  shows "provable cd so dk overflow (index_entry c s) c"
  using filed_load [OF assms] filed_anchored [OF assms]
  by (simp add: provable_def index_entry_def entry_matches_def)

section \<open>Reading a directory in that state\<close>

definition readable :: "os \<Rightarrow> bool" where
  "readable os \<longleftrightarrow> \<not> os SysReadIndex"

lemma sort_entry_files:
  "distinct (map fst ps) \<Longrightarrow> sort_slice fst (map entry_file ps) = map entry_file (sort_slice fst ps)"
  by (rule sort_key_distinct_unique) (auto simp: comp_def case_prod_beta)

lemma read_entry_files:
  assumes "\<forall>(s, c)\<in>set ps. checkpoint_identifier (ck_ID c) \<and> length (ck_Digest c) = 64"
  shows "read_entries (map entry_file ps) = Inr (map entry_of ps)"
  using assms by (induction ps) (auto simp: readJSON_def entry_formed_def index_entry_def)

lemma store_index:
  assumes ok: "store_ok cd n dk ps" and wide: "digests_wide cd" and os: "readable os"
  shows "indexLocked os dk = Inr (map entry_of (sort_slice fst ps))"
proof -
  have ps: "filed cd dk" "dk_index dk = map entry_file ps" "distinct (map fst ps)" "\<forall>(s, c)\<in>set ps. held dk c"
    using ok by (auto simp: store_ok_def lists_def)
  have "\<forall>(s, c)\<in>set (sort_slice fst ps). checkpoint_identifier (ck_ID c) \<and> length (ck_Digest c) = 64"
    using ps(4) filed_load(1) [OF ps(1)] Checkpoint_Validate_None(1) validated_digest [OF wide] by fastforce
  from read_entry_files [OF this]
  have "read_entries (sort_slice fst (dk_index dk)) = Inr (map entry_of (sort_slice fst ps))"
    by (simp add: ps(2) sort_entry_files [OF ps(3)])
  moreover have "sort_slice ie_Sequence (map entry_of (sort_slice fst ps)) = map entry_of (sort_slice fst ps)"
    by (rule sort_slice_sorted) (simp add: comp_def case_prod_beta index_entry_def)
  ultimately show ?thesis using os by (simp add: indexLocked_def readable_def)
qed

lemma store_pointer:
  assumes ok: "store_ok cd n dk ps" and wide: "digests_wide cd"
  shows "dk_pointer dk = None \<Longrightarrow> pointerLocked dk = Inl ErrNotFound"
    "dk_pointer dk \<noteq> None \<Longrightarrow> \<exists>c s ov. pointerLocked dk = Inr (next_pointer c s ov) \<and>
       dk_pointer dk = Some (Content (next_pointer c s ov)) \<and> (s, c) \<in> set ps \<and>
       (\<forall>(s', _)\<in>set ps. unat s' \<le> unat s + 1)"
proof -
  show "dk_pointer dk = None \<Longrightarrow> pointerLocked dk = Inl ErrNotFound"
    by (simp add: pointerLocked_def readJSON_def)
  assume "dk_pointer dk \<noteq> None"
  then obtain c s ov where p: "dk_pointer dk = Some (Content (next_pointer c s ov))" "(s, c) \<in> set ps"
    "\<forall>(s', _)\<in>set ps. unat s' \<le> unat s + 1"
    using ok by (auto simp: store_ok_def points_def)
  then have "Checkpoint_Validate cd c = None" "s \<noteq> 0"
    using ok filed_load(1) [of cd dk c] by (auto simp: store_ok_def lists_def)
  then have "pointer_formed (next_pointer c s ov)"
    using validated_digest [OF wide] Checkpoint_Validate_None(1,5) by (auto simp: pointer_formed_def next_pointer_def)
  with p show "\<exists>c s ov. pointerLocked dk = Inr (next_pointer c s ov) \<and>
       dk_pointer dk = Some (Content (next_pointer c s ov)) \<and> (s, c) \<in> set ps \<and>
       (\<forall>(s', _)\<in>set ps. unat s' \<le> unat s + 1)"
    by (intro exI [of _ c] exI [of _ s] exI [of _ ov]) (simp add: pointerLocked_def readJSON_def)
qed

text \<open>What the next process resumes from.\<close>

definition resumed :: "codec \<Rightarrow> Store \<Rightarrow> os \<Rightarrow> Disk \<Rightarrow> Checkpoint option" where
  "resumed cd so os dk = (case Store_Resume cd so os dk of
       Inl _ \<Rightarrow> None | Inr r \<Rightarrow> if Usable r then rs_Checkpoint r else None)"

lemma start_from_unique:
  assumes "distinct (map ie_ID es)" "j < length es" "ie_ID (es ! j) = id'"
  shows "start_from id' es i s = i + int j"
  using assms
proof (induction es arbitrary: i s j)
  case (Cons e es)
  show ?case
  proof (cases j)
    case 0
    have "id' \<notin> set (map ie_ID es) \<Longrightarrow> start_from id' es i s = s" for i s
      by (induction es arbitrary: i s) auto
    with 0 Cons.prems show ?thesis by auto
  next
    case (Suc k)
    with Cons.prems Cons.IH [of k] show ?thesis by auto
  qed
qed simp

lemma resumed_pointer:
  assumes ok: "store_ok cd n dk ps" and wide: "digests_wide cd" and os: "readable os"
    and p: "dk_pointer dk = Some (Content (next_pointer c s ov))" and mem: "(s, c) \<in> set ps"
  shows "resumed cd so os dk = Some c"
proof -
  let ?es = "map entry_of (sort_slice fst ps)"
  have ptr: "pointerLocked dk = Inr (next_pointer c s ov)" using store_pointer(2) [OF ok wide] p by auto
  have entries: "indexLocked os dk = Inr ?es" by (rule store_index [OF ok wide os])
  obtain r where r: "Store_Resume cd so os dk = Inr r" by (simp add: Store_Resume_def ptr entries Let_def)
  obtain j where j: "j < length ?es" "?es ! j = index_entry c s"
    using mem by (metis (mono_tags, lifting) case_prod_conv in_set_conv_nth length_map nth_map set_sort_slice)
  have "distinct (map (ck_ID \<circ> snd) (sort_slice fst ps))"
    using ok mset_eq_imp_distinct_iff [of "map (ck_ID \<circ> snd) (sort_slice fst ps)" "map (ck_ID \<circ> snd) ps"]
    by (simp add: store_ok_def lists_def)
  then have "distinct (map ie_ID ?es)" by (simp add: comp_def case_prod_beta index_entry_def)
  from start_from_unique [OF this j(1), of "ck_ID c" 0]
  have "lineage_walk dk ?es = rev (take (Suc j) ?es)"
    using j(2) by (simp add: lineage_walk_def ptr next_pointer_def index_entry_def nat_add_distrib)
  also have "\<dots> = index_entry c s # rev (take j ?es)" using j by (simp add: take_Suc_conv_app_nth)
  finally have "take (Suc (so_depth so)) (lineage_walk dk ?es) = index_entry c s # take (so_depth so) (rev (take j ?es))"
    by simp
  moreover have "provable cd so dk ov (index_entry c s) c"
    using ok mem filed_provable by (auto simp: store_ok_def lists_def)
  ultimately have "Usable r \<and> rs_Checkpoint r = Some c"
    unfolding resume_with_pointer_first [OF r ptr entries] by (auto simp: first_provable_Cons next_pointer_def)
  then show ?thesis by (simp add: resumed_def r)
qed

lemma resumed_index:
  assumes ok: "store_ok cd n dk ps" and wide: "digests_wide cd" and os: "readable os"
    and p: "dk_pointer dk = None"
  shows "resumed cd so os dk = (if ps = [] then None else Some (snd (last (sort_slice fst ps))))"
proof -
  let ?es = "map entry_of (sort_slice fst ps)"
  have entries: "indexLocked os dk = Inr ?es" by (rule store_index [OF ok wide os])
  have eq: "Store_Resume cd so os dk =
      resume_without_pointer cd so os dk ResumeGenesis ResumeReasonNone ResumeReasonNoPointer"
    by (simp add: Store_Resume_def store_pointer(1) [OF ok wide p])
  obtain r where r': "resume_without_pointer cd so os dk ResumeGenesis ResumeReasonNone ResumeReasonNoPointer = Inr r"
    by (cases "ps = []") (simp_all add: resume_without_pointer_def entries)
  then have r: "Store_Resume cd so os dk = Inr r" by (simp only: eq)
  note first = resume_without_pointer_first [OF r' entries]
  show ?thesis
  proof (cases "ps = []")
    case True
    with first show ?thesis by (cases "rs_Checkpoint r") (auto simp: resumed_def r)
  next
    case False
    obtain s c where last: "last (sort_slice fst ps) = (s, c)" by fastforce
    with False have "(s, c) \<in> set ps" by (metis last_in_set set_sort_slice sort_slice_eq_Nil)
    then have "provable cd so dk False (index_entry c s) c"
      using ok filed_provable by (auto simp: store_ok_def lists_def)
    moreover obtain init where "sort_slice fst ps = init @ [(s, c)]"
      using last False by (metis append_butlast_last_id sort_slice_eq_Nil)
    ultimately have "Usable r \<and> rs_Checkpoint r = Some c" using first by (auto simp: first_provable_Cons)
    with False last show ?thesis by (simp add: resumed_def r)
  qed
qed

section \<open>The three writes\<close>

lemma writeRecord_held: "writeRecord so os op True False = (err, published) \<Longrightarrow> err \<noteq> None \<and> \<not> published"
  by (auto simp: writeRecord_def split: if_splits)

lemma writeRecord_ok: "writeRecord so os op h replace = (None, published) \<Longrightarrow> published"
  by (auto simp: writeRecord_def split: if_splits)

text \<open>What the store appends onto is the newest indexed checkpoint or the pointer's.\<close>

lemma sorted_last_max:
  assumes "x \<in> set ps"
  shows "fst x \<le> fst (last (sort_slice fst ps))"
proof -
  have "sort_slice fst ps \<noteq> []" using assms by auto
  then have "sort_slice fst ps = butlast (sort_slice fst ps) @ [last (sort_slice fst ps)]" by simp
  then have "sorted (map fst (butlast (sort_slice fst ps)) @ [fst (last (sort_slice fst ps))])"
    using sorted_sort_slice [of fst ps] by (metis list.simps(8,9) map_append)
  moreover have "x \<in> set (butlast (sort_slice fst ps) @ [last (sort_slice fst ps)])"
    using assms \<open>sort_slice fst ps = _ @ _\<close> by (metis set_sort_slice)
  ultimately show ?thesis by (auto simp: sorted_append)
qed

lemma latest_head:
  assumes ok: "store_ok cd n dk ps" and wide: "digests_wide cd" and la: "latestLocked os dk = Inr la"
  shows "(ps = [] \<and> \<not> la_present la \<and> la_sequence la = 0 \<and> dk_pointer dk = None) \<or>
    (\<exists>c. (la_sequence la, c) \<in> set ps \<and> la_present la \<and> la_id la = ck_ID c \<and> la_digest la = ck_Digest c \<and>
       (\<forall>(s, _)\<in>set ps. unat s \<le> unat (la_sequence la) + 1) \<and>
       (dk_pointer dk = None \<longrightarrow> (\<forall>(s, _)\<in>set ps. s \<le> la_sequence la)))"
proof (cases "dk_pointer dk")
  case None
  note none = store_pointer(1) [OF ok wide None]
  then have os: "readable os" using la by (auto simp: latestLocked_def indexLocked_def readable_def)
  have entries: "indexLocked os dk = Inr (map entry_of (sort_slice fst ps))" by (rule store_index [OF ok wide os])
  show ?thesis
  proof (cases "ps = []")
    case True
    with la none entries None show ?thesis by (auto simp: latestLocked_def)
  next
    case False
    then obtain e es where es: "map entry_of (sort_slice fst ps) = e # es" by (cases "map entry_of (sort_slice fst ps)") auto
    obtain s c where last: "last (sort_slice fst ps) = (s, c)" by fastforce
    have "last (e # es) = index_entry c s" using es last False by (metis (mono_tags, lifting) case_prod_conv last_map sort_slice_eq_Nil)
    with la none entries es have "la_present la" "la_id la = ck_ID c" "la_digest la = ck_Digest c" "la_sequence la = s"
      by (auto simp: latestLocked_def Let_def index_entry_def)
    moreover have "(s, c) \<in> set ps" using last False by (metis last_in_set set_sort_slice sort_slice_eq_Nil)
    moreover have "\<forall>(s', _)\<in>set ps. s' \<le> s" using sorted_last_max last by fastforce
    moreover have "\<forall>(s', _)\<in>set ps. unat s' \<le> unat s + 1" using calculation(6) by (fastforce simp: word_le_nat_alt)
    ultimately show ?thesis by (intro disjI2 exI [of _ c]) simp
  qed
next
  case (Some f)
  then obtain c s ov where "pointerLocked dk = Inr (next_pointer c s ov)" "(s, c) \<in> set ps"
    "\<forall>(s', _)\<in>set ps. unat s' \<le> unat s + 1"
    using store_pointer(2) [OF ok wide] by blast
  with la Some show ?thesis by (auto simp: latestLocked_def next_pointer_def)
qed

lemma record_written:
  assumes ok: "store_ok cd n dk ps" and wide: "digests_wide cd" and la: "latestLocked os dk = Inr la"
    and valid: "Checkpoint_Validate cd c = None" and guard: "generation_guard la c = None"
    and fresh: "dk_checkpoints dk (ck_ID c) = None"
  shows "store_ok cd n (dk\<lparr>dk_checkpoints := (dk_checkpoints dk)(ck_ID c \<mapsto> Content c)\<rparr>) ps" (is "store_ok cd n ?dk ps")
    "c \<notin> snd ` set ps" "ck_ID c \<notin> (ck_ID \<circ> snd) ` set ps"
proof -
  have keep: "held dk p \<Longrightarrow> held ?dk p" for p using fresh by (auto simp: held_def)
  have parent: "\<exists>p. held dk p \<and> ck_ID p = ck_Parent c \<and> ck_Digest p = ck_ParentDigest c" if "ck_Parent c \<noteq> ''''"
  proof -
    from guard that have "la_present la" "ck_Parent c = la_id la" "ck_ParentDigest c = la_digest la"
      by (auto simp: generation_guard_def split: if_splits)
    with latest_head [OF ok wide la] obtain p where "(la_sequence la, p) \<in> set ps" "la_id la = ck_ID p"
      "la_digest la = ck_Digest p" by blast
    with ok \<open>ck_Parent c = _\<close> \<open>ck_ParentDigest c = _\<close> show ?thesis by (auto simp: store_ok_def lists_def)
  qed
  have "filed cd ?dk"
    unfolding filed_def
  proof (intro allI impI)
    fix id' f assume f: "dk_checkpoints ?dk id' = Some f"
    show "\<exists>c. f = Content c \<and> ck_ID c = id' \<and> Checkpoint_Validate cd c = None \<and>
        (ck_Parent c \<noteq> '''' \<longrightarrow> (\<exists>p. held ?dk p \<and> ck_ID p = ck_Parent c \<and> ck_Digest p = ck_ParentDigest c))"
    proof (cases "id' = ck_ID c")
      case True
      with f valid parent keep show ?thesis by (intro exI [of _ c]) auto
    next
      case False
      with f have "dk_checkpoints dk id' = Some f" by simp
      with ok keep show ?thesis unfolding store_ok_def filed_def by blast
    qed
  qed
  moreover have "lists ?dk ps" using ok keep by (auto simp: store_ok_def lists_def)
  ultimately show "store_ok cd n ?dk ps" using ok by (simp add: store_ok_def points_def)
  show "ck_ID c \<notin> (ck_ID \<circ> snd) ` set ps"
  proof
    assume "ck_ID c \<in> (ck_ID \<circ> snd) ` set ps"
    then obtain s p where "(s, p) \<in> set ps" "ck_ID p = ck_ID c" by auto
    with ok have "dk_checkpoints dk (ck_ID c) = Some (Content p)" by (auto simp: store_ok_def lists_def held_def)
    with fresh show False by simp
  qed
  then show "c \<notin> snd ` set ps" by auto
qed

lemma store_ok_mono: "store_ok cd n dk ps \<Longrightarrow> n \<le> m \<Longrightarrow> store_ok cd m dk ps"
  by (fastforce simp: store_ok_def)

lemma held_update [simp]:
  "held (dk\<lparr>dk_index := x\<rparr>) = held dk" "held (dk\<lparr>dk_pointer := y\<rparr>) = held dk"
  by (simp_all add: fun_eq_iff held_def)

lemma filed_update [simp]:
  "filed cd (dk\<lparr>dk_index := x\<rparr>) = filed cd dk" "filed cd (dk\<lparr>dk_pointer := y\<rparr>) = filed cd dk"
  by (simp_all add: filed_def)

lemma filter_entry_files:
  "filter (\<lambda>(name, _). name \<notin> D) (map entry_file ps) = map entry_file (filter (\<lambda>(s, _). s \<notin> D) ps)"
  by (induction ps) auto

lemma index_written:
  assumes ok: "store_ok cd n dk ps" and c: "held dk c" "ck_ID c \<notin> (ck_ID \<circ> snd) ` set ps"
    and s: "s \<notin> fst ` set ps" "s \<noteq> 0" "unat s \<le> n + 1"
    and ahead: "\<And>c' s' ov. dk_pointer dk = Some (Content (next_pointer c' s' ov)) \<Longrightarrow> unat s \<le> unat s' + 1"
  shows "store_ok cd (n + 1) (dk\<lparr>dk_index := dk_index dk @ [(s, Content (index_entry c s))]\<rparr>) (ps @ [(s, c)])"
    (is "store_ok cd _ ?dk ?ps")
proof -
  have "filed cd ?dk" using ok by (simp add: store_ok_def)
  moreover have "lists ?dk ?ps" using ok c s by (auto simp: store_ok_def lists_def)
  moreover have "points ?dk ?ps"
  proof (cases "dk_pointer dk")
    case (Some f)
    with ok obtain c' s' ov where "f = Content (next_pointer c' s' ov)" "(s', c') \<in> set ps"
      "\<forall>(x, _)\<in>set ps. unat x \<le> unat s' + 1"
      by (auto simp: store_ok_def points_def)
    with ahead [of c' s' ov] Some show ?thesis
      unfolding points_def by (auto intro!: exI [of _ c'] exI [of _ s'] exI [of _ ov])
  qed (simp add: points_def)
  moreover have "\<forall>(s, c)\<in>set ?ps. s \<noteq> 0 \<and> unat s \<le> n + 1"
    using store_ok_mono [OF ok, of "n + 1"] s by (auto simp: store_ok_def)
  ultimately show ?thesis by (simp add: store_ok_def)
qed

lemma evict_entries_filter:
  "\<exists>k. snd (evict_entries os es files) = filter (\<lambda>(name, _). name \<notin> ie_Sequence ` set (take k es)) files"
proof (induction es arbitrary: files)
  case (Cons e es)
  show ?case
  proof (cases "os (SysRemove (ie_Sequence e))")
    case True
    then show ?thesis by (intro exI [of _ 0]) simp
  next
    case False
    from Cons obtain k where "snd (evict_entries os es (filter (\<lambda>(name, _). name \<noteq> ie_Sequence e) files)) =
        filter (\<lambda>(name, _). name \<notin> ie_Sequence ` set (take k es)) (filter (\<lambda>(name, _). name \<noteq> ie_Sequence e) files)"
      by blast
    with False show ?thesis
      by (intro exI [of _ "Suc k"]) (auto simp: case_prod_beta intro: filter_cong)
  qed
qed simp

text \<open>An entry that is dropped has at least 64 newer ones.\<close>

lemma oldest_have_newer:
  fixes xs :: "'a::linorder list"
  assumes "sorted xs" "distinct xs" "x \<in> set (take (length xs - m) xs)"
  shows "m \<le> card {y \<in> set xs. x < y}"
proof -
  let ?k = "length xs - m"
  have split: "xs = take ?k xs @ drop ?k xs" by simp
  have lt: "x < y" if "y \<in> set (drop ?k xs)" for y
  proof -
    have "x \<le> y" using assms(1,3) that by (metis split sorted_append)
    moreover have "x \<noteq> y" using assms(2,3) that by (metis split disjoint_iff distinct_append)
    ultimately show ?thesis by simp
  qed
  have "m = card (set (drop ?k xs))"
    using assms(2,3) by (cases "m \<le> length xs") (auto simp: distinct_card)
  also have "\<dots> \<le> card {y \<in> set xs. x < y}"
    using lt by (intro card_mono) (auto dest: in_set_dropD)
  finally show ?thesis .
qed

lemma sorted_names:
  assumes "lists dk ps"
  shows "sorted (map fst (sort_slice fst ps))" "distinct (map fst (sort_slice fst ps))"
proof -
  have "mset (map fst (sort_slice fst ps)) = mset (map fst ps)" by simp
  then show "distinct (map fst (sort_slice fst ps))" using assms unfolding lists_def by (blast dest: mset_eq_imp_distinct_iff)
qed simp

lemma evicted:
  assumes ok: "store_ok cd n dk ps" and wide: "digests_wide cd" and e: "evictIndexLocked os dk = (res, dk')"
  shows "\<exists>drop. dk' = dk\<lparr>dk_index := map entry_file (filter (\<lambda>(s, _). s \<notin> drop) ps)\<rparr> \<and>
    (\<forall>s\<in>drop. MaxIndexEntries \<le> card {y \<in> fst ` set ps. s < y})"
proof (cases "\<not> readable os \<or> length ps \<le> MaxIndexEntries")
  case True
  with e have "dk' = dk"
    using store_index [OF ok wide, of os] by (auto simp: evictIndexLocked_def indexLocked_def readable_def split: if_splits)
  with ok show ?thesis by (intro exI [of _ "{}"]) (simp add: store_ok_def lists_def)
next
  case False
  let ?es = "take (length ps - MaxIndexEntries) (map entry_of (sort_slice fst ps))"
  from False have entries: "indexLocked os dk = Inr (map entry_of (sort_slice fst ps))"
    using store_index [OF ok wide] by blast
  with e False have dk': "dk' = dk\<lparr>dk_index := snd (evict_entries os ?es (dk_index dk))\<rparr>"
    by (auto simp: evictIndexLocked_def Let_def split: prod.splits if_splits)
  obtain k where "snd (evict_entries os ?es (dk_index dk)) =
      filter (\<lambda>(name, _). name \<notin> ie_Sequence ` set (take k ?es)) (dk_index dk)"
    using evict_entries_filter by blast
  also have "\<dots> = map entry_file (filter (\<lambda>(s, _). s \<notin> ie_Sequence ` set (take k ?es)) ps)"
    using ok filter_entry_files by (simp add: store_ok_def lists_def)
  finally have "dk' = dk\<lparr>dk_index := map entry_file (filter (\<lambda>(s, _). s \<notin> ie_Sequence ` set (take k ?es)) ps)\<rparr>"
    using dk' by simp
  moreover have "\<forall>s\<in>ie_Sequence ` set (take k ?es). MaxIndexEntries \<le> card {y \<in> fst ` set ps. s < y}"
  proof
    fix s assume "s \<in> ie_Sequence ` set (take k ?es)"
    then have "s \<in> ie_Sequence ` set ?es" using set_take_subset by fast
    also have "\<dots> = set (take (length ps - MaxIndexEntries) (map fst (sort_slice fst ps)))"
      by (simp flip: set_map take_map add: comp_def case_prod_beta index_entry_def)
    finally show "MaxIndexEntries \<le> card {y \<in> fst ` set ps. s < y}"
      using oldest_have_newer [of "map fst (sort_slice fst ps)" s MaxIndexEntries] sorted_names [of dk ps] ok
      by (simp add: store_ok_def)
  qed
  ultimately show ?thesis by blast
qed

lemma word_next:
  fixes s y :: "'a::len word"
  shows "s < y \<Longrightarrow> unat y \<le> unat s + 1 \<Longrightarrow> y = s + 1"
  by unat_arith

lemma evicted_ok:
  assumes ok: "store_ok cd n dk ps" and wide: "digests_wide cd" and e: "evictIndexLocked os dk = (res, dk')"
  shows "\<exists>ps'. store_ok cd n dk' ps' \<and> dk_pointer dk' = dk_pointer dk \<and> set ps' \<subseteq> set ps \<and>
    (\<forall>(s, c)\<in>set ps. card {y \<in> fst ` set ps. s < y} < MaxIndexEntries \<longrightarrow> (s, c) \<in> set ps')"
proof -
  obtain drop where dk': "dk' = dk\<lparr>dk_index := map entry_file (filter (\<lambda>(s, _). s \<notin> drop) ps)\<rparr>"
    and drop: "\<forall>s\<in>drop. MaxIndexEntries \<le> card {y \<in> fst ` set ps. s < y}"
    using evicted [OF ok wide e] by blast
  let ?ps = "filter (\<lambda>(s, _). s \<notin> drop) ps"
  have kept: "(s, c) \<in> set ?ps" if "(s, c) \<in> set ps" "card {y \<in> fst ` set ps. s < y} < MaxIndexEntries" for s c
    using that drop by force
  have "points dk' ?ps"
  proof (cases "dk_pointer dk")
    case (Some f)
    with ok obtain c s ov where p: "f = Content (next_pointer c s ov)" "(s, c) \<in> set ps"
      "\<forall>(x, _)\<in>set ps. unat x \<le> unat s + 1"
      by (auto simp: store_ok_def points_def)
    have "{y \<in> fst ` set ps. s < y} \<subseteq> {s + 1}" using p(3) word_next by fastforce
    then have "card {y \<in> fst ` set ps. s < y} \<le> 1" using card_mono [of "{s + 1}"] by fastforce
    with kept [OF p(2)] have "(s, c) \<in> set ?ps" by (simp add: MaxIndexEntries_def)
    with p Some show ?thesis
      unfolding points_def dk' by (auto intro!: exI [of _ c] exI [of _ s] exI [of _ ov])
  qed (simp add: points_def dk')
  moreover have "lists dk' ?ps" using ok by (auto simp: store_ok_def lists_def dk' distinct_map_filter)
  ultimately have "store_ok cd n dk' ?ps" using ok by (auto simp: store_ok_def dk')
  then show ?thesis using kept dk' by (intro exI [of _ ?ps]) auto
qed

lemma pointer_written:
  assumes ok: "store_ok cd n dk ps" and mem: "(s, c) \<in> set ps" and newest: "\<forall>(s', _)\<in>set ps. s' \<le> s"
  shows "store_ok cd n (dk\<lparr>dk_pointer := Some (Content (next_pointer c s ov))\<rparr>) ps"
proof -
  have "\<forall>(s', _)\<in>set ps. unat s' \<le> unat s + 1" using newest by (fastforce simp: word_le_nat_alt)
  with mem have "points (dk\<lparr>dk_pointer := Some (Content (next_pointer c s ov))\<rparr>) ps"
    unfolding points_def by (auto intro!: exI [of _ c] exI [of _ s] exI [of _ ov])
  then show ?thesis using ok by (simp add: store_ok_def lists_def)
qed

lemma last_sorted_new:
  assumes "distinct (map fst ps)" "(s, c) \<in> set ps" "\<forall>(s', _)\<in>set ps. s' \<le> s"
  shows "last (sort_slice fst ps) = (s, c)"
proof -
  obtain s' c' where last: "last (sort_slice fst ps) = (s', c')" by fastforce
  have "sort_slice fst ps \<noteq> []" using assms(2) by auto
  then have mem: "(s', c') \<in> set ps" using last by (metis last_in_set set_sort_slice)
  with assms(3) sorted_last_max [OF assms(2)] last have "s' = s" by fastforce
  with mem assms(1,2) last show ?thesis by (simp add: eq_key_imp_eq_value)
qed

lemma append_pointer_shape:
  "append_pointer cd so os dk c s ov = (err, dk') \<Longrightarrow>
     dk' = dk\<lparr>dk_pointer := Some (Content (next_pointer c s ov))\<rparr> \<or> err \<noteq> None \<and> dk' = dk"
  by (auto simp: append_pointer_def Let_def dest: writeRecord_ok split: option.splits prod.splits if_splits)

text \<open>The next index entry and, after it, what an eviction keeps.\<close>

definition listed :: "Disk \<Rightarrow> Checkpoint \<Rightarrow> u64 \<Rightarrow> Disk" where
  "listed dk c s = dk\<lparr>dk_index := dk_index dk @ [(s, Content (index_entry c s))]\<rparr>"

lemma listed_pointer [simp]: "dk_pointer (listed dk c s) = dk_pointer dk"
  by (simp add: listed_def)

lemma pointer_sequence:
  assumes ok: "store_ok cd n dk ps" and wide: "digests_wide cd" and la: "latestLocked os dk = Inr la"
    and p: "dk_pointer dk = Some (Content (next_pointer c0 s0 ov))"
  shows "s0 = la_sequence la"
  using store_pointer(2) [OF ok wide] p la by (auto simp: latestLocked_def next_pointer_def)

lemma index_next:
  assumes ok: "store_ok cd n dk ps" and wide: "digests_wide cd" and la: "latestLocked os dk = Inr la"
    and c: "held dk c" "ck_ID c \<notin> (ck_ID \<circ> snd) ` set ps" and n: "n + 1 < 2 ^ 64"
    and fresh: "la_sequence la + 1 \<notin> fst ` set ps"
  shows "store_ok cd (n + 1) (listed dk c (la_sequence la + 1)) (ps @ [(la_sequence la + 1, c)])"
    "\<forall>(s, _)\<in>set (ps @ [(la_sequence la + 1, c)]). unat s \<le> unat (la_sequence la) + 1 \<and> s \<le> la_sequence la + 1"
proof -
  have head: "unat (la_sequence la) \<le> n" "\<forall>(s', _)\<in>set ps. unat s' \<le> unat (la_sequence la) + 1"
    using latest_head [OF ok wide la] ok by (auto simp: store_ok_def)
  have s: "unat (la_sequence la + 1) = unat (la_sequence la) + 1" using head(1) n by (simp add: unat_word_ariths)
  show "store_ok cd (n + 1) (listed dk c (la_sequence la + 1)) (ps @ [(la_sequence la + 1, c)])"
    unfolding listed_def
  proof (rule index_written [OF ok c fresh])
    show "la_sequence la + 1 \<noteq> 0" using s by (metis add_is_0 one_neq_zero unat_0)
    show "unat (la_sequence la + 1) \<le> n + 1" using s head(1) by simp
    show "unat (la_sequence la + 1) \<le> unat s' + 1" if "dk_pointer dk = Some (Content (next_pointer c' s' ov))" for c' s' ov
      using pointer_sequence [OF ok wide la that] s by simp
  qed
  show "\<forall>(s, _)\<in>set (ps @ [(la_sequence la + 1, c)]). unat s \<le> unat (la_sequence la) + 1 \<and> s \<le> la_sequence la + 1"
    using head(2) s by (auto simp: word_le_nat_alt)
qed

definition follows :: "codec \<Rightarrow> nat \<Rightarrow> Disk \<Rightarrow> (u64 \<times> Checkpoint) list \<Rightarrow> Checkpoint \<Rightarrow> u64 \<Rightarrow>
    Disk \<Rightarrow> (u64 \<times> Checkpoint) list \<Rightarrow> bool" where
  "follows cd n dk ps c s dk' ps' \<longleftrightarrow> store_ok cd n dk' ps' \<and> (s, c) \<in> set ps' \<and> (\<forall>(s', _)\<in>set ps'. s' \<le> s) \<and>
     dk_pointer dk' = dk_pointer dk \<and>
     (\<forall>c0 s0 ov. dk_pointer dk = Some (Content (next_pointer c0 s0 ov)) \<longrightarrow> (s0, c0) \<in> set ps \<longrightarrow> (s0, c0) \<in> set ps')"

lemma evict_follows:
  assumes ok: "store_ok cd n dk ps" and wide: "digests_wide cd" and la: "latestLocked os dk = Inr la"
    and ok1: "store_ok cd m (listed dk c s) (ps @ [(s, c)])"
    and newest: "\<forall>(s', _)\<in>set (ps @ [(s, c)]). unat s' \<le> unat (la_sequence la) + 1 \<and> s' \<le> s"
    and ev: "evictIndexLocked os (listed dk c s) = (res, dk2)"
  shows "\<exists>ps'. follows cd m dk ps c s dk2 ps'"
proof -
  let ?ps = "ps @ [(s, c)]"
  obtain ps' where ps': "store_ok cd m dk2 ps'" "dk_pointer dk2 = dk_pointer dk" "set ps' \<subseteq> set ?ps"
    and keep: "\<forall>(s, c)\<in>set ?ps. card {y \<in> fst ` set ?ps. s < y} < MaxIndexEntries \<longrightarrow> (s, c) \<in> set ps'"
    using evicted_ok [OF ok1 wide ev] by auto
  have "{y \<in> fst ` set ?ps. s < y} = {}" using newest by fastforce
  then have "card {y \<in> fst ` set ?ps. s < y} < MaxIndexEntries" by (simp only: card.empty MaxIndexEntries_def)
  with keep have mem: "(s, c) \<in> set ps'" by auto
  have old: "(s0, c0) \<in> set ps'"
    if p: "dk_pointer dk = Some (Content (next_pointer c0 s0 ov))" and m: "(s0, c0) \<in> set ps" for c0 s0 ov
  proof -
    have "{y \<in> fst ` set ?ps. s0 < y} \<subseteq> {s0 + 1}"
      using newest word_next [of s0] pointer_sequence [OF ok wide la p] by fastforce
    from card_mono [OF _ this] have "card {y \<in> fst ` set ?ps. s0 < y} < MaxIndexEntries"
      by (simp only: MaxIndexEntries_def card.insert) simp
    with keep m show ?thesis by auto
  qed
  from ps' mem newest old show ?thesis unfolding follows_def by (intro exI [of _ ps']) blast
qed

lemma append_index_ok:
  assumes ok: "store_ok cd n dk ps" and wide: "digests_wide cd" and la: "latestLocked os dk = Inr la"
    and c: "held dk c" "ck_ID c \<notin> (ck_ID \<circ> snd) ` set ps" and n: "n + 1 < 2 ^ 64"
    and a: "append_index cd so os dk c la = (err, dk')"
  shows "err \<noteq> None \<and> dk' = dk \<or>
    (\<exists>dk2 ps' s ov. follows cd (n + 1) dk ps c s dk2 ps' \<and>
       (dk' = dk2\<lparr>dk_pointer := Some (Content (next_pointer c s ov))\<rparr> \<or> err \<noteq> None \<and> dk' = dk2))"
proof -
  let ?s = "la_sequence la + 1"
  obtain werr published where w: "writeRecord so os OpIndex (?s \<in> fst ` set (dk_index dk)) False = (werr, published)"
    by fastforce
  show ?thesis
  proof (cases "published \<and> cd_marshal cd (json_IndexEntry (index_entry c ?s)) \<noteq> None")
    case False
    then have "werr \<noteq> None \<or> cd_marshal cd (json_IndexEntry (index_entry c ?s)) = None"
      using w by (cases werr) (auto dest: writeRecord_ok)
    with False a w show ?thesis by (auto simp: append_index_def Let_def split: option.splits)
  next
    case True
    then have "?s \<notin> fst ` set (dk_index dk)" using w writeRecord_held by (metis (full_types))
    then have fresh: "?s \<notin> fst ` set ps" using ok by (force simp: store_ok_def lists_def)
    note next' = index_next [OF ok wide la c n fresh]
    show ?thesis
    proof (cases werr)
      case (Some e)
      with a w True have "dk' = listed dk c ?s" "err \<noteq> None"
        by (auto simp: append_index_def Let_def listed_def split: option.splits)
      with next' have "follows cd (n + 1) dk ps c ?s dk' (ps @ [(?s, c)])" by (auto simp: follows_def)
      with \<open>err \<noteq> None\<close> show ?thesis by blast
    next
      case None
      obtain res dk2 where ev: "evictIndexLocked os (listed dk c ?s) = (res, dk2)" by fastforce
      obtain ps' where f: "follows cd (n + 1) dk ps c ?s dk2 ps'" using evict_follows [OF ok wide la next' ev] by blast
      have "dk' = dk2 \<and> err \<noteq> None \<or> (\<exists>ov. append_pointer cd so os dk2 c ?s ov = (err, dk'))"
        using a w True None ev by (auto simp: append_index_def Let_def listed_def split: option.splits sum.splits)
      with f append_pointer_shape show ?thesis by blast
    qed
  qed
qed

section \<open>Interrupted appends\<close>

definition recorded :: "Disk \<Rightarrow> Checkpoint \<Rightarrow> Disk" where
  "recorded dk c = dk\<lparr>dk_checkpoints := (dk_checkpoints dk)(ck_ID c \<mapsto> Content c)\<rparr>"

lemma recorded_simps [simp]:
  "dk_pointer (recorded dk c) = dk_pointer dk" "pointerLocked (recorded dk c) = pointerLocked dk"
  "indexLocked os (recorded dk c) = indexLocked os dk" "held (recorded dk c) c"
  by (simp_all add: recorded_def pointerLocked_def indexLocked_def held_def)

lemma recorded_latest [simp]: "latestLocked os (recorded dk c) = latestLocked os dk"
  unfolding latestLocked_def recorded_simps ..

lemma append_shape:
  assumes "Store_Append cd so os dk c = (err, dk')"
  shows "err \<noteq> None \<and> dk' = dk \<or> (\<exists>la. Checkpoint_Validate cd c = None \<and> latestLocked os dk = Inr la \<and>
    generation_guard la c = None \<and> dk_checkpoints dk (ck_ID c) = None \<and>
    (err \<noteq> None \<and> dk' = recorded dk c \<or> append_index cd so os (recorded dk c) c la = (err, dk')))"
proof -
  obtain werr published where
    w: "writeRecord so os OpCheckpoint (dk_checkpoints dk (ck_ID c) \<noteq> None) False = (werr, published)" by fastforce
  have held: "dk_checkpoints dk (ck_ID c) = None" if published using that w writeRecord_held by (metis (full_types))
  have ok: "published" if "werr = None" using that w writeRecord_ok by metis
  show ?thesis
    using assms w held ok
    by (auto simp: Store_Append_def append_record_def recorded_def Let_def
        split: option.splits sum.splits if_splits)
qed

lemma resumed_same:
  assumes ok: "store_ok cd n dk ps" "store_ok cd m dk' ps'" and wide: "digests_wide cd" and os: "readable os"
    and p: "dk_pointer dk' = dk_pointer dk" and "ps' = ps \<or> dk_pointer dk \<noteq> None"
    and kept: "\<And>c0 s0 ov. dk_pointer dk = Some (Content (next_pointer c0 s0 ov)) \<Longrightarrow> (s0, c0) \<in> set ps \<Longrightarrow> (s0, c0) \<in> set ps'"
  shows "resumed cd so os dk' = resumed cd so os dk"
proof (cases "dk_pointer dk")
  case None
  with assms have "ps' = ps" by simp
  with None p show ?thesis using resumed_index [OF ok(1) wide os] resumed_index [OF ok(2) wide os] by simp
next
  case (Some f)
  then obtain c s ov where s: "dk_pointer dk = Some (Content (next_pointer c s ov))" "(s, c) \<in> set ps"
    using store_pointer(2) [OF ok(1) wide] by blast
  from resumed_pointer [OF ok(1) wide os s] resumed_pointer [OF ok(2) wide os _ kept [OF s]] p s show ?thesis by simp
qed

lemma follows_pointer:
  "follows cd m dk ps c s dk2 ps' \<Longrightarrow> store_ok cd m (dk2\<lparr>dk_pointer := Some (Content (next_pointer c s ov))\<rparr>) ps'"
  unfolding follows_def by (blast intro: pointer_written)

lemma follows_resumed:
  assumes ok: "store_ok cd n dk ps" and wide: "digests_wide cd" and os: "readable os"
    and f: "follows cd m dk ps c s dk2 ps'"
  shows "resumed cd so os dk2 = Some c \<or> resumed cd so os dk2 = resumed cd so os dk"
    "resumed cd so os (dk2\<lparr>dk_pointer := Some (Content (next_pointer c s ov))\<rparr>) = Some c"
proof -
  have ok2: "store_ok cd m dk2 ps'" and mem: "(s, c) \<in> set ps'" and newest: "\<forall>(s', _)\<in>set ps'. s' \<le> s"
    and p: "dk_pointer dk2 = dk_pointer dk"
    and kept: "\<And>c0 s0 ov. dk_pointer dk = Some (Content (next_pointer c0 s0 ov)) \<Longrightarrow> (s0, c0) \<in> set ps \<Longrightarrow> (s0, c0) \<in> set ps'"
    using f unfolding follows_def by blast+
  note ok3 = follows_pointer [OF f]
  show "resumed cd so os (dk2\<lparr>dk_pointer := Some (Content (next_pointer c s ov))\<rparr>) = Some c"
    by (rule resumed_pointer [OF ok3 wide os _ mem]) simp
  show "resumed cd so os dk2 = Some c \<or> resumed cd so os dk2 = resumed cd so os dk"
  proof (cases "dk_pointer dk")
    case None
    have "distinct (map fst ps')" using ok2 by (simp add: store_ok_def lists_def)
    from last_sorted_new [OF this mem newest] resumed_index [OF ok2 wide os] None p mem show ?thesis by auto
  next
    case (Some f)
    then show ?thesis using resumed_same [OF ok ok2 wide os p _ kept] by simp
  qed
qed

lemma append_atomic:
  assumes ok: "store_ok cd n dk ps" and wide: "digests_wide cd" and n: "n + 1 < 2 ^ 64"
    and a: "Store_Append cd so os dk c = (err, dk')"
  shows "\<exists>ps'. store_ok cd (n + 1) dk' ps'"
    "readable os' \<Longrightarrow> resumed cd so' os' dk' = Some c \<or>
       err \<noteq> None \<and> resumed cd so' os' dk' = resumed cd so' os' dk"
proof -
  have "(\<exists>ps'. store_ok cd (n + 1) dk' ps') \<and> (readable os' \<longrightarrow> resumed cd so' os' dk' = Some c \<or>
       err \<noteq> None \<and> resumed cd so' os' dk' = resumed cd so' os' dk)"
    using append_shape [OF a]
  proof (elim disjE exE conjE)
    assume "err \<noteq> None" "dk' = dk"
    moreover have "store_ok cd (n + 1) dk ps" by (rule store_ok_mono [OF ok]) simp
    ultimately show ?thesis by blast
  next
    fix la assume pre: "Checkpoint_Validate cd c = None" "latestLocked os dk = Inr la" "generation_guard la c = None"
      "dk_checkpoints dk (ck_ID c) = None" and err: "err \<noteq> None" "dk' = recorded dk c"
    note rec = record_written(1) [OF ok wide pre(2,1,3,4), folded recorded_def]
    have "store_ok cd (n + 1) dk' ps" unfolding err by (rule store_ok_mono [OF rec]) simp
    with resumed_same [OF ok rec wide] err show ?thesis by auto
  next
    fix la assume pre: "Checkpoint_Validate cd c = None" "latestLocked os dk = Inr la" "generation_guard la c = None"
      "dk_checkpoints dk (ck_ID c) = None" and i: "append_index cd so os (recorded dk c) c la = (err, dk')"
    note rec = record_written [OF ok wide pre(2,1,3,4), folded recorded_def]
    have same: "readable os' \<Longrightarrow> resumed cd so' os' (recorded dk c) = resumed cd so' os' dk"
      using resumed_same [OF ok rec(1) wide] by auto
    have "latestLocked os (recorded dk c) = Inr la" "held (recorded dk c) c" using pre(2) by simp_all
    from append_index_ok [OF rec(1) wide this rec(3) n i] show ?thesis
    proof (elim disjE exE conjE)
      assume "err \<noteq> None" "dk' = recorded dk c"
      moreover have "store_ok cd (n + 1) (recorded dk c) ps" by (rule store_ok_mono [OF rec(1)]) simp
      ultimately show ?thesis using same by blast
    next
      fix dk2 ps' s ov assume f: "follows cd (n + 1) (recorded dk c) ps c s dk2 ps'"
        "dk' = dk2\<lparr>dk_pointer := Some (Content (next_pointer c s ov))\<rparr>"
      then show ?thesis using follows_resumed(2) [OF rec(1) wide _ f(1)] follows_pointer [OF f(1)] by blast
    next
      fix dk2 ps' s ov assume f: "follows cd (n + 1) (recorded dk c) ps c s dk2 ps'" "err \<noteq> None" "dk' = dk2"
      moreover have "store_ok cd (n + 1) dk2 ps'" using f(1) by (simp add: follows_def)
      ultimately show ?thesis using follows_resumed(1) [OF rec(1) wide _ f(1)] same by metis
    qed
  qed
  then show "\<exists>ps'. store_ok cd (n + 1) dk' ps'"
    "readable os' \<Longrightarrow> resumed cd so' os' dk' = Some c \<or>
       err \<noteq> None \<and> resumed cd so' os' dk' = resumed cd so' os' dk" by blast+
qed

text \<open>A lineage written by successive processes, each append under its own faults and failures.\<close>

definition empty_disk :: Disk where
  "empty_disk = \<lparr>dk_checkpoints = (\<lambda>_. None), dk_index = [], dk_pointer = None\<rparr>"

fun appends :: "codec \<Rightarrow> Disk \<Rightarrow> (Store \<times> os \<times> Checkpoint) list \<Rightarrow> Disk" where
  "appends cd dk [] = dk"
| "appends cd dk ((so, os, c) # ops) = appends cd (snd (Store_Append cd so os dk c)) ops"

lemma appends_ok:
  assumes "store_ok cd n dk ps" "digests_wide cd" "n + length ops < 2 ^ 64"
  shows "\<exists>ps'. store_ok cd (n + length ops) (appends cd dk ops) ps'"
  using assms
proof (induction cd dk ops arbitrary: n ps rule: appends.induct)
  case (2 cd dk so os c ops)
  obtain err dk' where a: "Store_Append cd so os dk c = (err, dk')" by fastforce
  from append_atomic(1) [OF 2(2,3) _ a] 2(4) obtain ps' where "store_ok cd (n + 1) dk' ps'" by auto
  from 2(1) [OF _ 2(3), of "n + 1" ps'] this 2(4) a show ?case by simp
qed auto

lemma empty_ok: "store_ok cd 0 empty_disk []"
  by (simp add: store_ok_def empty_disk_def filed_def lists_def points_def)

text \<open>
  C35: An append is atomic under crashes. Take any store reached from an empty directory by
  appends, each cut short by any injected fault or failing system call, and one more append that
  is itself cut short anywhere. The next process then resumes the appended checkpoint, or the
  append returned an error and it resumes exactly what it would have resumed before; so a
  checkpoint reported as stored is the one that is resumed. The hypotheses are that a SHA-256
  digest has 64 characters and that fewer than \<open>2 ^ 64 - 1\<close> appends were made.
\<close>

theorem append_crash_atomic:
  assumes "digests_wide cd" "length ops + 1 < 2 ^ 64" "dk = appends cd empty_disk ops"
    and "Store_Append cd so os dk c = (err, dk')" "readable os'"
  shows "resumed cd so' os' dk' = Some c \<or> err \<noteq> None \<and> resumed cd so' os' dk' = resumed cd so' os' dk"
proof -
  obtain ps where "store_ok cd (length ops) dk ps"
    using appends_ok [OF empty_ok assms(1), of ops] assms(2,3) by auto
  from append_atomic(2) [OF this assms(1,2,4,5)] show ?thesis .
qed

theorem append_crash_atomic_witness:
  "resumed plain_codec sample_store calm (snd (Store_Append plain_codec sample_store calm empty_disk sample_checkpoint)) =
     Some sample_checkpoint"
proof -
  obtain err dk' where a: "Store_Append plain_codec sample_store calm empty_disk sample_checkpoint = (err, dk')" by fastforce
  have "err = None"
    using a sample_checkpoint_valid by (simp add: Store_Append_def latestLocked_def pointerLocked_def readJSON_def empty_disk_def
        indexLocked_def calm_def generation_guard_def append_record_def append_index_def append_pointer_def
        writeRecord_def fires_def sample_store_def evictIndexLocked_def sample_links plain_codec_def
        MaxCheckpointBytes_def Let_def entry_formed_def index_entry_def MaxIndexEntries_def sort_slice_def)
  moreover have "digests_wide plain_codec" "readable calm"
    by (simp_all add: digests_wide_def plain_codec_def readable_def calm_def)
  ultimately show ?thesis using a
      append_crash_atomic [of plain_codec "[]" empty_disk sample_store calm sample_checkpoint err dk' calm sample_store]
    by simp
qed

section \<open>The append that can no longer succeed\<close>

text \<open>
  A crash between the index entry and the pointer leaves an entry the pointer does not know.
  The next append computes that entry's sequence again, and the write that refuses to replace
  a file fails; the pointer never moves again.
\<close>

definition orphaned :: "Disk \<Rightarrow> bool" where
  "orphaned dk \<longleftrightarrow> (\<exists>p. pointerLocked dk = Inr p \<and> pt_Sequence p + 1 \<in> fst ` set (dk_index dk))"

lemma orphaned_append:
  assumes "orphaned dk" "Store_Append cd so os dk c = (err, dk')"
  shows "err \<noteq> None \<and> dk_pointer dk' = dk_pointer dk \<and> orphaned dk'"
proof -
  obtain p where p: "pointerLocked dk = Inr p" "pt_Sequence p + 1 \<in> fst ` set (dk_index dk)"
    using assms(1) unfolding orphaned_def by blast
  then have rec: "orphaned (recorded dk c)" by (auto simp: orphaned_def recorded_def pointerLocked_def)
  from append_shape [OF assms(2)] show ?thesis
  proof (elim disjE exE conjE)
    fix la assume la: "latestLocked os dk = Inr la" and i: "append_index cd so os (recorded dk c) c la = (err, dk')"
    have "la_sequence la = pt_Sequence p" using la p(1) by (auto simp: latestLocked_def)
    then have "la_sequence la + 1 \<in> fst ` set (dk_index (recorded dk c))" using p(2) by (simp add: recorded_def)
    then obtain werr published where
      "writeRecord so os OpIndex (la_sequence la + 1 \<in> fst ` set (dk_index (recorded dk c))) False = (werr, published)"
      "werr \<noteq> None" "\<not> published"
      by (metis (full_types) surj_pair writeRecord_held)
    with i have "err \<noteq> None" "dk' = recorded dk c" by (auto simp: append_index_def Let_def split: option.splits)
    with rec show ?thesis by simp
  qed (use assms(1) rec in auto)
qed

lemma crash_orphans:
  assumes "Store_Append cd \<lparr>so_depth = d, so_faults = []\<rparr> calm dk c = (None, dk1)" "pointerLocked dk = Inr p"
    and "Store_Append cd \<lparr>so_depth = d, so_faults = [(OpIndex, AfterRename)]\<rparr> calm dk c = (err, dk')"
  shows "dk_pointer dk' = dk_pointer dk \<and> orphaned dk'"
  using assms
  by (auto simp: Store_Append_def append_record_def append_index_def latestLocked_def orphaned_def pointerLocked_def
      writeRecord_def fires_def calm_def Let_def split: option.splits sum.splits if_splits)

text \<open>
  An append that would have succeeded, killed between the rename of its index entry and the
  pointer: from then on every append fails and the pointer stays where it was.
\<close>

theorem index_crash_wedges:
  assumes "Store_Append cd \<lparr>so_depth = d, so_faults = []\<rparr> calm dk c = (None, dk1)" "pointerLocked dk = Inr p"
    and "Store_Append cd \<lparr>so_depth = d, so_faults = [(OpIndex, AfterRename)]\<rparr> calm dk c = (err, dk')"
  shows "dk_pointer (appends cd dk' ops) = dk_pointer dk \<and> fst (Store_Append cd so os (appends cd dk' ops) c') \<noteq> None"
proof -
  have "orphaned dk \<Longrightarrow> orphaned (appends cd dk ops) \<and> dk_pointer (appends cd dk ops) = dk_pointer dk" for dk
  proof (induction cd dk ops rule: appends.induct)
    case (2 cd dk so os c ops)
    then show ?case using orphaned_append [of dk cd so os c] by (metis appends.simps(2) prod.collapse)
  qed simp
  with crash_orphans [OF assms] orphaned_append show ?thesis by (metis prod.collapse)
qed

text \<open>
  A process that resumed an older checkpoint than the pointer names continues from it, and the
  guard refuses every checkpoint that does.
\<close>

theorem recovered_ancestor_refused:
  assumes p: "pointerLocked dk = Inr p" and parent: "checkpoint_identifier (ck_ID c0)" "ck_ID c0 \<noteq> pt_ID p"
    and c: "SealFrom cd (Some c0) broken id' out from wake = Inr c"
  shows "\<exists>why. Store_Append cd so os dk c = (Some (ErrGenerationGuard why), dk)"
proof -
  note SealFrom_child [OF c]
  moreover have "ck_ID c0 \<noteq> ''''" using parent(1) by (auto simp: checkpoint_identifier_def)
  ultimately show ?thesis
    using p parent(2) by (auto simp: Store_Append_def latestLocked_def generation_guard_def)
qed

end
