(* ===== verification/Journal.thy ===== *)
theory Journal
  imports Reduce
begin

text \<open>
  The connectivity fact store of one privilege domain
  (\<^verbatim>\<open>internal/connectivityjournal/journal.go\<close>): appending a folded event and reading the
  events back, whole, from a watermark on, or only the newest.

  The spool below it (\<^verbatim>\<open>internal/spool\<close>) and the event envelope around a record
  (\<^verbatim>\<open>internal/event\<close>) are not modelled. What the spool holds is the list of its entries,
  oldest first, each as reading it answers; what an append makes of that list is the argument
  \<open>sp\<close>.
\<close>

record Record =
  jr_HostSequence :: u64
  jr_FoldPosition :: u64
  jr_Outcome :: outcome
  jr_Role :: source_role
  jr_Digest :: string
  jr_Fact :: Fact

text \<open>
  One entry of the spool: a connectivity record, an event of another class, one that does not
  decode, one evicted between the listing and the read, or one that cannot be read.
\<close>

datatype spooled = Ours Record | Foreign | Undecodable | Evicted | Unreadable_entry

datatype journal_error =
    ErrJournalDomain domain domain
  | ErrJournalOwnership ownership_error
  | ErrJournalFact fact_error
  | ErrCorruptRecord string
  | ErrSequenceReused u64
  | ErrSpool string

record Journal =
  jo_domain :: domain
  jo_listable :: bool
  jo_entries :: "spooled list"
  jo_mirror :: "(Record \<Rightarrow> bool) option"
  jo_mirrorFailures :: u64

type_synonym spool = "spooled list \<Rightarrow> Record \<Rightarrow> journal_error + spooled list"

text \<open>The copy to the sink never fails the append; \<open>jo_mirror\<close> says whether the sink takes a record.\<close>

definition mirrorRecord :: "Journal \<Rightarrow> Record \<Rightarrow> Journal" where
  "mirrorRecord j r =
     (case jo_mirror j of
        None \<Rightarrow> j
      | Some takes \<Rightarrow> if takes r then j else j\<lparr>jo_mirrorFailures := jo_mirrorFailures j + 1\<rparr>)"

definition Journal_Append :: "codec \<Rightarrow> spool \<Rightarrow> Journal \<Rightarrow> Fact \<Rightarrow> u64 \<Rightarrow> u64 \<Rightarrow> outcome \<Rightarrow> source_role \<Rightarrow>
    journal_error option \<times> Journal" where
  "Journal_Append cd sp j f hostSequence foldPosition outcome role =
     (if f_Domain f \<noteq> jo_domain j then (Some (ErrJournalDomain (f_Domain f) (jo_domain j)), j)
      else (case ClassifyConnectivityFact f (jo_domain j) of
              Inl err \<Rightarrow> (Some (ErrJournalOwnership err), j)
            | Inr _ \<Rightarrow>
                if foldPosition = 0 \<or> outcome = '''' then (Some (ErrCorruptRecord ''fold position''), j)
                else (case Encode cd f of
                        Inl err \<Rightarrow> (Some (ErrJournalFact err), j)
                      | Inr encoded \<Rightarrow>
                          (let r = \<lparr>jr_HostSequence = hostSequence, jr_FoldPosition = foldPosition,
                                    jr_Outcome = outcome, jr_Role = role, jr_Digest = SHA256Hex cd encoded,
                                    jr_Fact = f\<rparr>
                           in case sp (jo_entries j) r of
                                Inl err \<Rightarrow> (Some err, j)
                              | Inr entries \<Rightarrow> (None, mirrorRecord (j\<lparr>jo_entries := entries\<rparr>) r)))))"

text \<open>\<^verbatim>\<open>Records\<close>: the loop keeps the digest seen at each fold position.\<close>

fun read_records :: "(u64 \<times> string) list \<Rightarrow> spooled list \<Rightarrow> journal_error + Record list" where
  "read_records seen [] = Inr []"
| "read_records seen (e # es) =
     (case e of
        Unreadable_entry \<Rightarrow> Inl (ErrSpool ''entries'')
      | Evicted \<Rightarrow> read_records seen es
      | Undecodable \<Rightarrow> Inl (ErrCorruptRecord ''decode'')
      | Foreign \<Rightarrow> read_records seen es
      | Ours r \<Rightarrow>
          if (case map_of seen (jr_FoldPosition r) of None \<Rightarrow> False | Some d \<Rightarrow> d \<noteq> jr_Digest r)
          then Inl (ErrSequenceReused (jr_FoldPosition r))
          else (case read_records (AList.update (jr_FoldPosition r) (jr_Digest r) seen) es of
                  Inl err \<Rightarrow> Inl err | Inr rs \<Rightarrow> Inr (r # rs)))"

definition Journal_Records :: "Journal \<Rightarrow> journal_error + Record list" where
  "Journal_Records j =
     (if \<not> jo_listable j \<or> Unreadable_entry \<in> set (jo_entries j) then Inl (ErrSpool ''entries'')
      else (case read_records [] (jo_entries j) of
              Inl err \<Rightarrow> Inl err | Inr rs \<Rightarrow> Inr (sort_slice jr_FoldPosition rs)))"

text \<open>\<^verbatim>\<open>tailAfter\<close> walks the entries from the newest back; \<open>read_tail\<close> is given them in that order.\<close>

fun read_tail :: "u64 \<Rightarrow> spooled list \<Rightarrow> Record list \<Rightarrow> journal_error + Record list" where
  "read_tail watermark [] out = Inr out"
| "read_tail watermark (e # es) out =
     (case e of
        Unreadable_entry \<Rightarrow> Inl (ErrSpool ''entry'')
      | Evicted \<Rightarrow> read_tail watermark es out
      | Undecodable \<Rightarrow> Inl (ErrCorruptRecord ''decode'')
      | Foreign \<Rightarrow> read_tail watermark es out
      | Ours r \<Rightarrow> if jr_FoldPosition r \<le> watermark then Inr out else read_tail watermark es (r # out))"

definition tailAfter :: "Journal \<Rightarrow> u64 \<Rightarrow> journal_error + Record list" where
  "tailAfter j watermark =
     (if \<not> jo_listable j then Inl (ErrSpool ''sequences'') else read_tail watermark (rev (jo_entries j)) [])"

fun consecutive :: "u64 \<Rightarrow> Record list \<Rightarrow> bool" where
  "consecutive expected [] = True"
| "consecutive expected (r # rs) = (jr_FoldPosition r = expected \<and> consecutive (expected + 1) rs)"

definition RecordsAfter :: "Journal \<Rightarrow> u64 \<Rightarrow> journal_error + Record list \<times> bool" where
  "RecordsAfter j watermark =
     (case tailAfter j watermark of Inl err \<Rightarrow> Inl err | Inr out \<Rightarrow> Inr (out, consecutive (watermark + 1) out))"

fun newest_record :: "spooled list \<Rightarrow> journal_error + Record option" where
  "newest_record [] = Inr None"
| "newest_record (e # es) =
     (case e of
        Unreadable_entry \<Rightarrow> Inl (ErrSpool ''entry'')
      | Evicted \<Rightarrow> newest_record es
      | Undecodable \<Rightarrow> Inl (ErrCorruptRecord ''decode'')
      | Foreign \<Rightarrow> newest_record es
      | Ours r \<Rightarrow> Inr (Some r))"

definition Newest :: "Journal \<Rightarrow> journal_error + Record option" where
  "Newest j = (if \<not> jo_listable j then Inl (ErrSpool ''sequences'') else newest_record (rev (jo_entries j)))"

definition LatestBaselines :: "Journal \<Rightarrow> journal_error + (component \<times> Record) list" where
  "LatestBaselines j =
     (case Journal_Records j of
        Inl err \<Rightarrow> Inl err
      | Inr rs \<Rightarrow> Inr (fold (\<lambda>r latest.
          if \<not> f_Baseline (jr_Fact r) then latest
          else (case map_of latest (f_Component (jr_Fact r)) of
                  Some existing \<Rightarrow> if jr_HostSequence existing > jr_HostSequence r then latest
                                   else AList.update (f_Component (jr_Fact r)) r latest
                | None \<Rightarrow> AList.update (f_Component (jr_Fact r)) r latest)) rs []))"

section \<open>Reading back what was appended\<close>

definition ours :: "spooled list \<Rightarrow> Record list" where
  "ours es = concat (map (\<lambda>e. case e of Ours r \<Rightarrow> [r] | _ \<Rightarrow> []) es)"

definition legible :: "spooled list \<Rightarrow> bool" where
  "legible es \<longleftrightarrow> Unreadable_entry \<notin> set es \<and> Undecodable \<notin> set es"

lemma ours_simps [simp]: "ours [] = []" "ours (e # es) = (case e of Ours r \<Rightarrow> r # ours es | _ \<Rightarrow> ours es)"
  "ours (xs @ ys) = ours xs @ ours ys"
  by (simp_all add: ours_def split: spooled.splits)

text \<open>
  On a journal whose records lie in fold order the short walk from the newest record back
  answers exactly what filtering the whole journal would.
\<close>

lemma read_tail_filter:
  assumes "legible es" "sorted_wrt (\<lambda>a b. jr_FoldPosition b < jr_FoldPosition a) (ours es)"
  shows "read_tail w es out = Inr (rev (filter (\<lambda>r. w < jr_FoldPosition r) (ours es)) @ out)"
  using assms
proof (induction w es out rule: read_tail.induct)
  case (2 w e es out)
  show ?case
  proof (cases e)
    case (Ours r)
    have "filter (\<lambda>r. w < jr_FoldPosition r) (ours es) = []" if "jr_FoldPosition r \<le> w"
      using 2 Ours that by (auto simp: filter_empty_conv)
    then show ?thesis using 2 Ours by (auto simp: legible_def)
  qed (use 2 in \<open>auto simp: legible_def\<close>)
qed simp

lemma newest_record_last:
  assumes "legible es"
  shows "newest_record es = Inr (if ours es = [] then None else Some (hd (ours es)))"
  using assms by (induction es) (auto simp: legible_def split: spooled.splits)

lemma tailAfter_filter:
  assumes "jo_listable j" "legible (jo_entries j)" "sorted_wrt (<) (map jr_FoldPosition (ours (jo_entries j)))"
  shows "tailAfter j w = Inr (filter (\<lambda>r. w < jr_FoldPosition r) (ours (jo_entries j)))"
proof -
  have rev: "ours (rev es) = rev (ours es)" for es by (induction es) (auto split: spooled.splits)
  have "legible (rev (jo_entries j))" using assms(2) by (simp add: legible_def)
  moreover have "sorted_wrt (\<lambda>a b. jr_FoldPosition b < jr_FoldPosition a) (ours (rev (jo_entries j)))"
    using assms(3) by (simp add: rev sorted_wrt_rev sorted_wrt_map)
  ultimately show ?thesis
    using assms(1) read_tail_filter by (simp add: tailAfter_def rev rev_filter)
qed

end
