(* ===== verification/Replay.thy ===== *)
theory Replay
  imports Store Journal
begin

text \<open>
  Folding a journal onto a checkpoint and verifying a stored lineage against the journals that
  fed it (\<^verbatim>\<open>internal/connectivitycheckpoint/replay.go\<close> and \<^verbatim>\<open>verify.go\<close>).
\<close>

section \<open>Restoring the acceptor\<close>

definition watermark_state :: "SourceWatermark \<Rightarrow> SourceState" where
  "watermark_state w = \<lparr>ss_BootID = wm_BootID w, ss_LastSequence = wm_LastSequence w, ss_Recent = wm_Recent w,
     ss_Gaps = wm_Gaps w, ss_GapOverflow = wm_GapOverflow w, ss_PendingBaseline = wm_PendingBaseline w,
     ss_Conflicts = wm_Conflicts w\<rparr>"

definition checkpoint_state :: "Checkpoint \<Rightarrow> State" where
  "checkpoint_state c = \<lparr>st_HostSequence = sn_ConsumedHostSequence (ck_Snapshot c),
     st_FoldPosition = sn_ConsumedFoldPosition (ck_Snapshot c),
     st_Sources = fold (\<lambda>w. AList.update (wm_Source w) (watermark_state w)) (ck_SourceWatermarks c) []\<rparr>"

definition restoreAcceptor :: "Checkpoint \<Rightarrow> checkpoint_error + State" where
  "restoreAcceptor c =
     (case Restore (checkpoint_state c) of Inl _ \<Rightarrow> Inl (ErrLineageBroken ''acceptor state'') | Inr st \<Rightarrow> Inr st)"

section \<open>Replay\<close>

datatype ReplayStatus = ReplayComplete | ReplayJournalGap | ReplayUnavailable

record ReplayInput =
  ri_Wake :: "Wake option"
  ri_Resume :: Resume
  ri_Records :: "Record list"
  ri_Continuous :: bool
  ri_Policy :: PolicyDescriptor
  ri_PolicyComponents :: "ComponentPolicy list"
  ri_BootID :: string
  ri_EvaluationTick :: tick

record ReplayResult =
  rr_Status :: ReplayStatus
  rr_Output :: "Output option"

text \<open>
  The loop over the records: \<open>None\<close> is the early return with \<open>ReplayJournalGap\<close>, otherwise the
  events to fold.
\<close>

fun replay_records :: "codec \<Rightarrow> u64 \<Rightarrow> State \<Rightarrow> u64 \<Rightarrow> Record list \<Rightarrow> checkpoint_error + Event list option" where
  "replay_records cd consumedTo st expected [] = Inr (Some [])"
| "replay_records cd consumedTo st expected (r # rs) =
     (if jr_FoldPosition r \<le> consumedTo then replay_records cd consumedTo st expected rs
      else if jr_FoldPosition r \<noteq> expected + 1 then Inr None
      else (case Accept cd st (jr_Fact r, f_Domain (jr_Fact r)) of
              ((_, Some err), _) \<Rightarrow> Inl (ErrLineageBroken ''replaying'')
            | ((a, None), st') \<Rightarrow>
                if ac_Outcome a \<noteq> jr_Outcome r then Inr None
                else if ac_HostSequence a \<noteq> jr_HostSequence r then Inr None
                else (case replay_records cd consumedTo st' (expected + 1) rs of
                        Inl err \<Rightarrow> Inl err
                      | Inr None \<Rightarrow> Inr None
                      | Inr (Some es) \<Rightarrow> Inr (Some (\<lparr>ev_Acceptance = a, ev_Fact = jr_Fact r\<rparr> # es)))))"

definition replay_result :: "ReplayStatus \<Rightarrow> ReplayResult" where
  "replay_result st = \<lparr>rr_Status = st, rr_Output = None\<rparr>"

definition Replay :: "codec \<Rightarrow> ReplayInput \<Rightarrow> checkpoint_error + ReplayResult" where
  "Replay cd i =
     (case rs_Checkpoint (ri_Resume i) of
        None \<Rightarrow> Inr (replay_result ReplayUnavailable)
      | Some c \<Rightarrow>
          if \<not> Usable (ri_Resume i) then Inr (replay_result ReplayUnavailable)
          else if \<not> ri_Continuous i then Inr (replay_result ReplayJournalGap)
          else (case restoreAcceptor c of
                  Inl err \<Rightarrow> Inl err
                | Inr st \<Rightarrow>
                    (case replay_records cd (ck_ConsumedTo c) st (ck_ConsumedTo c) (ri_Records i) of
                       Inl err \<Rightarrow> Inl err
                     | Inr None \<Rightarrow> Inr (replay_result ReplayJournalGap)
                     | Inr (Some events) \<Rightarrow>
                         (case Reduce cd \<lparr>in_Prior = Some (ck_Snapshot c), in_Events = events,
                                 in_Policy = ri_Policy i, in_PolicyComponents = ri_PolicyComponents i,
                                 in_BootID = ri_BootID i, in_PriorFolded = 0, in_PriorConsumed = 0,
                                 in_EvaluationTick = ri_EvaluationTick i, in_Wake = ri_Wake i\<rparr> of
                            Inl err \<Rightarrow> Inl (ErrReduction err)
                          | Inr output \<Rightarrow> Inr \<lparr>rr_Status = ReplayComplete, rr_Output = Some output\<rparr>))))"

section \<open>Verification of a lineage\<close>

datatype VerifyStatus = VerifyReproduced | VerifyDiverged | VerifyUnreplayable | VerifyGenesis | VerifyBroken

record OutputDigests =
  od_Snapshot :: string
  od_Diff :: string
  od_Proposals :: string

definition OutputDigests_zero :: OutputDigests where
  "OutputDigests_zero = \<lparr>od_Snapshot = '''', od_Diff = '''', od_Proposals = ''''\<rparr>"

record LinkResult =
  lr_ID :: string
  lr_Parent :: string
  lr_Sequence :: u64
  lr_Status :: VerifyStatus
  lr_Recorded :: OutputDigests
  lr_Reproduced :: OutputDigests
  lr_ExpectedFrom :: u64
  lr_ExpectedTo :: u64
  lr_Found :: nat

record VerifyResult =
  vr_Links :: "LinkResult list"
  vr_Reproduced :: nat
  vr_Diverged :: nat
  vr_Unreplayable :: nat
  vr_LineageOverflow :: bool
  vr_JournalError :: "journal_error option"

definition Sound :: "VerifyResult \<Rightarrow> bool" where
  "Sound r \<longleftrightarrow> vr_Diverged r = 0"

definition allRecords :: "Journal \<Rightarrow> Journal \<Rightarrow> journal_error + Record list" where
  "allRecords root user =
     (case Journal_Records root of
        Inl err \<Rightarrow> Inl err
      | Inr rootRecords \<Rightarrow>
          (case Journal_Records user of
             Inl err \<Rightarrow> Inl err
           | Inr userRecords \<Rightarrow> Inr (sort_slice jr_FoldPosition (rootRecords @ userRecords))))"

definition span_records :: "Record list \<Rightarrow> u64 \<Rightarrow> u64 \<Rightarrow> Record list \<times> bool" where
  "span_records facts from consumedTo =
     (let kept = filter (\<lambda>r. \<not> (jr_FoldPosition r \<le> from \<or> jr_FoldPosition r > consumedTo)) facts
      in if of_nat (length kept) \<noteq> consumedTo - from then (kept, False)
         else (kept, consecutive (from + 1) kept))"

definition output_digests :: "codec \<Rightarrow> Output \<Rightarrow> checkpoint_error + OutputDigests" where
  "output_digests cd out =
     (case Snapshot_Digest cd (out_Snapshot out) of Inl err \<Rightarrow> Inl (ErrReduction err) | Inr snapshot \<Rightarrow>
     (case Diff_Digest cd (out_Diff out) of Inl err \<Rightarrow> Inl (ErrReduction err) | Inr diff \<Rightarrow>
     (case proposalsDigest cd (out_Proposals out) of Inl err \<Rightarrow> Inl err | Inr proposals \<Rightarrow>
       Inr \<lparr>od_Snapshot = snapshot, od_Diff = diff, od_Proposals = proposals\<rparr>)))"

definition recorded_digests :: "Checkpoint \<Rightarrow> OutputDigests" where
  "recorded_digests c = \<lparr>od_Snapshot = ck_SnapshotDigest c, od_Diff = ck_DiffDigest c,
     od_Proposals = ck_ProposalsDigest c\<rparr>"

text \<open>
  \<^verbatim>\<open>span\<close> allocates with the capacity \<^verbatim>\<open>consumedTo-from\<close>. A link that consumed less than its
  parent makes that difference wrap, and the allocation panics.
\<close>

definition reproduce :: "codec \<Rightarrow> Checkpoint \<Rightarrow> Checkpoint \<Rightarrow> Record list \<Rightarrow> ComponentPolicy list \<Rightarrow>
    checkpoint_error + OutputDigests \<times> nat \<times> VerifyStatus" where
  "reproduce cd c parent facts policyComponents =
     (if ck_ConsumedTo c < ck_ConsumedTo parent then Inl CapacityPanic else
      let (records, continuous) = span_records facts (ck_ConsumedTo parent) (ck_ConsumedTo c);
          found = length records
      in if \<not> continuous then Inr (OutputDigests_zero, found, VerifyUnreplayable)
         else (case Replay cd \<lparr>ri_Wake = ck_Wake c,
                       ri_Resume = \<lparr>rs_Status = ResumeLatest, rs_Reason = '''', rs_Checkpoint = Some parent,
                         rs_Depth = 0, rs_LineageOverflow = False\<rparr>,
                       ri_Records = records, ri_Continuous = continuous, ri_Policy = ck_Policy c,
                       ri_PolicyComponents = policyComponents, ri_BootID = sn_BootID (ck_Snapshot c),
                       ri_EvaluationTick = sn_EvaluationTick (ck_Snapshot c)\<rparr> of
                 Inl _ \<Rightarrow> Inr (OutputDigests_zero, found, VerifyUnreplayable)
               | Inr replayed \<Rightarrow>
                   (case rr_Output replayed of
                      None \<Rightarrow> Inr (OutputDigests_zero, found, VerifyUnreplayable)
                    | Some output \<Rightarrow>
                        (case output_digests cd output of
                           Inl err \<Rightarrow> Inl err
                         | Inr outputs \<Rightarrow>
                             Inr (outputs, found,
                               if outputs \<noteq> recorded_digests c then VerifyDiverged else VerifyReproduced)))))"

text \<open>The records the index names and the store can load, and a link for each it cannot.\<close>

definition link_lost :: "IndexEntry \<Rightarrow> LinkResult" where
  "link_lost e = \<lparr>lr_ID = ie_ID e, lr_Parent = ie_Parent e, lr_Sequence = ie_Sequence e,
     lr_Status = VerifyUnreplayable, lr_Recorded = OutputDigests_zero, lr_Reproduced = OutputDigests_zero,
     lr_ExpectedFrom = 0, lr_ExpectedTo = 0, lr_Found = 0\<rparr>"

fun load_links :: "codec \<Rightarrow> Disk \<Rightarrow> IndexEntry list \<Rightarrow> VerifyResult \<Rightarrow> (string \<times> Checkpoint) list \<Rightarrow>
    VerifyResult \<times> (string \<times> Checkpoint) list" where
  "load_links cd dk [] result byID = (result, byID)"
| "load_links cd dk (e # es) result byID =
     (case Store_Load cd dk (ie_ID e) of
        Inl _ \<Rightarrow> load_links cd dk es
          (result\<lparr>vr_Links := vr_Links result @ [link_lost e], vr_Unreplayable := vr_Unreplayable result + 1\<rparr>) byID
      | Inr c \<Rightarrow> load_links cd dk es result (AList.update (ie_ID e) c byID))"

definition link_of :: "Checkpoint \<Rightarrow> u64 \<Rightarrow> VerifyStatus \<Rightarrow> LinkResult" where
  "link_of c sequence status = \<lparr>lr_ID = ck_ID c, lr_Parent = ck_Parent c, lr_Sequence = sequence,
     lr_Status = status, lr_Recorded = recorded_digests c, lr_Reproduced = OutputDigests_zero,
     lr_ExpectedFrom = 0, lr_ExpectedTo = 0, lr_Found = 0\<rparr>"

definition count_link :: "LinkResult \<Rightarrow> VerifyResult \<Rightarrow> VerifyResult" where
  "count_link link result =
     (let result = result\<lparr>vr_Links := vr_Links result @ [link]\<rparr>
      in if lr_Status link = VerifyReproduced then result\<lparr>vr_Reproduced := vr_Reproduced result + 1\<rparr>
         else if lr_Status link = VerifyDiverged then result\<lparr>vr_Diverged := vr_Diverged result + 1\<rparr>
         else if lr_Status link = VerifyUnreplayable then result\<lparr>vr_Unreplayable := vr_Unreplayable result + 1\<rparr>
         else result)"

fun verify_links :: "codec \<Rightarrow> (string \<times> Checkpoint) list \<Rightarrow> Record list \<Rightarrow> ComponentPolicy list \<Rightarrow>
    IndexEntry list \<Rightarrow> VerifyResult \<Rightarrow> checkpoint_error + VerifyResult" where
  "verify_links cd byID facts policyComponents [] result = Inr result"
| "verify_links cd byID facts policyComponents (e # es) result =
     (case map_of byID (ie_ID e) of
        None \<Rightarrow> verify_links cd byID facts policyComponents es result
      | Some c \<Rightarrow>
          (case (if ck_Parent c = '''' then None else map_of byID (ck_Parent c)) of
             None \<Rightarrow> verify_links cd byID facts policyComponents es
               (count_link (link_of c (ie_Sequence e)
                  (if ck_Parent c \<noteq> '''' then VerifyUnreplayable
                   else if ck_Break c \<noteq> None then VerifyBroken else VerifyGenesis)) result)
           | Some parent \<Rightarrow>
               (case reproduce cd c parent facts policyComponents of
                  Inl err \<Rightarrow> Inl err
                | Inr (reproduced, found, status) \<Rightarrow>
                    verify_links cd byID facts policyComponents es
                      (count_link ((link_of c (ie_Sequence e) status)
                         \<lparr>lr_Reproduced := reproduced, lr_ExpectedFrom := ck_ConsumedTo parent,
                           lr_ExpectedTo := ck_ConsumedTo c, lr_Found := found\<rparr>) result))))"

definition Lineage_Verify :: "codec \<Rightarrow> os \<Rightarrow> Disk \<Rightarrow> Journal \<Rightarrow> Journal \<Rightarrow> ComponentPolicy list \<Rightarrow>
    checkpoint_error + VerifyResult" where
  "Lineage_Verify cd os dk root user policyComponents =
     (case indexLocked os dk of
        Inl err \<Rightarrow> Inl err
      | Inr index \<Rightarrow>
          (case pointerLocked dk of
             Inl err \<Rightarrow> Inl err
           | Inr p \<Rightarrow>
               (let (facts, journalErr) = (case allRecords root user of Inl err \<Rightarrow> ([], Some err) | Inr rs \<Rightarrow> (rs, None));
                    result = \<lparr>vr_Links = [], vr_Reproduced = 0, vr_Diverged = 0, vr_Unreplayable = 0,
                              vr_LineageOverflow = pt_Overflow p, vr_JournalError = journalErr\<rparr>;
                    (result, byID) = load_links cd dk index result []
                in verify_links cd byID facts policyComponents index result)))"

end
