(* ===== verification/Runtime.thy ===== *)
theory Runtime
  imports Replay
begin

text \<open>
  The observe-only read model the root daemon runs
  (\<^verbatim>\<open>internal/connectivityruntime/runtime.go\<close>): starting from the stored lineage, publishing
  facts and folding them.

  The checkpoint directory and the journals are part of the state. A disabled runtime holds no
  state; the fields it does not set are never read. \<open>sp\<close> is the spool of the journals, \<open>os\<close>
  the failing system calls and \<open>uuid\<close> what \<^verbatim>\<open>metadata.NewUUID\<close> returns. Go ranges over a map in no
  fixed order and \<^verbatim>\<open>sort.Slice\<close> is not stable: \<open>arrange\<close> is the permutation of the retained records
  after which a stable sort leaves equal host sequences as Go happens to leave them.
\<close>

section \<open>State\<close>

datatype runtime_error =
    ErrDisabled
  | ErrMisconfigured string
  | ErrUnknownDomain domain
  | ErrPrecondition string
  | RuntimeCheckpoint checkpoint_error
  | RuntimeState state_error
  | RuntimeJournal journal_error
  | RuntimeReduce reduce_error

datatype UserLinkState = UserLinkUnknown | UserLinkConnected | UserLinkAbsent

record Preconditions =
  pc_AtomicPolicyStartup :: bool
  pc_DomainMismatch :: bool
  pc_Suspension :: bool
  pc_RedactedStatus :: bool

definition Missing :: "Preconditions \<Rightarrow> string" where
  "Missing p =
     (if \<not> pc_AtomicPolicyStartup p then ''atomic policy startup revalidation''
      else if \<not> pc_DomainMismatch p then ''domain mismatch handling''
      else if \<not> pc_Suspension p then ''authorization suspension handling''
      else if \<not> pc_RedactedStatus p then ''redacted local status''
      else '''')"

record RuntimeOptions =
  op_Enabled :: bool
  op_Preconditions :: Preconditions
  op_BootID :: string
  op_Checkpoints :: "(Store \<times> Disk) option"
  op_RootJournal :: "Journal option"
  op_UserJournal :: "Journal option"
  op_Random :: bool

record Runtime =
  ru_enabled :: bool
  ru_bootID :: string
  ru_store :: Store
  ru_disk :: Disk
  ru_journals :: "(domain \<times> Journal) list"
  ru_acceptor :: State
  ru_snapshot :: "Snapshot option"
  ru_parent :: "Checkpoint option"
  ru_broken :: "LineageBreak option"
  ru_pending :: "Event list"
  ru_consumed :: u64
  ru_accepted :: u64
  ru_resume :: Resume
  ru_userLink :: UserLinkState

record Report =
  re_Accepted :: u16
  re_Duplicates :: u16
  re_Conflicts :: u16
  re_Stale :: u16
  re_Rejected :: u16
  re_Watermark :: u64

definition Report_zero :: Report where
  "Report_zero = \<lparr>re_Accepted = 0, re_Duplicates = 0, re_Conflicts = 0, re_Stale = 0, re_Rejected = 0, re_Watermark = 0\<rparr>"

section \<open>Starting\<close>

fun highestIssued :: "(domain \<times> Journal) list \<Rightarrow> journal_error + u64 \<times> u64" where
  "highestIssued [] = Inr (0, 0)"
| "highestIssued ((_, j) # js) =
     (case Newest j of
        Inl err \<Rightarrow> Inl err
      | Inr newest \<Rightarrow>
          (case highestIssued js of
             Inl err \<Rightarrow> Inl err
           | Inr (highest, folded) \<Rightarrow>
               Inr (case newest of
                      None \<Rightarrow> (highest, folded)
                    | Some r \<Rightarrow> (max highest (jr_HostSequence r), max folded (jr_FoldPosition r)))))"

text \<open>The records of every journal beyond a watermark; whether each range is continuous is not asked.\<close>

fun retained_after :: "(domain \<times> Journal) list \<Rightarrow> u64 \<Rightarrow> journal_error + Record list" where
  "retained_after [] watermark = Inr []"
| "retained_after ((_, j) # js) watermark =
     (case RecordsAfter j watermark of
        Inl err \<Rightarrow> Inl err
      | Inr (held, _) \<Rightarrow>
          (case retained_after js watermark of Inl err \<Rightarrow> Inl err | Inr rest \<Rightarrow> Inr (held @ rest)))"

fun reaccept :: "codec \<Rightarrow> Runtime \<Rightarrow> Record list \<Rightarrow> runtime_error + Runtime" where
  "reaccept cd rt [] = Inr rt"
| "reaccept cd rt (r # rs) =
     (case Accept cd (ru_acceptor rt) (jr_Fact r, f_Domain (jr_Fact r)) of
        ((_, Some err), _) \<Rightarrow> Inl (ErrMisconfigured ''retained record'')
      | ((a, None), st) \<Rightarrow>
          if ac_Outcome a = OutcomeRejected then Inl (ErrMisconfigured ''retained record was refused'')
          else reaccept cd (rt\<lparr>ru_acceptor := st,
                 ru_pending := ru_pending rt @ [\<lparr>ev_Acceptance = a, ev_Fact = jr_Fact r\<rparr>]\<rparr>) rs)"

type_synonym arrangement = "Record list \<Rightarrow> Record list"

definition resumeUnfolded :: "codec \<Rightarrow> arrangement \<Rightarrow> Runtime \<Rightarrow> Checkpoint \<Rightarrow> runtime_error + Runtime" where
  "resumeUnfolded cd arrange rt c =
     (case retained_after (ru_journals rt) (ck_ConsumedTo c) of
        Inl err \<Rightarrow> Inl (RuntimeJournal err)
      | Inr records \<Rightarrow> reaccept cd rt (sort_slice jr_HostSequence (arrange records)))"

definition Resume_none :: Resume where
  "Resume_none = \<lparr>rs_Status = '''', rs_Reason = '''', rs_Checkpoint = None, rs_Depth = 0, rs_LineageOverflow = False\<rparr>"

definition Disk_none :: Disk where
  "Disk_none = \<lparr>dk_checkpoints = (\<lambda>_. None), dk_index = [], dk_pointer = None\<rparr>"

definition blank_runtime :: "RuntimeOptions \<Rightarrow> Runtime" where
  "blank_runtime op = \<lparr>ru_enabled = op_Enabled op, ru_bootID = op_BootID op,
     ru_store = (case op_Checkpoints op of Some (so, _) \<Rightarrow> so | None \<Rightarrow> \<lparr>so_depth = 0, so_faults = []\<rparr>),
     ru_disk = (case op_Checkpoints op of Some (_, dk) \<Rightarrow> dk | None \<Rightarrow> Disk_none),
     ru_journals = [], ru_acceptor = New, ru_snapshot = None, ru_parent = None, ru_broken = None, ru_pending = [],
     ru_consumed = 0, ru_accepted = 0, ru_resume = Resume_none, ru_userLink = UserLinkUnknown\<rparr>"

text \<open>The branch of \<^verbatim>\<open>New\<close> that resumes, and the one that starts an empty read model.\<close>

definition start_resumed :: "codec \<Rightarrow> arrangement \<Rightarrow> Runtime \<Rightarrow> Checkpoint \<Rightarrow> runtime_error + Runtime" where
  "start_resumed cd arrange rt c =
     (let rt = rt\<lparr>ru_snapshot := Some (ck_Snapshot c), ru_parent := Some c,
                  ru_consumed := sn_ConsumedFoldPosition (ck_Snapshot c),
                  ru_accepted := sn_ConsumedHostSequence (ck_Snapshot c)\<rparr>
      in case Restore (checkpoint_state c) of
           Inl err \<Rightarrow> Inl (RuntimeState err)
         | Inr st \<Rightarrow> resumeUnfolded cd arrange (rt\<lparr>ru_acceptor := st\<rparr>) c)"

definition start_fresh :: "Runtime \<Rightarrow> runtime_error + Runtime" where
  "start_fresh rt =
     (case highestIssued (ru_journals rt) of
        Inl err \<Rightarrow> Inl (RuntimeJournal err)
      | Inr (issued, folded) \<Rightarrow>
          (case Restore \<lparr>st_HostSequence = issued, st_FoldPosition = folded, st_Sources = []\<rparr> of
             Inl err \<Rightarrow> Inl (RuntimeState err)
           | Inr st \<Rightarrow>
               (let rt = rt\<lparr>ru_acceptor := st, ru_consumed := folded, ru_accepted := issued\<rparr>
                in case pointerLocked (ru_disk rt) of
                     Inl ErrNotFound \<Rightarrow> Inr rt
                   | Inl err \<Rightarrow> Inl (RuntimeCheckpoint err)
                   | Inr p \<Rightarrow> Inr (rt\<lparr>ru_broken := Some \<lparr>lb_AfterID = pt_ID p,
                       lb_Reason = (if rs_Reason (ru_resume rt) = ResumeReasonNone then ResumeReasonRecordInvalid
                                    else rs_Reason (ru_resume rt))\<rparr>\<rparr>))))"

definition Runtime_New :: "codec \<Rightarrow> arrangement \<Rightarrow> os \<Rightarrow> RuntimeOptions \<Rightarrow> runtime_error + Runtime" where
  "Runtime_New cd arrange os op =
     (let rt = blank_runtime op in
      if \<not> op_Enabled op then Inr rt
      else if Missing (op_Preconditions op) \<noteq> '''' then Inl (ErrPrecondition (Missing (op_Preconditions op)))
      else (case (op_Checkpoints op, op_RootJournal op) of
              (Some (so, dk), Some root) \<Rightarrow>
                if op_BootID op = '''' \<or> \<not> op_Random op then Inl (ErrMisconfigured ''required'')
                else (let rt = rt\<lparr>ru_journals := (DomainRoot, root) #
                        (case op_UserJournal op of None \<Rightarrow> [] | Some user \<Rightarrow> [(DomainUser, user)])\<rparr>
                      in case Store_Resume cd so os dk of
                           Inl err \<Rightarrow> Inl (RuntimeCheckpoint err)
                         | Inr r \<Rightarrow>
                             (let rt = rt\<lparr>ru_resume := r\<rparr>
                              in case (Usable r, rs_Checkpoint r) of
                                   (True, Some c) \<Rightarrow> start_resumed cd arrange rt c
                                 | _ \<Rightarrow> start_fresh rt))
            | _ \<Rightarrow> Inl (ErrMisconfigured ''required'')))"

definition SetUserLink :: "Runtime \<Rightarrow> UserLinkState \<Rightarrow> Runtime" where
  "SetUserLink rt state = rt\<lparr>ru_userLink := state\<rparr>"

section \<open>Publishing\<close>

definition count_outcome :: "outcome \<Rightarrow> Report \<Rightarrow> Report" where
  "count_outcome outcome report =
     (if outcome = OutcomeAccepted then report\<lparr>re_Accepted := re_Accepted report + 1\<rparr>
      else if outcome = OutcomeDuplicate then report\<lparr>re_Duplicates := re_Duplicates report + 1\<rparr>
      else if outcome = OutcomeConflict then report\<lparr>re_Conflicts := re_Conflicts report + 1\<rparr>
      else if outcome = OutcomeStale then report\<lparr>re_Stale := re_Stale report + 1\<rparr>
      else report\<lparr>re_Rejected := re_Rejected report + 1\<rparr>)"

definition queue_event :: "Runtime \<Rightarrow> Acceptance \<Rightarrow> Fact \<Rightarrow> Runtime" where
  "queue_event rt a f =
     (if ac_Outcome a \<noteq> OutcomeRejected
      then rt\<lparr>ru_pending := ru_pending rt @ [\<lparr>ev_Acceptance = a, ev_Fact = f\<rparr>]\<rparr> else rt)"

fun publish_facts :: "codec \<Rightarrow> spool \<Rightarrow> domain \<Rightarrow> Runtime \<Rightarrow> Report \<Rightarrow> Fact list \<Rightarrow>
    (Report \<times> runtime_error option) \<times> Runtime" where
  "publish_facts cd sp d rt report [] =
     ((report\<lparr>re_Watermark := st_HostSequence (ru_acceptor rt)\<rparr>, None), rt)"
| "publish_facts cd sp d rt report (f # fs) =
     (case Accept cd (ru_acceptor rt) (f, d) of
        ((a, Some _), st) \<Rightarrow>
          publish_facts cd sp d (rt\<lparr>ru_acceptor := st\<rparr>) (report\<lparr>re_Rejected := re_Rejected report + 1\<rparr>) fs
      | ((a, None), st) \<Rightarrow>
          (let rt = rt\<lparr>ru_acceptor := st\<rparr>;
               (err, rt) =
                 (if ac_Outcome a = OutcomeRejected then (None, rt)
                  else (case Journal_Append cd sp (the (map_of (ru_journals rt) d)) f (ac_HostSequence a)
                               (ac_FoldPosition a) (ac_Outcome a) (ac_Role a) of
                          (err, j) \<Rightarrow> (err, rt\<lparr>ru_journals := AList.update d j (ru_journals rt)\<rparr>)))
           in case err of
                Some e \<Rightarrow> ((report, Some (RuntimeJournal e)), rt)
              | None \<Rightarrow> publish_facts cd sp d (queue_event rt a f) (count_outcome (ac_Outcome a) report) fs))"

definition Publish :: "codec \<Rightarrow> spool \<Rightarrow> Runtime \<Rightarrow> Fact list \<Rightarrow> domain \<Rightarrow> (Report \<times> runtime_error option) \<times> Runtime" where
  "Publish cd sp rt facts d =
     (if \<not> ru_enabled rt then ((Report_zero, Some ErrDisabled), rt)
      else if map_of (ru_journals rt) d = None then ((Report_zero, Some (ErrUnknownDomain d)), rt)
      else publish_facts cd sp d rt Report_zero facts)"

section \<open>Folding\<close>

record TickInput =
  ti_Policy :: PolicyDescriptor
  ti_PolicyComponents :: "ComponentPolicy list"
  ti_EvaluationTick :: tick
  ti_Wake :: "Wake option"

definition tick_input :: "Runtime \<Rightarrow> TickInput \<Rightarrow> Input" where
  "tick_input rt t = \<lparr>in_Prior = ru_snapshot rt, in_Events = ru_pending rt, in_Policy = ti_Policy t,
     in_PolicyComponents = ti_PolicyComponents t, in_BootID = ru_bootID rt, in_PriorFolded = ru_consumed rt,
     in_PriorConsumed = ru_accepted rt, in_EvaluationTick = ti_EvaluationTick t, in_Wake = ti_Wake t\<rparr>"

text \<open>The statements after the reduction: the state it leaves, and the checkpoint of a change.\<close>

definition adopt_output :: "Runtime \<Rightarrow> Output \<Rightarrow> Runtime" where
  "adopt_output rt out = rt\<lparr>ru_pending := [], ru_snapshot := Some (out_Snapshot out),
     ru_consumed := sn_ConsumedFoldPosition (out_Snapshot out),
     ru_accepted := sn_ConsumedHostSequence (out_Snapshot out)\<rparr>"

definition store_output :: "codec \<Rightarrow> os \<Rightarrow> string option \<Rightarrow> Runtime \<Rightarrow> u64 \<Rightarrow> TickInput \<Rightarrow> Output \<Rightarrow>
    runtime_error option \<times> Runtime" where
  "store_output cd os uuid rt before t out =
     (if \<not> out_Changed out then (None, rt)
      else (case uuid of
              None \<Rightarrow> (Some (ErrMisconfigured ''uuid''), rt)
            | Some id' \<Rightarrow>
                (let from = (if sn_ConsumedFoldPosition (out_Snapshot out) > before then before + 1 else 0)
                 in case SealFrom cd (ru_parent rt) (ru_broken rt) id' out from (ti_Wake t) of
                      Inl err \<Rightarrow> (Some (RuntimeCheckpoint err), rt)
                    | Inr c \<Rightarrow>
                        (case Store_Append cd (ru_store rt) os (ru_disk rt) c of
                           (Some err, dk) \<Rightarrow> (Some (RuntimeCheckpoint err), rt\<lparr>ru_disk := dk\<rparr>)
                         | (None, dk) \<Rightarrow> (None, rt\<lparr>ru_disk := dk, ru_parent := Some c, ru_broken := None\<rparr>)))))"

definition Tick :: "codec \<Rightarrow> os \<Rightarrow> string option \<Rightarrow> Runtime \<Rightarrow> TickInput \<Rightarrow>
    (Output option \<times> runtime_error option) \<times> Runtime" where
  "Tick cd os uuid rt t =
     (if \<not> ru_enabled rt then ((None, Some ErrDisabled), rt)
      else (case Reduce cd (tick_input rt t) of
              Inl err \<Rightarrow> ((None, Some (RuntimeReduce err)), rt)
            | Inr out \<Rightarrow>
                (case store_output cd os uuid (adopt_output rt out) (ru_consumed rt) t out of
                   (err, rt) \<Rightarrow> ((Some out, err), rt))))"

end
