(* ===== verification/Replay_Laws.thy ===== *)
theory Replay_Laws
  imports Replay Reduction_Laws
begin

text \<open>
  Replaying the journalled events onto the parent reproduces the reduction that made a
  checkpoint: the acceptor restored from the parent's watermarks decides every arrival as the
  running one did, up to the order in which a source lists what it owes, and that order is
  not visible in a snapshot.
\<close>

section \<open>Runs in lockstep\<close>

text \<open>
  Two states of one operation that stay related and answer alike, step by step, do so over
  every run.
\<close>

locale lockstep =
  fixes step :: "'s \<Rightarrow> 'i \<Rightarrow> 'o \<times> 's" and rel :: "'s \<Rightarrow> 's \<Rightarrow> bool" and alike :: "'o \<Rightarrow> 'o \<Rightarrow> bool"
  assumes step_sim: "rel s t \<Longrightarrow> step s i = (x, s') \<Longrightarrow> \<exists>y t'. step t i = (y, t') \<and> rel s' t' \<and> alike x y"
begin

lemma run_sim:
  "rel s t \<Longrightarrow> run_steps step s is = (xs, s') \<Longrightarrow>
     \<exists>ys t'. run_steps step t is = (ys, t') \<and> rel s' t' \<and> list_all2 alike xs ys"
proof (induction "is" arbitrary: s t xs)
  case (Cons i "is")
  obtain x s1 xs1 where s1: "step s i = (x, s1)" "run_steps step s1 is = (xs1, s')" "xs = x # xs1"
    using Cons.prems(2) by (auto simp: Let_def split: prod.splits)
  obtain y t1 where "step t i = (y, t1)" "rel s1 t1" "alike x y" using step_sim [OF Cons.prems(1) s1(1)] by blast
  with Cons.IH [OF _ s1(2), of t1] s1(3) show ?case by auto
qed simp

end

section \<open>Two acceptors that say the same\<close>

text \<open>States of a source that agree up to the order of their gaps and owed components.\<close>

definition same_source :: "SourceState \<Rightarrow> SourceState \<Rightarrow> bool" where
  "same_source s t \<longleftrightarrow> normal_integrity (integrityOf s) = normal_integrity (integrityOf t)"

definition same_state :: "State \<Rightarrow> State \<Rightarrow> bool" where
  "same_state st su \<longleftrightarrow> st_HostSequence st = st_HostSequence su \<and> st_FoldPosition st = st_FoldPosition su \<and>
     (\<forall>i. map_option (normal_integrity \<circ> integrityOf) (map_of (st_Sources st) i) =
          map_option (normal_integrity \<circ> integrityOf) (map_of (st_Sources su) i))"

text \<open>Acceptances that agree on everything a reduction reads.\<close>

definition same_acceptance :: "Acceptance \<Rightarrow> Acceptance \<Rightarrow> bool" where
  "same_acceptance a b \<longleftrightarrow> ac_Outcome a = ac_Outcome b \<and> ac_Reason a = ac_Reason b \<and> ac_Role a = ac_Role b \<and>
     ac_HostSequence a = ac_HostSequence b \<and> ac_FoldPosition a = ac_FoldPosition b \<and>
     normal_integrity (ac_Source a) = normal_integrity (ac_Source b)"

lemma sort_slice_snoc: "sort_slice k xs = sort_slice k ys \<Longrightarrow> sort_slice k (xs @ [x]) = sort_slice k (ys @ [x])"
proof -
  assume eq: "sort_slice k xs = sort_slice k ys"
  have "sort_key k (xs @ [x]) = sort_key k (ys @ [x])"
  proof (rule properties_for_sort_key)
    have "mset xs = mset ys" using eq by (metis mset_sort_slice)
    then show "mset (sort_key k (ys @ [x])) = mset (xs @ [x])" by simp
    have "filter (\<lambda>y. k y = k a) xs = filter (\<lambda>y. k y = k a) ys" for a
      using eq by (metis sort_key_stable sort_slice_def)
    moreover have "(\<lambda>y. k a = k y) = (\<lambda>y. k y = k a)" for a by auto
    ultimately show "filter (\<lambda>y. k a = k y) (sort_key k (ys @ [x])) = filter (\<lambda>y. k a = k y) (xs @ [x])" for a
      by (simp only: sort_key_stable filter_append)
  qed simp
  then show ?thesis by (simp add: sort_slice_def)
qed

lemma same_source_iff:
  "same_source s t \<longleftrightarrow> ss_BootID s = ss_BootID t \<and> ss_LastSequence s = ss_LastSequence t \<and> ss_Recent s = ss_Recent t \<and>
     sort_slice gap_From (ss_Gaps s) = sort_slice gap_From (ss_Gaps t) \<and> ss_GapOverflow s = ss_GapOverflow t \<and>
     mset (ss_PendingBaseline s) = mset (ss_PendingBaseline t) \<and> ss_Conflicts s = ss_Conflicts t"
proof -
  have "sort_slice (\<lambda>c. c) xs = sort_slice (\<lambda>c. c) ys \<longleftrightarrow> mset xs = mset ys" for xs ys :: "component list"
    by (metis mset_sort_slice sort_slice_def properties_for_sort sorted_sort mset_sort)
  then show ?thesis by (auto simp: same_source_def normal_integrity_def integrityOf_def)
qed

lemma same_source_lists:
  assumes "same_source s t"
  shows "set (ss_PendingBaseline s) = set (ss_PendingBaseline t)" "set (ss_Gaps s) = set (ss_Gaps t)"
    "length (ss_PendingBaseline s) = length (ss_PendingBaseline t)"
proof -
  show "set (ss_PendingBaseline s) = set (ss_PendingBaseline t)"
    "length (ss_PendingBaseline s) = length (ss_PendingBaseline t)"
    using assms by (auto simp: same_source_iff dest: mset_eq_setD mset_eq_length)
  show "set (ss_Gaps s) = set (ss_Gaps t)" using assms by (metis same_source_iff set_sort_slice)
qed

lemma mset_owed:
  assumes "mset p = mset q"
  shows "mset (fold (\<lambda>c pending. if \<not> containsComponent pending c then pending @ [c] else pending) cs p) =
    mset (fold (\<lambda>c pending. if \<not> containsComponent pending c then pending @ [c] else pending) cs q)"
  using assms
proof (induction cs arbitrary: p q)
  case (Cons c cs)
  have "containsComponent p c = containsComponent q c"
    unfolding containsComponent_def mset_eq_setD [OF Cons.prems] by (rule refl)
  then have "mset (if \<not> containsComponent p c then p @ [c] else p) = mset (if \<not> containsComponent q c then q @ [c] else q)"
    using Cons.prems by simp
  from Cons.IH [OF this] show ?case unfolding fold.simps comp_apply .
qed simp

lemma same_owesBaseline: "same_source s t \<Longrightarrow> same_source (owesBaseline s i) (owesBaseline t i)"
  using mset_owed [of "ss_PendingBaseline s" "ss_PendingBaseline t" "ConnectivitySourceComponents i"]
  by (simp add: same_source_iff owesBaseline_def)

lemma same_recordGap:
  assumes "same_source s t"
  shows "same_source (recordGap s g i) (recordGap t g i)"
proof -
  have "sort_slice gap_From (ss_Gaps s @ [g]) = sort_slice gap_From (ss_Gaps t @ [g])"
    using assms by (auto simp: same_source_iff intro: sort_slice_snoc)
  then show ?thesis
    using assms unfolding recordGap_def Let_def by (intro same_owesBaseline) (simp add: same_source_iff)
qed

lemma same_inGap: "same_source s t \<Longrightarrow> inGap (ss_Gaps s) n = inGap (ss_Gaps t) n"
  using same_source_lists(2) by (auto simp: inGap_def list_ex_iff)

lemma same_awaiting: "same_source s t \<Longrightarrow> AwaitingBaseline s = AwaitingBaseline t"
  using same_source_lists(3) by (metis AwaitingBaseline_def length_0_conv)

lemma same_integrity: "same_source s t \<Longrightarrow> normal_integrity (integrityOf s) = normal_integrity (integrityOf t)"
  by (simp add: same_source_def)

lemma same_admit_gap:
  assumes "same_source s t"
  shows "same_source (fst (admit_gap s f a)) (fst (admit_gap t f a))" "snd (admit_gap s f a) = snd (admit_gap t f a)"
  using assms same_recordGap by (auto simp: admit_gap_def Let_def same_source_iff [of s t])

lemma admit_baseline_cases:
  "\<not> (f_Baseline f \<and> AwaitingBaseline s) \<Longrightarrow> admit_baseline s f a = (s, a)"
  "f_Baseline f \<Longrightarrow> AwaitingBaseline s \<Longrightarrow> p = filter (\<lambda>c. c \<noteq> f_Component f) (ss_PendingBaseline s) \<Longrightarrow>
     admit_baseline s f a =
       (if p = [] then (s\<lparr>ss_PendingBaseline := [], ss_Gaps := [], ss_GapOverflow := False, ss_Conflicts := 0\<rparr>,
                        a\<lparr>ac_ClearedGaps := ss_Gaps s, ac_Reason := AReasonBaselineAccepted\<rparr>)
        else (s\<lparr>ss_PendingBaseline := p\<rparr>,
              if ac_Reason a = AReasonNone then a\<lparr>ac_Reason := AReasonBaselinePending\<rparr> else a))"
  by (auto simp: admit_baseline_def settleBaseline_def Let_def)

lemma same_admit_baseline:
  assumes same: "same_source s t" and s: "admit_baseline s f a = (s', b)" and t: "admit_baseline t f a = (t', c)"
  shows "same_source s' t' \<and> b\<lparr>ac_ClearedGaps := []\<rparr> = c\<lparr>ac_ClearedGaps := []\<rparr>"
proof (cases "f_Baseline f \<and> AwaitingBaseline t")
  case False
  then have "s' = s" "b = a" "t' = t" "c = a"
    using s t same_awaiting [OF same] admit_baseline_cases(1) [of f _ a] by auto
  with same show ?thesis by simp
next
  case True
  define p where "p = filter (\<lambda>c. c \<noteq> f_Component f) (ss_PendingBaseline s)"
  define q where "q = filter (\<lambda>c. c \<noteq> f_Component f) (ss_PendingBaseline t)"
  have pq: "mset p = mset q" using same by (simp add: p_def q_def same_source_iff)
  then have empty: "p = [] \<longleftrightarrow> q = []" by (metis mset_zero_iff)
  have "admit_baseline s f a = (if q = [] then (s\<lparr>ss_PendingBaseline := [], ss_Gaps := [], ss_GapOverflow := False,
        ss_Conflicts := 0\<rparr>, a\<lparr>ac_ClearedGaps := ss_Gaps s, ac_Reason := AReasonBaselineAccepted\<rparr>)
      else (s\<lparr>ss_PendingBaseline := p\<rparr>, if ac_Reason a = AReasonNone then a\<lparr>ac_Reason := AReasonBaselinePending\<rparr> else a))"
    using admit_baseline_cases(2) [OF _ _ p_def, of a] True same_awaiting [OF same] by (simp only: empty)
  moreover note admit_baseline_cases(2) [OF _ _ q_def, of a]
  ultimately show ?thesis
    using s t True same pq by (cases "q = []") (auto simp: same_source_iff)
qed

lemma same_admit_remember: "same_source s t \<Longrightarrow> same_source (admit_remember s f d) (admit_remember t f d)"
  by (simp add: same_source_iff admit_remember_def Let_def)

lemma same_admit:
  assumes "same_source s t" "admit host s f d role = (a, s', h)" "admit host t f d role = (b, t', k)"
  shows "same_acceptance a b \<and> same_source s' t' \<and> h = k"
proof -
  let ?a = "Acceptance_of OutcomeAccepted AReasonNone role d"
  obtain s1 a1 where s1: "admit_gap s f ?a = (s1, a1)" by fastforce
  obtain t1 where t1: "admit_gap t f ?a = (t1, a1)" and same1: "same_source s1 t1"
    using same_admit_gap [OF assms(1), of f ?a] s1 by (metis fst_conv prod.collapse snd_conv)
  obtain s2 a2 t2 b2 where s2: "admit_baseline s1 f a1 = (s2, a2)" "admit_baseline t1 f a1 = (t2, b2)" by fastforce
  have same2: "same_source s2 t2" "a2\<lparr>ac_ClearedGaps := []\<rparr> = b2\<lparr>ac_ClearedGaps := []\<rparr>"
    using same_admit_baseline [OF same1 s2] by simp_all
  have same3: "same_source (admit_remember s2 f d) (admit_remember t2 f d)" by (rule same_admit_remember [OF same2(1)])
  have "ac_Outcome a2 = ac_Outcome b2" "ac_Reason a2 = ac_Reason b2" "ac_Role a2 = ac_Role b2"
    "ac_FoldPosition a2 = ac_FoldPosition b2"
    using same2(2) by (cases a2; cases b2; simp)+
  then show ?thesis
    using assms(2,3) s1 t1 s2 same3 same_integrity [OF same3] by (auto simp: admit_def Let_def same_acceptance_def)
qed

lemma same_replay:
  assumes "same_source s t" "replay s f d role = (a, s')" "replay t f d role = (b, t')"
  shows "same_acceptance a b \<and> same_source s' t'"
proof -
  let ?c = "\<lambda>s. owesBaseline (s\<lparr>ss_Conflicts := ss_Conflicts s + 1\<rparr>) (f_SourceID f)"
  have recent: "ss_Recent s = ss_Recent t" using assms(1) by (simp add: same_source_iff)
  have "same_source (s\<lparr>ss_Conflicts := ss_Conflicts s + 1\<rparr>) (t\<lparr>ss_Conflicts := ss_Conflicts t + 1\<rparr>)"
    using assms(1) by (simp add: same_source_iff)
  then have c: "same_source (?c s) (?c t)" by (rule same_owesBaseline)
  show ?thesis
  proof (cases "find (\<lambda>e. rd_Sequence e = f_SourceSequence f) (ss_Recent t)")
    case None
    with assms recent same_integrity [OF assms(1)] same_inGap [OF assms(1)] show ?thesis
      by (auto simp: replay_def same_acceptance_def)
  next
    case (Some e)
    with assms recent same_integrity [OF assms(1)] same_integrity [OF c] c show ?thesis
      by (cases "rd_Digest e = d") (auto simp: replay_def Let_def same_acceptance_def)
  qed
qed

lemma same_decide:
  assumes "same_source s t" "decide host s f d role = (a, s', h)" "decide host t f d role = (b, t', k)"
  shows "same_acceptance a b \<and> same_source s' t' \<and> h = k"
proof -
  have eq: "ss_BootID s = ss_BootID t" "ss_LastSequence s = ss_LastSequence t" using assms(1) by (simp_all add: same_source_iff)
  consider "ss_BootID s \<noteq> f_BootID f" | "ss_BootID s = f_BootID f" "f_SourceSequence f > ss_LastSequence s"
    | "ss_BootID s = f_BootID f" "\<not> f_SourceSequence f > ss_LastSequence s" by blast
  then show ?thesis
  proof cases
    case 1
    with assms eq have "a = b" "s' = t'" "h = k" by (auto simp: decide_def)
    then show ?thesis by (simp add: same_acceptance_def same_source_def)
  next
    case 2
    with assms eq same_admit [OF assms(1)] show ?thesis by (simp add: decide_def)
  next
    case 3
    with assms eq same_replay [OF assms(1)] show ?thesis by (auto simp: decide_def Let_def split: prod.splits)
  qed
qed

lemma same_Accept:
  assumes same: "same_state st su" and s: "Accept cd st x = ((a, err), st')"
  shows "\<exists>b su'. Accept cd su x = ((b, err), su') \<and> same_state st' su' \<and> same_acceptance a b"
proof -
  obtain f auth where x: "x = (f, auth)" by fastforce
  let ?src = "\<lambda>st. case map_of (st_Sources st) (f_SourceID f) of None \<Rightarrow> SourceState_boot (f_BootID f) | Some s \<Rightarrow> s"
  have keys: "map_option (normal_integrity \<circ> integrityOf) (map_of (st_Sources st) i) =
      map_option (normal_integrity \<circ> integrityOf) (map_of (st_Sources su) i)" for i
    using same by (simp add: same_state_def)
  have src: "same_source (?src st) (?src su)"
    using keys [of "f_SourceID f"] by (auto simp: same_source_def split: option.splits)
  show ?thesis
  proof (cases "err = None")
    case False
    with s x have "st' = st" by (auto simp: Accept_def Let_def split: option.splits sum.splits prod.splits)
    moreover from False s x have "Accept cd su x = ((a, err), su)"
      by (auto simp: Accept_def Let_def split: option.splits sum.splits prod.splits)
    ultimately show ?thesis using same by (auto simp: same_acceptance_def)
  next
    case True
    then obtain role digest where pre: "Fact_Validate f = None" "ClassifyConnectivityFact f auth = Inr role"
      "Digest cd f = Inr digest"
      using s x by (auto simp: Accept_def Let_def split: option.splits sum.splits prod.splits)
    obtain a0 s' h where d: "decide (st_HostSequence st) (?src st) f digest role = (a0, s', h)" by (metis prod_cases3)
    obtain b0 t' k where e: "decide (st_HostSequence su) (?src su) f digest role = (b0, t', k)" by (metis prod_cases3)
    have host: "st_HostSequence su = st_HostSequence st" "st_FoldPosition su = st_FoldPosition st"
      using same by (simp_all add: same_state_def)
    have sd: "same_acceptance a0 b0" "same_source s' t'" "h = k"
      using same_decide [OF src d e [unfolded host]] by simp_all
    have "Accept cd st x = ((a0\<lparr>ac_FoldPosition := st_FoldPosition st + 1\<rparr>, None), st\<lparr>st_HostSequence := h,
        st_FoldPosition := st_FoldPosition st + 1, st_Sources := AList.update (f_SourceID f) s' (st_Sources st)\<rparr>)"
      unfolding x Accept_def using pre d by (simp add: Let_def)
    moreover have "Accept cd su x = ((b0\<lparr>ac_FoldPosition := st_FoldPosition su + 1\<rparr>, None), su\<lparr>st_HostSequence := k,
        st_FoldPosition := st_FoldPosition su + 1, st_Sources := AList.update (f_SourceID f) t' (st_Sources su)\<rparr>)"
      unfolding x Accept_def using pre e by (simp add: Let_def)
    ultimately show ?thesis
      using s sd host keys by (auto simp: same_state_def same_acceptance_def same_source_def)
  qed
qed

interpretation restored: lockstep "Accept cd" same_state "\<lambda>(a, e) (b, d). e = d \<and> same_acceptance a b" for cd
proof
  fix s t i x s' assume "same_state s t" "Accept cd s i = (x, s')"
  then show "\<exists>y t'. Accept cd t i = (y, t') \<and> same_state s' t' \<and> (case x of (a, e) \<Rightarrow> \<lambda>(b, d). e = d \<and> same_acceptance a b) y"
    using same_Accept [of s t cd i "fst x" "snd x" s'] by (cases x) auto
qed

definition same_event :: "Event \<Rightarrow> Event \<Rightarrow> bool" where
  "same_event e d \<longleftrightarrow> ev_Fact e = ev_Fact d \<and> same_acceptance (ev_Acceptance e) (ev_Acceptance d)"

section \<open>Reductions do not see the difference\<close>

definition normal_table :: "source_table \<Rightarrow> source_table" where
  "normal_table t = map (\<lambda>(k, w). (k, normal_watermark w)) t"

text \<open>Folds that agree once their sources are written in normal form.\<close>

definition same_fold :: "Fold \<Rightarrow> Fold \<Rightarrow> bool" where
  "same_fold s t \<longleftrightarrow> normal_table (fo_sources s) = normal_table (fo_sources t) \<and>
     s\<lparr>fo_sources := []\<rparr> = t\<lparr>fo_sources := []\<rparr>"

lemma normal_table_update:
  "normal_table (AList.update k w t) = AList.update k (normal_watermark w) (normal_table t)"
  by (induction t) (auto simp: normal_table_def)

lemma map_of_normal_table: "map_of (normal_table t) k = map_option normal_watermark (map_of t k)"
  by (simp add: normal_table_def map_of_map)

lemma normal_adopt:
  assumes "normal_watermark w = normal_watermark v" "same_event e d"
  shows "normal_watermark (adoptIntegrity (w\<lparr>wm_Role := r\<rparr>) e) = normal_watermark (adoptIntegrity (v\<lparr>wm_Role := r\<rparr>) d)"
  using assms
  by (cases w; cases v; cases "ac_Source (ev_Acceptance e)"; cases "ac_Source (ev_Acceptance d)")
    (simp add: normal_watermark_def adoptIntegrity_def Let_def same_event_def same_acceptance_def normal_integrity_def)

lemma normal_note_source:
  assumes "normal_table t = normal_table u" "same_event e d"
  shows "normal_table (note_source t e) = normal_table (note_source u d)"
proof -
  have "map_option normal_watermark (map_of t k) = map_option normal_watermark (map_of u k)" for k
    using assms(1) map_of_normal_table by metis
  from this [of "f_SourceID (ev_Fact e)"]
  have "normal_watermark (watermarkFor t e) = normal_watermark (watermarkFor u d)"
    using assms(2) by (auto simp: watermarkFor_def same_event_def same_acceptance_def split: option.splits)
  from normal_adopt [OF this assms(2)] show ?thesis
    using assms by (simp add: note_source_def normal_table_update same_event_def same_acceptance_def)
qed

lemma same_fold_fields:
  assumes "same_fold s t"
  shows "fo_components s = fo_components t" "fo_conflicts s = fo_conflicts t" "fo_consumed s = fo_consumed t"
    "fo_folded s = fo_folded t"
  using assms by (cases s; cases t; simp add: same_fold_def)+

lemma same_foldI:
  "normal_table (fo_sources s) = normal_table (fo_sources t) \<Longrightarrow> fo_components s = fo_components t \<Longrightarrow>
   fo_conflicts s = fo_conflicts t \<Longrightarrow> fo_consumed s = fo_consumed t \<Longrightarrow> fo_folded s = fo_folded t \<Longrightarrow> same_fold s t"
  by (simp add: same_fold_def)

lemma same_observed:
  assumes "same_event e d"
  shows "addCorroboration r e = addCorroboration r d" "observe r e = observe r d"
  using assms by (simp_all add: addCorroboration_def observe_def same_event_def same_acceptance_def)

lemma same_applyAccepted:
  assumes "same_fold s t" "same_event e d" "applyAccepted s e = Inr s'"
  shows "\<exists>t'. applyAccepted t d = Inr t' \<and> same_fold s' t'"
proof -
  have "normal_table (note_source (fo_sources s) e) = normal_table (note_source (fo_sources t) d)"
    using assms(1) normal_note_source [OF _ assms(2)] by (simp add: same_fold_def)
  with assms(3) same_fold_fields [OF assms(1)] assms(2) same_observed [OF assms(2)] show ?thesis
    by (auto simp: applyAccepted_def Let_def same_event_def same_acceptance_def split: option.splits intro!: same_foldI)
qed

lemma same_applyConflict:
  assumes "same_fold s t" "same_event e d"
  shows "same_fold (applyConflict s e) (applyConflict t d)"
proof -
  have "normal_table (note_source (fo_sources s) e) = normal_table (note_source (fo_sources t) d)"
    using assms(1) normal_note_source [OF _ assms(2)] by (simp add: same_fold_def)
  with same_fold_fields [OF assms(1)] assms(2) show ?thesis
    by (intro same_foldI) (simp_all add: applyConflict_def Let_def same_event_def same_acceptance_def split: option.split)
qed

lemma same_reduce_event:
  assumes "same_fold s t" "same_event e d" "reduce_event s e = Inr s'"
  shows "\<exists>t'. reduce_event t d = Inr t' \<and> same_fold s' t'"
proof -
  let ?f = "ac_FoldPosition (ev_Acceptance d)"
  have eq: "ac_FoldPosition (ev_Acceptance e) = ?f" "ac_Outcome (ev_Acceptance e) = ac_Outcome (ev_Acceptance d)"
    "ac_HostSequence (ev_Acceptance e) = ac_HostSequence (ev_Acceptance d)"
    using assms(2) by (simp_all add: same_event_def same_acceptance_def)
  note fields = same_fold_fields [OF assms(1)]
  have step: "same_fold (s\<lparr>fo_folded := ?f\<rparr>) (t\<lparr>fo_folded := ?f\<rparr>)"
    "same_fold (s\<lparr>fo_folded := ?f, fo_consumed := h\<rparr>) (t\<lparr>fo_folded := ?f, fo_consumed := h\<rparr>)" for h
    using assms(1) fields by (auto simp: same_fold_def intro!: same_foldI)
  from assms(3) show ?thesis
    using fields eq step same_applyConflict [OF step(1) assms(2)] same_applyAccepted [OF step(2) assms(2)]
    by (auto simp: reduce_event_def Let_def split: if_splits)
qed

lemma same_reduce_events:
  assumes "same_fold s t" "list_all2 same_event es ds" "reduce_events s es = Inr s'"
  shows "\<exists>t'. reduce_events t ds = Inr t' \<and> same_fold s' t'"
  using assms(2,1,3)
proof (induction es ds arbitrary: s t rule: list_all2_induct)
  case (Cons e es d ds)
  from Cons.prems(2) obtain s1 where s1: "reduce_event s e = Inr s1" "reduce_events s1 es = Inr s'" by (auto split: sum.splits)
  from same_reduce_event [OF Cons.prems(1) Cons.hyps(1) s1(1)] obtain t1 where "reduce_event t d = Inr t1" "same_fold s1 t1"
    by blast
  with Cons.IH [OF _ s1(2)] show ?case by auto
qed auto

lemma normal_conflicts: "normal_watermark w = normal_watermark v \<Longrightarrow> wm_Conflicts w = wm_Conflicts v"
  by (cases w; cases v) (simp add: normal_watermark_def)

lemma same_renders:
  assumes "same_fold s t"
  shows "renderSources (fo_sources s) = renderSources (fo_sources t)"
    "render_components cs ct (fo_sources s) i = render_components cs ct (fo_sources t) i"
proof -
  have n: "normal_table (fo_sources s) = normal_table (fo_sources t)" using assms by (simp add: same_fold_def)
  have "renderSources u = sort_slice wm_Source (map snd (normal_table u))" for u
    by (auto simp: renderSources_def normal_table_def normal_watermark_def intro!: arg_cong [where f = "sort_slice wm_Source"])
  then show "renderSources (fo_sources s) = renderSources (fo_sources t)" using n by simp
  have "map_option normal_watermark (map_of (fo_sources s) k) = map_option normal_watermark (map_of (fo_sources t) k)" for k
    using n map_of_normal_table by metis
  then have "(case map_of (fo_sources s) k of Some w \<Rightarrow> wm_Conflicts w | None \<Rightarrow> 0) =
      (case map_of (fo_sources t) k of Some w \<Rightarrow> wm_Conflicts w | None \<Rightarrow> 0)" for k
    by (metis (no_types, lifting) map_option_is_None normal_conflicts option.case_eq_if option.map_sel)
  then have "render_component r (fo_sources s) i = render_component r (fo_sources t) i" for r
    by (simp add: render_component_def)
  then show "render_components cs ct (fo_sources s) i = render_components cs ct (fo_sources t) i"
    by (induction cs) (simp_all split: option.splits sum.splits)
qed

text \<open>The input a replay folds: the same context, equivalent events, and no explicit watermarks.\<close>

definition replayed_input :: "Input \<Rightarrow> Event list \<Rightarrow> Input" where
  "replayed_input i ds = i\<lparr>in_Events := ds, in_PriorFolded := 0, in_PriorConsumed := 0\<rparr>"

lemma replayed_fields [simp]:
  "in_Prior (replayed_input i ds) = in_Prior i" "in_Policy (replayed_input i ds) = in_Policy i"
  "in_PolicyComponents (replayed_input i ds) = in_PolicyComponents i" "in_BootID (replayed_input i ds) = in_BootID i"
  "in_EvaluationTick (replayed_input i ds) = in_EvaluationTick i" "in_Wake (replayed_input i ds) = in_Wake i"
  "in_Events (replayed_input i ds) = ds" "in_PriorFolded (replayed_input i ds) = 0" "in_PriorConsumed (replayed_input i ds) = 0"
  by (simp_all add: replayed_input_def)

lemma replayed_valid:
  assumes "validateInput i = None" "list_all2 same_event (in_Events i) ds"
  shows "validateInput (replayed_input i ds) = None"
proof -
  have "\<forall>e\<in>set (in_Events i). validate_event e = None" and w: "validate_watermarks i = None"
    and rest: "validate_prior i = None" "in_BootID i \<noteq> ''''" "in_EvaluationTick i > 0"
    "\<forall>w. in_Wake i = Some w \<longrightarrow> wk_Tick w > 0"
    using assms(1) by (auto simp: validateInput_def split: if_splits option.splits)
  moreover have "same_event e d \<Longrightarrow> validate_event d = validate_event e" for e d
    by (simp add: validate_event_def same_event_def same_acceptance_def)
  ultimately have "\<forall>d\<in>set ds. validate_event d = None"
    using assms(2) by (metis in_set_conv_nth list_all2_conv_all_nth)
  moreover have "validate_watermarks (replayed_input i ds) = None"
    by (simp add: validate_watermarks_def split: option.splits)
  moreover have "validate_prior (replayed_input i ds) = None" using rest(1) unfolding validate_prior_def replayed_fields .
  ultimately show ?thesis using rest by (cases "in_Wake i") (simp_all add: validateInput_def)
qed

lemma replayed_start: "in_Prior i \<noteq> None \<Longrightarrow> fold_start (replayed_input i ds) = fold_start i"
  by (auto simp: fold_start_def markRebaseline_def)

lemma replayed_render: "render_components cs ct src (replayed_input i ds) = render_components cs ct src i"
proof -
  have "render_component r src (replayed_input i ds) = render_component r src i" for r
    by (simp add: render_component_def deriveState_def Let_def)
  then show ?thesis by (induction cs) (simp_all split: option.split sum.split)
qed

lemma same_assemble:
  assumes "same_fold s t"
  shows "assemble (replayed_input i ds) t cs = assemble i s cs"
  using same_fold_fields [OF assms] same_renders(1) [OF assms] by (simp add: assemble_def Let_def)

lemma same_Reduce:
  assumes r: "Reduce cd i = Inr out" and prior: "in_Prior i \<noteq> None" and same: "list_all2 same_event (in_Events i) ds"
  shows "Reduce cd (replayed_input i ds) = Inr out"
proof -
  have v: "validateInput i = None" using r by (auto simp: Reduce_def split: option.splits)
  obtain s where s: "reduce_events (fold_start i) (in_Events i) = Inr s"
    using r v by (auto simp: Reduce_def split: sum.splits)
  have "same_fold (fold_start i) (fold_start i)" by (simp add: same_fold_def)
  from same_reduce_events [OF this same s] obtain t where
    t: "reduce_events (fold_start i) ds = Inr t" and st: "same_fold s t" by blast
  obtain cs where cs: "renderComponents (fo_components s) (fo_sources s) i = Inr cs"
    using r v s by (auto simp: Reduce_def split: sum.splits)
  obtain changed where ch: "effective cd (in_Prior i) (assemble i s cs) = Inr changed"
    using r v s cs by (auto simp: Reduce_def Let_def split: sum.splits)
  from cs have "renderComponents (fo_components t) (fo_sources t) (replayed_input i ds) = Inr cs"
    unfolding renderComponents_def replayed_render same_renders(2) [OF st] same_fold_fields(1) [OF st] .
  moreover have "conclude cd (replayed_input i ds) = conclude cd i" unfolding conclude_def [abs_def] replayed_fields ..
  ultimately show ?thesis
    using r v s cs ch replayed_valid [OF v same] t
    by (simp add: Reduce_def replayed_start [OF prior] same_assemble [OF st] Let_def)
qed

section \<open>Replaying what was journalled\<close>

definition journals :: "Event \<Rightarrow> Record \<Rightarrow> bool" where
  "journals e r \<longleftrightarrow> jr_Fact r = ev_Fact e \<and> jr_FoldPosition r = ac_FoldPosition (ev_Acceptance e) \<and>
     jr_HostSequence r = ac_HostSequence (ev_Acceptance e) \<and> jr_Outcome r = ac_Outcome (ev_Acceptance e)"

lemma classified_domain: "ClassifyConnectivityFact f auth = Inr role \<Longrightarrow> f_Domain f = auth"
  by (auto simp: ClassifyConnectivityFact_def split: if_splits option.splits)

lemma journals_same:
  "list_all2 same_event es ds \<Longrightarrow> list_all2 journals es rs \<Longrightarrow> list_all2 journals ds rs"
  by (induction es ds arbitrary: rs rule: list_all2_induct)
    (auto simp: list_all2_Cons1 journals_def same_event_def same_acceptance_def)

lemma alike_events:
  assumes "list_all2 (\<lambda>(a, e) (b, d). e = d \<and> same_acceptance a b) outs outs'" "length outs = length xs"
  shows "list_all2 same_event (events_of (zip xs outs)) (events_of (zip xs outs'))"
  using assms
proof (induction outs outs' arbitrary: xs rule: list_all2_induct)
  case (Cons x outs y outs')
  then obtain f auth ys where "xs = (f, auth) # ys" by (cases xs) auto
  with Cons show ?case by (cases x; cases y) (auto simp: same_event_def)
qed simp

lemma replay_own_run:
  assumes "run_steps (Accept cd) st xs = (outs, st')" "list_all2 journals (events_of (zip xs outs)) rs"
    and "consumed \<le> st_FoldPosition st" "unat (st_FoldPosition st) + length xs < 2 ^ 64"
  shows "replay_records cd consumed st (st_FoldPosition st) rs = Inr (Some (events_of (zip xs outs)))"
  using assms
proof (induction xs arbitrary: st outs rs)
  case (Cons x xs)
  obtain f auth where x: "x = (f, auth)" by fastforce
  obtain a err st1 outs1 where acc: "Accept cd st (f, auth) = ((a, err), st1)"
    and rest: "run_steps (Accept cd) st1 xs = (outs1, st')" and outs: "outs = (a, err) # outs1"
    using Cons.prems(1) x by (auto simp: Let_def split: prod.splits)
  show ?case
  proof (cases err)
    case (Some e)
    from acc Some have "st1 = st" by (cases rule: Accept_E) auto
    with Cons.IH [of st outs1 rs] rest Cons.prems Some x outs show ?thesis by simp
  next
    case None
    from acc None have step: "ac_FoldPosition a = st_FoldPosition st + 1" "st_FoldPosition st1 = st_FoldPosition st + 1"
      "f_Domain f = auth" by (cases rule: Accept_E; auto dest: classified_domain)+
    obtain r rs1 where rs: "rs = r # rs1" "journals \<lparr>ev_Acceptance = a, ev_Fact = f\<rparr> r"
      "list_all2 journals (events_of (zip xs outs1)) rs1"
      using Cons.prems(2) x outs None by (auto simp: list_all2_Cons1)
    have "unat (st_FoldPosition st + 1) = unat (st_FoldPosition st) + 1"
      using Cons.prems(4) by (simp add: unat_word_ariths)
    then have "consumed \<le> st_FoldPosition st1" "unat (st_FoldPosition st1) + length xs < 2 ^ 64"
      "\<not> st_FoldPosition st + 1 \<le> consumed"
      using Cons.prems(3,4) step(2) by (auto simp: word_le_nat_alt)
    with Cons.IH [OF rest rs(3)] rs acc None x outs step show ?thesis by (simp add: journals_def)
  qed
qed simp

lemma replay_records_same:
  assumes same: "same_state st su" and run: "run_steps (Accept cd) st xs = (outs, st')"
    and rs: "list_all2 journals (events_of (zip xs outs)) rs"
    and fold: "consumed \<le> st_FoldPosition st" "unat (st_FoldPosition st) + length xs < 2 ^ 64"
  shows "\<exists>es. replay_records cd consumed su (st_FoldPosition st) rs = Inr (Some es) \<and>
    list_all2 same_event (events_of (zip xs outs)) es"
proof -
  obtain outs' su' where run': "run_steps (Accept cd) su xs = (outs', su')"
    and alike: "list_all2 (\<lambda>(a, e) (b, d). e = d \<and> same_acceptance a b) outs outs'"
    using restored.run_sim [OF same run] by blast
  have es: "list_all2 same_event (events_of (zip xs outs)) (events_of (zip xs outs'))"
    by (rule alike_events [OF alike]) (use length_run_steps [of "Accept cd" st xs] run in simp)
  then have "list_all2 journals (events_of (zip xs outs')) rs" using rs by (rule journals_same)
  moreover have "st_FoldPosition su = st_FoldPosition st" using same by (simp add: same_state_def)
  ultimately show ?thesis using replay_own_run [OF run', of rs consumed] fold es by auto
qed

section \<open>The acceptor a checkpoint restores\<close>

lemma same_source_valid:
  assumes same: "same_source s t" and ok: "SourceState_Validate i s = None"
  shows "SourceState_Validate i t = None"
proof -
  have eq: "ss_Recent t = ss_Recent s" "ss_LastSequence t = ss_LastSequence s"
    and gaps: "sort_slice gap_From (ss_Gaps s) = sort_slice gap_From (ss_Gaps t)"
    using same by (simp_all add: same_source_iff)
  have len: "length (ss_Gaps t) = length (ss_Gaps s)" using arg_cong [OF gaps, of length] by simp
  then have nil: "ss_Gaps t = [] \<longleftrightarrow> ss_Gaps s = []" "ss_PendingBaseline t = [] \<longleftrightarrow> ss_PendingBaseline s = []"
    using same_source_lists(3) [OF same] by (cases "ss_Gaps s"; cases "ss_PendingBaseline s"; auto)+
  show ?thesis
    using ok unfolding SourceState_Validate_None_iff eq len nil same_source_lists(1,2) [OF same] .
qed

lemma watermark_state_integrity [simp]: "integrityOf (watermark_state w) = watermark_integrity w"
  by (simp add: integrityOf_def watermark_state_def watermark_integrity_def)

lemma restored_sources:
  assumes "distinct (map wm_Source ws)"
  shows "map_of (fold (\<lambda>w. AList.update (wm_Source w) (watermark_state w)) ws t) i =
      (case map_of (keyed_sources ws) i of None \<Rightarrow> map_of t i | Some w \<Rightarrow> Some (watermark_state w))"
    "distinct (map fst t) \<Longrightarrow> distinct (map fst (fold (\<lambda>w. AList.update (wm_Source w) (watermark_state w)) ws t))"
proof -
  show "map_of (fold (\<lambda>w. AList.update (wm_Source w) (watermark_state w)) ws t) i =
      (case map_of (keyed_sources ws) i of None \<Rightarrow> map_of t i | Some w \<Rightarrow> Some (watermark_state w))"
    using assms
  proof (induction ws arbitrary: t)
    case (Cons w ws)
    have "map_of (keyed_sources ws) (wm_Source w) = None"
      using Cons.prems by (auto simp: keyed_sources_def map_of_eq_None_iff image_iff)
    with Cons show ?case by (auto simp: keyed_sources_def split: option.splits)
  qed (simp add: keyed_sources_def)
  show "distinct (map fst t) \<Longrightarrow> distinct (map fst (fold (\<lambda>w. AList.update (wm_Source w) (watermark_state w)) ws t))"
    by (induction ws arbitrary: t) (simp_all add: distinct_update)
qed

definition carried :: "Checkpoint \<Rightarrow> bool" where
  "carried c \<longleftrightarrow> ck_SourceWatermarks c = sn_Sources (ck_Snapshot c) \<and> ck_ConsumedTo c = sn_ConsumedFoldPosition (ck_Snapshot c)"

lemma restored_same:
  assumes st: "represents st (ck_Snapshot c)" and c: "carried c"
  shows "same_state st (checkpoint_state c)"
proof -
  have d: "distinct (map wm_Source (ck_SourceWatermarks c))" using st c by (simp add: represents_def carried_def)
  have "map_option (normal_integrity \<circ> integrityOf) (map_of (st_Sources (checkpoint_state c)) i) =
      map_option (normal_integrity \<circ> watermark_integrity) (map_of (keyed_sources (ck_SourceWatermarks c)) i)" for i
    by (simp add: checkpoint_state_def restored_sources(1) [OF d] split: option.split)
  then show ?thesis
    using st c by (simp add: same_state_def represents_def tracks_def checkpoint_state_def carried_def)
qed

lemma restored_valid:
  assumes inv: "acceptor_inv st" and st: "represents st (ck_Snapshot c)" and c: "carried c"
  shows "restoreAcceptor c = Inr (checkpoint_state c)"
proof -
  have d: "distinct (map wm_Source (ck_SourceWatermarks c))" using st c by (simp add: represents_def carried_def)
  have dist: "distinct (map fst (st_Sources (checkpoint_state c)))"
    using restored_sources(2) [OF d, of "[]"] by (simp add: checkpoint_state_def)
  have "SourceState_Validate i t = None" if it: "(i, t) \<in> set (st_Sources (checkpoint_state c))" for i t
  proof -
    have "map_of (st_Sources (checkpoint_state c)) i = Some t" using dist it by simp
    moreover have "map_option (normal_integrity \<circ> integrityOf) (map_of (st_Sources st) i) =
        map_option (normal_integrity \<circ> integrityOf) (map_of (st_Sources (checkpoint_state c)) i)"
      using restored_same [OF st c] by (simp add: same_state_def)
    ultimately obtain s where s: "map_of (st_Sources st) i = Some s" "same_source s t"
      by (cases "map_of (st_Sources st) i") (simp_all add: same_source_def)
    then have "SourceState_Validate i s = None"
      using inv by (auto simp: acceptor_inv_def State_Validate_None_iff dest: map_of_SomeD)
    with s(2) show ?thesis by (rule same_source_valid)
  qed
  then have "State_Validate (checkpoint_state c) = None" by (auto simp: State_Validate_None_iff)
  then show ?thesis by (simp add: restoreAcceptor_def Restore_def State_Clone_def)
qed

text \<open>What a replay of one link returns.\<close>

lemma replay_complete:
  assumes inv: "acceptor_inv st" and st: "represents st (ck_Snapshot c)" and c: "carried c"
    and run: "run_steps (Accept cd) st xs = (outs, st')" and rs: "list_all2 journals (events_of (zip xs outs)) rs"
    and room: "unat (st_FoldPosition st) + length xs < 2 ^ 64"
    and i: "in_Prior i = Some (ck_Snapshot c)" "in_Events i = events_of (zip xs outs)" "Reduce cd i = Inr out"
    and use: "rs_Checkpoint re = Some c" "Usable re"
  shows "Replay cd \<lparr>ri_Wake = in_Wake i, ri_Resume = re, ri_Records = rs, ri_Continuous = True, ri_Policy = in_Policy i,
      ri_PolicyComponents = in_PolicyComponents i, ri_BootID = in_BootID i, ri_EvaluationTick = in_EvaluationTick i\<rparr> =
    Inr \<lparr>rr_Status = ReplayComplete, rr_Output = Some out\<rparr>"
proof -
  have pos: "st_FoldPosition st = ck_ConsumedTo c" using st c by (simp add: represents_def carried_def)
  obtain es where es: "replay_records cd (ck_ConsumedTo c) (checkpoint_state c) (ck_ConsumedTo c) rs = Inr (Some es)"
    "list_all2 same_event (in_Events i) es"
    using replay_records_same [OF restored_same [OF st c] run rs _ room, of "ck_ConsumedTo c"] pos i(2) by auto
  have "Reduce cd (replayed_input i es) = Inr out" using same_Reduce [OF i(3) _ es(2)] i(1) by simp
  moreover have "replayed_input i es = \<lparr>in_Prior = Some (ck_Snapshot c), in_Events = es, in_Policy = in_Policy i,
      in_PolicyComponents = in_PolicyComponents i, in_BootID = in_BootID i, in_PriorFolded = 0, in_PriorConsumed = 0,
      in_EvaluationTick = in_EvaluationTick i, in_Wake = in_Wake i\<rparr>"
    using i(1) by (simp add: replayed_input_def)
  ultimately show ?thesis
    using use es(1) by (simp add: Replay_def restored_valid [OF inv st c])
qed

section \<open>Verifying one link\<close>

lemma SealFrom_fields:
  assumes "SealFrom cd parent broken id' out from wake = Inr c"
  shows "carried c" "ck_Snapshot c = out_Snapshot out" "ck_Policy c = sn_Policy (out_Snapshot out)" "ck_Wake c = wake"
    "output_digests cd out = Inr (recorded_digests c)" "ck_ID c = id'" "Checkpoint_Validate cd c = None"
proof -
  obtain sd dd pd where d: "Snapshot_Digest cd (out_Snapshot out) = Inr sd" "Diff_Digest cd (out_Diff out) = Inr dd"
    "proposalsDigest cd (out_Proposals out) = Inr pd"
    using assms by (auto simp: SealFrom_def split: sum.splits)
  obtain c' where "Seal cd c' = Inr c" and c': "ck_ID c' = id'" "ck_Snapshot c' = out_Snapshot out" "ck_Policy c' = sn_Policy (out_Snapshot out)"
    "ck_Wake c' = wake" "ck_SourceWatermarks c' = sn_Sources (out_Snapshot out)"
    "ck_ConsumedTo c' = sn_ConsumedFoldPosition (out_Snapshot out)"
    "ck_SnapshotDigest c' = sd" "ck_DiffDigest c' = dd" "ck_ProposalsDigest c' = pd"
    using assms d by (auto simp: SealFrom_def Let_def split: option.splits)
  then obtain e where v: "Checkpoint_Validate cd c = None"
    and c: "c = c'\<lparr>ck_Schema := CheckpointSchema, ck_Version := CheckpointSchemaVersion, ck_Digest := e\<rparr>"
    using Seal_ok by blast
  show "carried c" "ck_Snapshot c = out_Snapshot out" "ck_Policy c = sn_Policy (out_Snapshot out)" "ck_Wake c = wake"
    "output_digests cd out = Inr (recorded_digests c)" "ck_ID c = id'" "Checkpoint_Validate cd c = None"
    using c' d v by (simp_all add: c [symmetric], simp_all add: c carried_def output_digests_def recorded_digests_def)
qed

lemma run_consecutive:
  assumes "run_steps (Accept cd) st xs = (outs, st')" "list_all2 journals (events_of (zip xs outs)) rs"
  shows "consecutive (st_FoldPosition st + 1) rs" "st_FoldPosition st' = st_FoldPosition st + of_nat (length rs)"
    "length rs \<le> length xs"
proof -
  have "consecutive (st_FoldPosition st + 1) rs \<and> st_FoldPosition st' = st_FoldPosition st + of_nat (length rs) \<and>
      length rs \<le> length xs"
    using assms
  proof (induction xs arbitrary: st outs rs)
    case (Cons x xs)
    obtain f auth where x: "x = (f, auth)" by fastforce
    obtain a err st1 outs1 where acc: "Accept cd st (f, auth) = ((a, err), st1)"
      and rest: "run_steps (Accept cd) st1 xs = (outs1, st')" and outs: "outs = (a, err) # outs1"
      using Cons.prems(1) x by (auto simp: Let_def split: prod.splits)
    show ?case
    proof (cases err)
      case (Some e)
      from acc Some have "st1 = st" by (cases rule: Accept_E) auto
      with Cons.IH [OF rest, of rs] Cons.prems Some x outs show ?thesis by auto
    next
      case None
      from acc None have "ac_FoldPosition a = st_FoldPosition st + 1" "st_FoldPosition st1 = st_FoldPosition st + 1"
        by (cases rule: Accept_E; auto)+
      with Cons.IH [OF rest, of "tl rs"] Cons.prems None x outs show ?thesis
        by (auto simp: list_all2_Cons1 journals_def algebra_simps)
    qed
  qed simp
  then show "consecutive (st_FoldPosition st + 1) rs" "st_FoldPosition st' = st_FoldPosition st + of_nat (length rs)"
    "length rs \<le> length xs" by auto
qed

lemma consecutive_bounds:
  assumes "consecutive (w + 1) rs" "unat w + length rs < 2 ^ 64" "r \<in> set rs"
  shows "w < jr_FoldPosition r \<and> jr_FoldPosition r \<le> w + of_nat (length rs)"
  using assms
proof (induction rs arbitrary: w)
  case (Cons q rs)
  have w: "unat (w + 1) = unat w + 1" using Cons.prems(2) by (simp add: unat_word_ariths)
  have len: "unat (w + of_nat (length (q # rs))) = unat w + length (q # rs)"
    using unat_add_of_nat [of w "length (q # rs)"] Cons.prems(2) by simp
  have eq: "w + 1 + of_nat (length rs) = w + of_nat (length (q # rs))" by (simp add: algebra_simps)
  show ?case
  proof (cases "r = q")
    case True
    with Cons.prems(1) have "jr_FoldPosition r = w + 1" by simp
    with w len show ?thesis by (simp add: word_less_nat_alt word_le_nat_alt)
  next
    case False
    with Cons.IH [of "w + 1"] Cons.prems w eq have "w + 1 < jr_FoldPosition r" "jr_FoldPosition r \<le> w + of_nat (length (q # rs))"
      by auto
    with w show ?thesis by (simp add: word_less_nat_alt word_le_nat_alt)
  qed
qed simp

lemma span_link:
  assumes "consecutive (w + 1) rs" "unat w + length rs < 2 ^ 64"
    and "\<forall>r\<in>set older. jr_FoldPosition r \<le> w" "\<forall>r\<in>set newer. w + of_nat (length rs) < jr_FoldPosition r"
  shows "span_records (older @ rs @ newer) w (w + of_nat (length rs)) = (rs, True)"
proof -
  let ?keep = "\<lambda>r. \<not> (jr_FoldPosition r \<le> w \<or> w + of_nat (length rs) < jr_FoldPosition r)"
  have "filter ?keep older = []" "filter ?keep newer = []" using assms(3,4) by (auto simp: filter_empty_conv)
  moreover have "filter ?keep rs = rs"
    using consecutive_bounds [OF assms(1,2)] by (fastforce intro!: filter_True)
  ultimately have "filter ?keep (older @ rs @ newer) = rs" by simp
  then show ?thesis using assms(1) unfolding span_records_def Let_def by simp
qed

lemma represents_in_sync: "represents st p \<Longrightarrow> in_Prior i = Some p \<Longrightarrow> in_sync st (fold_start i)"
  by (simp add: in_sync_def fold_start_def represents_def tracks_def map_of_newSourceTable)

lemma reduced_fold_position:
  assumes "represents st p" "in_Prior i = Some p" "run_steps (Accept cd) st xs = (outs, st')"
    and "in_Events i = events_of (zip xs outs)" "Reduce cd i = Inr out"
  shows "sn_ConsumedFoldPosition (out_Snapshot out) = st_FoldPosition st'" "sn_Policy (out_Snapshot out) = in_Policy i"
    "sn_BootID (out_Snapshot out) = in_BootID i" "sn_EvaluationTick (out_Snapshot out) = in_EvaluationTick i"
proof -
  obtain s changed where v: "validateInput i = None" and s: "reduce_events (fold_start i) (in_Events i) = Inr s"
    and out: "out_Snapshot out = (assemble i s (sn_Components (out_Snapshot out)))
       \<lparr>sn_Generation := (case in_Prior i of None \<Rightarrow> 1 | Some p \<Rightarrow> sn_Generation p + (if changed then 1 else 0))\<rparr>"
    using assms(5) by (rule Reduce_E)
  have "in_sync st' s"
    using in_sync_run [OF assms(3) represents_in_sync [OF assms(1,2)] fold_start_ok [OF v]] s assms(4) by auto
  then have "fo_folded s = st_FoldPosition st'" by (simp add: in_sync_def)
  then show "sn_ConsumedFoldPosition (out_Snapshot out) = st_FoldPosition st'" "sn_Policy (out_Snapshot out) = in_Policy i"
    "sn_BootID (out_Snapshot out) = in_BootID i" "sn_EvaluationTick (out_Snapshot out) = in_EvaluationTick i"
    by (subst out, simp)+
qed

text \<open>
  C36: An honest link verifies. Let a checkpoint be sealed from a reduction, let the acceptor then
  decide any arrivals, let the journals keep a record of each event it made of them (with older
  records before and newer ones after), and let the next checkpoint be sealed from the reduction of
  exactly those events onto the first. Then \<^verbatim>\<open>reproduce\<close> restores an acceptor from the parent's
  watermarks, re-accepts the records, reduces them again and reports the link as reproduced, with
  the three digests the checkpoint recorded.
\<close>

theorem honest_link_reproduced:
  assumes inv: "acceptor_inv st" "represents st (ck_Snapshot p)"
    and parent: "SealFrom cd grandparent broken pid pout pfrom pwake = Inr p"
    and run: "run_steps (Accept cd) st xs = (outs, st')" "unat (st_FoldPosition st) + length xs < 2 ^ 64"
    and input: "in_Prior i = Some (ck_Snapshot p)" "in_Events i = events_of (zip xs outs)" "Reduce cd i = Inr out"
    and child: "SealFrom cd (Some p) None cid out from (in_Wake i) = Inr c"
    and journal: "list_all2 journals (in_Events i) rs" "\<forall>r\<in>set older. jr_FoldPosition r \<le> ck_ConsumedTo p"
      "\<forall>r\<in>set newer. ck_ConsumedTo c < jr_FoldPosition r"
  shows "reproduce cd c p (older @ rs @ newer) (in_PolicyComponents i) =
    Inr (recorded_digests c, length rs, VerifyReproduced)"
proof -
  note p = SealFrom_fields(1) [OF parent] and c = SealFrom_fields [OF child]
  note out = reduced_fold_position [OF inv(2) input(1) run(1) input(2,3)]
  have rs: "list_all2 journals (events_of (zip xs outs)) rs" using journal(1) by (simp add: input(2))
  note folds = run_consecutive [OF run(1) rs]
  have lo: "ck_ConsumedTo p = st_FoldPosition st" using inv(2) p by (simp add: represents_def carried_def)
  have hi: "ck_ConsumedTo c = st_FoldPosition st + of_nat (length rs)"
    using c(1,2) out(1) folds(2) by (simp add: carried_def)
  have "span_records (older @ rs @ newer) (ck_ConsumedTo p) (ck_ConsumedTo c) = (rs, True)"
    unfolding lo hi by (rule span_link) (use folds run(2) journal(2,3) lo hi in auto)
  moreover have "\<not> ck_ConsumedTo c < ck_ConsumedTo p"
    using unat_add_of_nat [of "st_FoldPosition st" "length rs"] folds(3) run(2) by (simp add: lo hi word_less_nat_alt)
  moreover have "ck_Policy c = in_Policy i" "ck_Wake c = in_Wake i" "sn_BootID (ck_Snapshot c) = in_BootID i"
    "sn_EvaluationTick (ck_Snapshot c) = in_EvaluationTick i" using c(2-4) out by simp_all
  ultimately show ?thesis
    using replay_complete [OF inv p run(1) rs run(2) input] c(5) by (simp add: reproduce_def Usable_def)
qed

definition first_input :: Input where
  "first_input = sample_input\<lparr>in_Events := []\<rparr>"

definition next_input :: "Snapshot \<Rightarrow> Input" where
  "next_input s = sample_input\<lparr>in_Prior := Some s\<rparr>"

lemma flat_digests: "digests_wide flat_codec" "\<exists>x. CanonicalSHA256 flat_codec t = Inr x"
  by (simp_all add: digests_wide_def flat_codec_def CanonicalSHA256_def MarshalCanonical_def Canonicalize_def
      MaxCanonicalJSONSize_def)

lemma sample_identifiers: "checkpoint_identifier ''c1''" "checkpoint_identifier ''c2''"
  by (simp_all add: checkpoint_identifier_def lower_alnum_dash_def less_eq_char_def)

text \<open>A first reduction of nothing, sealed.\<close>

lemma first_checkpoint:
  "\<exists>pout p. SealFrom flat_codec None None ''c1'' pout 0 None = Inr p \<and> carries New (next_input (out_Snapshot pout)) \<and>
     represents New (out_Snapshot pout) \<and> parent_fits (Some p) ''c2''"
proof -
  have "carries New first_input" "input_ok first_input"
    using sample_carries by (simp_all add: first_input_def carries_def input_ok_def sample_input_def)
  then obtain pout where pout: "Reduce flat_codec first_input = Inr pout" "represents New (out_Snapshot pout)"
      "domains_ok (out_Snapshot pout)" "Snapshot_Validate (out_Snapshot pout) = None"
    using pipeline_batch [OF sample_carries(1), of first_input flat_codec "[]" "[]" New] flat_encodes
    by (auto simp: first_input_def)
  have gen: "sn_Generation (out_Snapshot pout) = 1" "sn_EvaluationTick (out_Snapshot pout) = 5"
    using pout(1) by (auto elim!: Reduce_E simp: first_input_def sample_input_def)
  obtain p where p: "SealFrom flat_codec None None ''c1'' pout 0 None = Inr p"
    using SealFrom_total [OF flat_digests(2,1) pout(4) _ sample_identifiers(1), of 0 None None None] gen
    by (auto simp: parent_fits_def break_fits_def)
  have "carries New (next_input (out_Snapshot pout))"
    using pout gen by (simp add: carries_def next_input_def sample_input_def)
  moreover have "parent_fits (Some p) ''c2''"
    using SealFrom_fields(6,7) [OF p] validated_digest [OF flat_digests(1)] sample_identifiers
    by (simp add: parent_fits_def)
  ultimately show ?thesis using p pout(2) by blast
qed

definition journal_record :: "Event \<Rightarrow> Record" where
  "journal_record e = \<lparr>jr_HostSequence = ac_HostSequence (ev_Acceptance e), jr_FoldPosition = ac_FoldPosition (ev_Acceptance e),
     jr_Outcome = ac_Outcome (ev_Acceptance e), jr_Role = ac_Role (ev_Acceptance e), jr_Digest = ac_Digest (ev_Acceptance e),
     jr_Fact = ev_Fact e\<rparr>"

theorem honest_link_reproduced_witness:
  "\<exists>p c. reproduce flat_codec c p (map journal_record (in_Events sample_input)) [] =
     Inr (recorded_digests c, 2, VerifyReproduced)"
proof -
  obtain pout p where p: "SealFrom flat_codec None None ''c1'' pout 0 None = Inr p"
    "carries New (next_input (out_Snapshot pout))" "represents New (out_Snapshot pout)" "parent_fits (Some p) ''c2''"
    using first_checkpoint by blast
  let ?i = "next_input (out_Snapshot pout)"
  obtain outs st' where run: "run_steps (Accept flat_codec) New sample_arrivals = (outs, st')" by force
  have es: "in_Events ?i = events_of (zip sample_arrivals outs)" by (simp add: next_input_def sample_input_def run)
  have "input_ok ?i" using sample_carries(3) by (simp add: input_ok_def next_input_def)
  then obtain out where out: "Reduce flat_codec ?i = Inr out" "Snapshot_Validate (out_Snapshot out) = None"
    using pipeline_batch [OF sample_carries(1) p(2) _ run es] flat_encodes by auto
  have "sn_Generation (out_Snapshot out) \<noteq> 0" using out(2) by (simp add: Snapshot_Validate_None_iff)
  from SealFrom_total [OF flat_digests(2,1) out(2) this sample_identifiers(2) _ p(4), of 0 None "in_Wake ?i"]
  obtain c where c: "SealFrom flat_codec (Some p) None ''c2'' out 0 (in_Wake ?i) = Inr c"
    by (auto simp: break_fits_def)
  have p': "ck_Snapshot p = out_Snapshot pout" by (rule SealFrom_fields(2) [OF p(1)])
  have "list_all2 journals (in_Events ?i) (map journal_record (in_Events ?i))"
    by (simp add: list_all2_conv_all_nth journals_def journal_record_def)
  moreover have "length (in_Events sample_input) = 2" by code_simp
  moreover have "in_Events ?i = in_Events sample_input" "in_PolicyComponents ?i = []" "in_Prior ?i = Some (out_Snapshot pout)"
    by (simp_all add: next_input_def sample_input_def)
  moreover have "unat (st_FoldPosition New) + length sample_arrivals < 2 ^ 64" by (simp add: New_def sample_arrivals_def)
  ultimately have "reproduce flat_codec c p (map journal_record (in_Events sample_input)) [] =
      Inr (recorded_digests c, 2, VerifyReproduced)"
    using honest_link_reproduced [OF sample_carries(1) _ p(1) run _ _ es out(1) c,
        where older = "[]" and newer = "[]" and rs = "map journal_record (in_Events sample_input)"]
      p(3) p' by simp
  then show ?thesis by blast
qed

text \<open>
  A replay is one reduction, so it never reaches a snapshot two generations ahead of the parent. A
  runtime whose checkpoint was refused after an effective reduction keeps the snapshot but not the
  link, and its next checkpoint is such a one.
\<close>

lemma replay_one_generation:
  assumes "Replay cd i = Inr r" "rr_Output r = Some out" "rs_Checkpoint (ri_Resume i) = Some p"
  shows "sn_Generation (out_Snapshot out) \<in> {sn_Generation (ck_Snapshot p), sn_Generation (ck_Snapshot p) + 1}"
proof -
  obtain j where "Reduce cd j = Inr out" "in_Prior j = Some (ck_Snapshot p)"
    using assms by (fastforce simp: Replay_def replay_result_def split: if_splits option.splits sum.splits)
  then show ?thesis by (auto elim!: Reduce_E)
qed

end
