(* ===== verification/Runtime_Laws.thy ===== *)
theory Runtime_Laws
  imports Runtime Replay_Laws
begin

text \<open>
  The runtime as one machine: its acceptor, its pending events and its snapshot are in step, and
  every publication the journals take and every tick keeps them so.
\<close>

section \<open>The invariant\<close>

text \<open>
  The pending events are what the acceptor made of the arrivals since the state \<open>st\<close> that the
  snapshot (or, before the first reduction, the two watermarks) carries.
\<close>

definition in_step :: "State \<Rightarrow> Runtime \<Rightarrow> bool" where
  "in_step st rt \<longleftrightarrow> ru_consumed rt = st_FoldPosition st \<and> ru_accepted rt = st_HostSequence st \<and>
     (case ru_snapshot rt of
        None \<Rightarrow> st_Sources st = []
      | Some p \<Rightarrow> represents st p \<and> domains_ok p \<and> Snapshot_Validate p = None)"

definition runtime_ok :: "codec \<Rightarrow> Runtime \<Rightarrow> bool" where
  "runtime_ok cd rt \<longleftrightarrow> (\<exists>st xs outs. acceptor_inv st \<and> in_step st rt \<and>
     run_steps (Accept cd) st xs = (outs, ru_acceptor rt) \<and> ru_pending rt = events_of (zip xs outs))"

lemma run_steps_snoc:
  assumes "run_steps step s is = (outs, s')" "step s' i = (x, t)"
  shows "run_steps step s (is @ [i]) = (outs @ [x], t)"
  using assms by (simp add: run_steps_append)

lemma events_of_append: "events_of (xs @ ys) = events_of xs @ events_of ys"
  by (induction xs) (auto simp: events_of_def map_filter_def)

lemma in_step_cong:
  "ru_consumed rt = ru_consumed rt' \<Longrightarrow> ru_accepted rt = ru_accepted rt' \<Longrightarrow> ru_snapshot rt = ru_snapshot rt' \<Longrightarrow>
     in_step st rt = in_step st rt'"
  by (simp add: in_step_def)

text \<open>One more arrival, queued if it was not refused.\<close>

lemma runtime_ok_arrival:
  assumes ok: "runtime_ok cd rt" and a: "Accept cd (ru_acceptor rt) x = ((a, err), st')"
    and rt': "ru_acceptor rt' = st'" "ru_pending rt' = ru_pending rt @
        (if err = None then [\<lparr>ev_Acceptance = a, ev_Fact = fst x\<rparr>] else [])"
      "ru_consumed rt' = ru_consumed rt" "ru_accepted rt' = ru_accepted rt" "ru_snapshot rt' = ru_snapshot rt"
  shows "runtime_ok cd rt'"
proof -
  obtain st xs outs where st: "acceptor_inv st" "in_step st rt" "run_steps (Accept cd) st xs = (outs, ru_acceptor rt)"
    "ru_pending rt = events_of (zip xs outs)"
    using ok by (auto simp: runtime_ok_def)
  have len: "length outs = length xs" using st(3) length_run_steps [of "Accept cd" st xs] by simp
  have "events_of (zip (xs @ [x]) (outs @ [(a, err)])) = ru_pending rt'"
    using len st(4) rt'(2) by (cases x) (simp add: events_of_append)
  moreover have "run_steps (Accept cd) st (xs @ [x]) = (outs @ [(a, err)], ru_acceptor rt')"
    using run_steps_snoc [OF st(3) a] rt'(1) by simp
  moreover have "in_step st rt'" using st(2) rt' by (simp add: in_step_def)
  ultimately show ?thesis using st(1) unfolding runtime_ok_def by metis
qed

lemma accepted_outcome: "Accept cd st x = ((a, None), st') \<Longrightarrow> ac_Outcome a \<noteq> OutcomeRejected"
  by (cases x) (auto elim!: Accept_E dest!: decide_result(1) simp: go_consts)

section \<open>Publishing keeps it\<close>

lemma publish_facts_ok:
  assumes "runtime_ok cd rt" "publish_facts cd sp d rt report fs = ((report', None), rt')"
  shows "runtime_ok cd rt'"
  using assms
proof (induction fs arbitrary: rt report)
  case (Cons f fs)
  obtain a err st where a: "Accept cd (ru_acceptor rt) (f, d) = ((a, err), st)" by (metis surj_pair)
  show ?case
  proof (cases err)
    case (Some e)
    have "runtime_ok cd (rt\<lparr>ru_acceptor := st\<rparr>)"
      by (rule runtime_ok_arrival [OF Cons.prems(1) a]) (simp_all add: Some)
    with Cons.IH Cons.prems(2) a Some show ?thesis by auto
  next
    case None
    note out = accepted_outcome [OF a [unfolded None]]
    obtain jerr j where j: "Journal_Append cd sp (the (map_of (ru_journals rt) d)) f (ac_HostSequence a)
        (ac_FoldPosition a) (ac_Outcome a) (ac_Role a) = (jerr, j)" by fastforce
    let ?rt = "queue_event (rt\<lparr>ru_acceptor := st, ru_journals := AList.update d j (ru_journals rt)\<rparr>) a f"
    have "jerr = None" using Cons.prems(2) a None out j by (cases jerr) (auto simp: Let_def)
    then have "publish_facts cd sp d ?rt (count_outcome (ac_Outcome a) report) fs = ((report', None), rt')"
      using Cons.prems(2) a None out j by (simp add: Let_def)
    moreover have "runtime_ok cd ?rt"
      by (rule runtime_ok_arrival [OF Cons.prems(1) a]) (use out None in \<open>simp_all add: queue_event_def\<close>)
    ultimately show ?thesis using Cons.IH by blast
  qed
qed simp

lemma publish_keeps:
  assumes "runtime_ok cd rt" "Publish cd sp rt fs d = ((report, None), rt')"
  shows "runtime_ok cd rt'"
  using assms publish_facts_ok by (auto simp: Publish_def split: if_splits)

section \<open>Ticking keeps it\<close>

lemma reduced_carries:
  assumes carries: "carries st i" and run: "run_steps (Accept cd) st xs = (outs, st')"
    and events: "in_Events i = events_of (zip xs outs)" and out: "Reduce cd i = Inr out"
  shows "represents st' (out_Snapshot out) \<and> domains_ok (out_Snapshot out) \<and> Snapshot_Validate (out_Snapshot out) = None"
proof -
  obtain s changed where v: "validateInput i = None" and s: "reduce_events (fold_start i) (in_Events i) = Inr s"
    and ok: "fold_ok s" and comps: "sn_Components (out_Snapshot out) =
       map (\<lambda>c. render_component (the (map_of (fo_components s) c)) (fo_sources s) i) Components"
    and sn: "out_Snapshot out = (assemble i s (sn_Components (out_Snapshot out)))
       \<lparr>sn_Generation := (case in_Prior i of None \<Rightarrow> 1 | Some p \<Rightarrow> sn_Generation p + (if changed then 1 else 0))\<rparr>"
    and valid: "Snapshot_Validate (out_Snapshot out) = None"
    using out by (rule Reduce_E)
  have "in_sync st' s"
    using in_sync_run [OF run carries_in_sync [OF carries] fold_start_ok [OF v]] s events by auto
  then have "represents st' (out_Snapshot out)"
    by (subst sn) (rule in_sync_represents, use ok in \<open>simp_all add: fold_ok_def\<close>)
  moreover have "domains_ok (out_Snapshot out)"
    using folded_domains [OF carries v s] by (auto simp: domains_ok_def comps)
  ultimately show ?thesis using valid by blast
qed

text \<open>The tick context: what \<^verbatim>\<open>Tick\<close> is given is well formed and time does not run backwards in a boot.\<close>

definition context_ok :: "Runtime \<Rightarrow> TickInput \<Rightarrow> bool" where
  "context_ok rt t \<longleftrightarrow> (\<forall>p. ru_snapshot rt = Some p \<longrightarrow> sn_Generation p + 1 \<noteq> 0 \<and>
     (sn_BootID p = ru_bootID rt \<longrightarrow> sn_EvaluationTick p \<le> ti_EvaluationTick t))"

lemma in_step_carries:
  assumes "in_step st rt" "context_ok rt t"
  shows "carries st (tick_input rt t)"
  using assms by (cases "ru_snapshot rt") (auto simp: carries_def in_step_def context_ok_def tick_input_def)

lemma Tick_state:
  assumes "Tick cd os uuid rt t = ((Some out, err), rt')"
  shows "Reduce cd (tick_input rt t) = Inr out" "ru_pending rt' = []" "ru_snapshot rt' = Some (out_Snapshot out)"
    "ru_consumed rt' = sn_ConsumedFoldPosition (out_Snapshot out)" "ru_accepted rt' = sn_ConsumedHostSequence (out_Snapshot out)"
    "ru_acceptor rt' = ru_acceptor rt"
  using assms
  by (auto simp: Tick_def store_output_def adopt_output_def Let_def split: if_splits sum.splits option.splits prod.splits)

lemma tick_keeps:
  assumes ok: "runtime_ok cd rt" and t: "context_ok rt t" and tick: "Tick cd os uuid rt t = ((out, err), rt')"
  shows "runtime_ok cd rt'"
proof (cases out)
  case None
  with tick have "rt' = rt" by (auto simp: Tick_def split: if_splits sum.splits prod.splits)
  with ok show ?thesis by simp
next
  case (Some o')
  note st = Tick_state [OF tick [unfolded Some]]
  obtain s xs outs where s: "acceptor_inv s" "in_step s rt" "run_steps (Accept cd) s xs = (outs, ru_acceptor rt)"
    "ru_pending rt = events_of (zip xs outs)"
    using ok by (auto simp: runtime_ok_def)
  have "in_Events (tick_input rt t) = events_of (zip xs outs)" using s(4) by (simp add: tick_input_def)
  from reduced_carries [OF in_step_carries [OF s(2) t] s(3) this st(1)] st
  have "in_step (ru_acceptor rt) rt'" by (auto simp: in_step_def represents_def)
  moreover have "acceptor_inv (ru_acceptor rt)" using acceptor_sound.run_inv [OF s(1), of cd xs] s(3) by simp
  ultimately show ?thesis using st(2,6) unfolding runtime_ok_def
    by (intro exI [of _ "ru_acceptor rt"] exI [of _ "[]"]) simp
qed

end
