(* ===== verification/Service.thy ===== *)
theory Service
  imports Runtime_Laws Store_Laws
begin

text \<open>
  The runtime from its start: New resumes an honest lineage, or starts from nothing, into a state
  in step with its journals; publications and ticks keep it so; and every tick of such a service
  reduces. Then the three places where a failed write or a restart takes it out of step.
\<close>

section \<open>Starting establishes it\<close>

text \<open>A checkpoint some acceptor and reducer made: its snapshot carries a state of the acceptor.\<close>

definition honest :: "Checkpoint \<Rightarrow> bool" where
  "honest c \<longleftrightarrow> carried c \<and> domains_ok (ck_Snapshot c) \<and> (\<exists>st. acceptor_inv st \<and> represents st (ck_Snapshot c))"

definition honest_disk :: "Disk \<Rightarrow> bool" where
  "honest_disk dk \<longleftrightarrow> (\<forall>id' c. dk_checkpoints dk id' = Some (Content c) \<longrightarrow> honest c)"

lemma honest_restored:
  assumes "honest c"
  shows "Restore (checkpoint_state c) = Inr (checkpoint_state c)" "acceptor_inv (checkpoint_state c)"
    "represents (checkpoint_state c) (ck_Snapshot c)"
proof -
  obtain st where st: "acceptor_inv st" "represents st (ck_Snapshot c)" and c: "carried c"
    using assms by (auto simp: honest_def)
  note same = restored_same [OF st(2) c]
  show r: "Restore (checkpoint_state c) = Inr (checkpoint_state c)"
    using restored_valid [OF st c] by (auto simp: restoreAcceptor_def split: sum.splits)
  have d: "distinct (map wm_Source (ck_SourceWatermarks c))" using st c by (simp add: represents_def carried_def)
  then have dist: "distinct (map fst (st_Sources (checkpoint_state c)))"
    using restored_sources(2) [OF d, of "[]"] by (simp add: checkpoint_state_def)
  have "distinct (ss_PendingBaseline t)" if "(i, t) \<in> set (st_Sources (checkpoint_state c))" for i t
  proof -
    have "map_of (st_Sources (checkpoint_state c)) i = Some t" using dist that by simp
    moreover have "map_option (normal_integrity \<circ> integrityOf) (map_of (st_Sources st) i) =
        map_option (normal_integrity \<circ> integrityOf) (map_of (st_Sources (checkpoint_state c)) i)"
      using same by (simp add: same_state_def)
    ultimately obtain s where s: "map_of (st_Sources st) i = Some s" "same_source s t"
      by (cases "map_of (st_Sources st) i") (simp_all add: same_source_def)
    then have "distinct (ss_PendingBaseline s)"
      using st(1) by (auto simp: acceptor_inv_def pending_once_def dest: map_of_SomeD)
    with s(2) show ?thesis using mset_eq_imp_distinct_iff by (auto simp: same_source_iff)
  qed
  moreover have "State_Validate (checkpoint_state c) = None" using r by (simp add: Restore_def split: option.splits)
  ultimately show "acceptor_inv (checkpoint_state c)" by (auto simp: acceptor_inv_def pending_once_def)
  show "represents (checkpoint_state c) (ck_Snapshot c)"
    using st(2) same by (auto simp: represents_def same_state_def tracks_def)
qed

lemma reaccept_ok: "runtime_ok cd rt \<Longrightarrow> reaccept cd rt rs = Inr rt' \<Longrightarrow> runtime_ok cd rt'"
proof (induction rs arbitrary: rt)
  case (Cons r rs)
  obtain a st where a: "Accept cd (ru_acceptor rt) (jr_Fact r, f_Domain (jr_Fact r)) = ((a, None), st)"
    "reaccept cd (rt\<lparr>ru_acceptor := st, ru_pending := ru_pending rt @ [\<lparr>ev_Acceptance = a, ev_Fact = jr_Fact r\<rparr>]\<rparr>) rs = Inr rt'"
    using Cons.prems(2) by (auto split: prod.splits option.splits if_splits)
  show ?case by (rule Cons.IH [OF _ a(2)], rule runtime_ok_arrival [OF Cons.prems(1) a(1)]) simp_all
qed simp

lemma reaccept_keeps: "reaccept cd rt rs = Inr rt' \<Longrightarrow> ru_enabled rt' = ru_enabled rt \<and> ru_bootID rt' = ru_bootID rt"
  by (induction rs arbitrary: rt) (auto split: prod.splits option.splits if_splits)

lemma start_resumed_ok:
  assumes c: "honest c" "Snapshot_Validate (ck_Snapshot c) = None" and rt: "ru_pending rt = []"
    and s: "start_resumed cd arrange rt c = Inr rt'"
  shows "runtime_ok cd rt' \<and> ru_enabled rt' = ru_enabled rt \<and> ru_bootID rt' = ru_bootID rt"
proof -
  let ?rt = "rt\<lparr>ru_snapshot := Some (ck_Snapshot c), ru_parent := Some c,
      ru_consumed := sn_ConsumedFoldPosition (ck_Snapshot c), ru_accepted := sn_ConsumedHostSequence (ck_Snapshot c),
      ru_acceptor := checkpoint_state c\<rparr>"
  note r = honest_restored [OF c(1)]
  have "in_step (checkpoint_state c) ?rt"
    using r(3) c by (simp add: in_step_def honest_def represents_def)
  then have "runtime_ok cd ?rt" using r(2) rt unfolding runtime_ok_def
    by (intro exI [of _ "checkpoint_state c"] exI [of _ "[]"]) simp
  moreover obtain rs where "reaccept cd ?rt rs = Inr rt'"
    using s r(1) by (auto simp: start_resumed_def resumeUnfolded_def Let_def split: sum.splits)
  ultimately show ?thesis using reaccept_ok reaccept_keeps [of cd ?rt rs rt'] by fastforce
qed

lemma start_fresh_ok:
  assumes s: "start_fresh rt = Inr rt'" and rt: "ru_pending rt = []" "ru_snapshot rt = None"
  shows "runtime_ok cd rt' \<and> ru_enabled rt' = ru_enabled rt \<and> ru_bootID rt' = ru_bootID rt"
proof -
  obtain issued folded where f: "ru_acceptor rt' = \<lparr>st_HostSequence = issued, st_FoldPosition = folded, st_Sources = []\<rparr>"
    "ru_consumed rt' = folded" "ru_accepted rt' = issued" "ru_pending rt' = []" "ru_snapshot rt' = None"
    "ru_enabled rt' = ru_enabled rt" "ru_bootID rt' = ru_bootID rt"
    using s rt by (auto simp: start_fresh_def Let_def Restore_def State_Validate_def State_Clone_def
        split: sum.splits checkpoint_error.splits)
  have "acceptor_inv (ru_acceptor rt')" by (simp add: f(1) acceptor_inv_def State_Validate_def pending_once_def)
  then have "runtime_ok cd rt'" using f unfolding runtime_ok_def
    by (intro exI [of _ "ru_acceptor rt'"] exI [of _ "[]"]) (simp add: in_step_def)
  with f show ?thesis by simp
qed

lemma resumed_loads:
  assumes r: "Store_Resume cd so os dk = Inr r" and c: "Usable r" "rs_Checkpoint r = Some c"
  shows "\<exists>id'. Store_Load cd dk id' = Inr c"
proof -
  obtain entries where e: "indexLocked os dk = Inr entries" using indexLocked_sane [OF r] by blast
  have "\<exists>ov es. first_provable cd so dk ov es c"
  proof (cases "pointerLocked dk")
    case (Inl err)
    with r obtain st why initial where "resume_without_pointer cd so os dk st why initial = Inr r"
      "st \<noteq> ResumeLatest" "st \<noteq> ResumeAncestor"
      by (cases err) (auto simp: Store_Resume_def)
    from resume_without_pointer_first [OF this(1) e this(2,3), of c] c show ?thesis by blast
  next
    case (Inr p)
    from resume_with_pointer_first [OF r Inr e, of c] c show ?thesis by blast
  qed
  then show ?thesis by (auto simp: first_provable_def provable_def)
qed

lemma new_ok:
  assumes new: "Runtime_New cd arrange os op = Inr rt" and on: "op_Enabled op"
    and disk: "\<And>so dk. op_Checkpoints op = Some (so, dk) \<Longrightarrow> honest_disk dk"
  shows "runtime_ok cd rt \<and> ru_enabled rt \<and> ru_bootID rt \<noteq> ''''"
proof -
  obtain so dk root r where o: "op_Checkpoints op = Some (so, dk)" "op_RootJournal op = Some root" "op_BootID op \<noteq> ''''"
    and r: "Store_Resume cd so os dk = Inr r"
    using new on by (auto simp: Runtime_New_def Let_def split: if_splits option.splits prod.splits sum.splits)
  let ?rt = "(blank_runtime op)\<lparr>ru_journals := (DomainRoot, root) #
      (case op_UserJournal op of None \<Rightarrow> [] | Some user \<Rightarrow> [(DomainUser, user)]), ru_resume := r\<rparr>"
  have blank: "ru_pending ?rt = []" "ru_snapshot ?rt = None" "ru_enabled ?rt" "ru_bootID ?rt = op_BootID op"
    using on by (simp_all add: blank_runtime_def)
  show ?thesis
  proof (cases "Usable r")
    case True
    then obtain c where c: "rs_Checkpoint r = Some c" by (auto simp: Usable_def)
    obtain id' where l: "Store_Load cd dk id' = Inr c" using resumed_loads [OF r True c] by blast
    then have "dk_checkpoints dk id' = Some (Content c)" "Checkpoint_Validate cd c = None"
      by (auto simp: Store_Load_def readJSON_def split: if_splits sum.splits option.splits stored.splits)
    then have "honest c" "Snapshot_Validate (ck_Snapshot c) = None"
      using disk [OF o(1)] Checkpoint_Validate_None(2) by (auto simp: honest_disk_def)
    moreover have "start_resumed cd arrange ?rt c = Inr rt"
      using new on o r True c by (auto simp: Runtime_New_def Let_def split: if_splits)
    ultimately show ?thesis using start_resumed_ok [OF _ _ blank(1)] blank o(3) by metis
  next
    case False
    then have "start_fresh ?rt = Inr rt"
      using new on o r by (auto simp: Runtime_New_def Let_def split: if_splits)
    from start_fresh_ok [OF this blank(1,2)] blank o(3) show ?thesis by metis
  qed
qed

section \<open>The service\<close>

text \<open>
  What the journals hold beyond a watermark continues it without a hole: merged in fold order the
  records carry consecutive positions. A resuming runtime folds what it reads either way.
\<close>

definition unbroken :: "(domain \<times> Journal) list \<Rightarrow> u64 \<Rightarrow> bool" where
  "unbroken js watermark \<longleftrightarrow> (\<forall>records. retained_after js watermark = Inr records \<longrightarrow>
     consecutive (watermark + 1) (sort_slice jr_FoldPosition records))"

text \<open>
  A runtime that \<^verbatim>\<open>New\<close> started over an honest lineage which the journals continue, and that has only
  seen publications the journals took, reports of the user link, and ticks, failed ones and failed
  checkpoints included.
\<close>

inductive serves :: "codec \<Rightarrow> Runtime \<Rightarrow> bool" for cd where
  serves_new: "Runtime_New cd arrange os op = Inr rt \<Longrightarrow> op_Enabled op \<Longrightarrow>
     (\<forall>so dk. op_Checkpoints op = Some (so, dk) \<longrightarrow> honest_disk dk) \<Longrightarrow>
     (\<forall>c. ru_parent rt = Some c \<longrightarrow> unbroken (ru_journals rt) (ck_ConsumedTo c)) \<Longrightarrow> serves cd rt"
| serves_publish: "serves cd rt \<Longrightarrow> Publish cd sp rt fs d = ((report, None), rt') \<Longrightarrow> serves cd rt'"
| serves_link: "serves cd rt \<Longrightarrow> serves cd (SetUserLink rt state)"
| serves_tick: "serves cd rt \<Longrightarrow> context_ok rt t \<Longrightarrow> Tick cd os uuid rt t = (r, rt') \<Longrightarrow> serves cd rt'"

definition started :: "Runtime \<Rightarrow> bool" where
  "started rt \<longleftrightarrow> ru_enabled rt \<and> ru_bootID rt \<noteq> ''''"

lemma runtime_ok_link: "runtime_ok cd rt \<Longrightarrow> runtime_ok cd (SetUserLink rt state)"
  by (simp add: runtime_ok_def SetUserLink_def in_step_def)

lemma publish_facts_preserves:
  assumes acceptor: "\<And>rt st. P rt \<Longrightarrow> P (rt\<lparr>ru_acceptor := st\<rparr>)"
    and journals: "\<And>rt js. P rt \<Longrightarrow> P (rt\<lparr>ru_journals := js\<rparr>)"
    and pending: "\<And>rt es. P rt \<Longrightarrow> P (rt\<lparr>ru_pending := ru_pending rt @ es\<rparr>)"
  shows "P rt \<Longrightarrow> P (snd (publish_facts cd sp d rt report fs))"
proof (induction fs arbitrary: rt report)
  case (Cons f fs)
  obtain a err st where a: "Accept cd (ru_acceptor rt) (f, d) = ((a, err), st)" by (metis surj_pair)
  have q: "P rt \<Longrightarrow> P (queue_event rt a f)" for rt using pending by (simp add: queue_event_def)
  obtain jerr j where j: "Journal_Append cd sp (the (map_of (ru_journals rt) d)) f (ac_HostSequence a)
      (ac_FoldPosition a) (ac_Outcome a) (ac_Role a) = (jerr, j)" by fastforce
  show ?case using a j acceptor [OF Cons.prems] journals [OF acceptor [OF Cons.prems]] Cons.IH q
    by (cases err; cases jerr) (simp_all add: Let_def)
qed simp

lemma publish_started: "started rt \<Longrightarrow> started (snd (publish_facts cd sp d rt report fs))"
  by (erule publish_facts_preserves [rotated -1]) (simp_all add: started_def)

lemma tick_started: "Tick cd os uuid rt t = (r, rt') \<Longrightarrow> started rt \<Longrightarrow> started rt'"
  by (auto simp: Tick_def store_output_def adopt_output_def started_def Let_def
      split: if_splits sum.splits option.splits prod.splits)

lemma serves_ok: "serves cd rt \<Longrightarrow> runtime_ok cd rt \<and> started rt"
proof (induction rule: serves.induct)
  case (serves_new arrange os op rt)
  with new_ok show ?case by (auto simp: started_def)
next
  case (serves_publish rt sp fs d report rt')
  have "started (snd (Publish cd sp rt fs d))" using serves_publish.IH
    by (simp add: Publish_def publish_started)
  with serves_publish show ?case using publish_keeps by auto
next
  case (serves_link rt state)
  then show ?case using runtime_ok_link by (auto simp: started_def SetUserLink_def)
next
  case (serves_tick rt t os uuid r rt')
  then show ?case using tick_keeps tick_started by (cases r) blast
qed

text \<open>
  C38: the read model keeps serving. Start a runtime over an honest lineage that its journals continue
  without a hole, or over nothing, and give it only publications the journals take. However its
  earlier ticks and checkpoints ended, its next tick in a well-formed context (a positive tick that
  does not run backwards within the boot, valid policy entries, room for a generation, encodable
  trees) returns a reduction, and the snapshot it then holds carries exactly the acceptor's state, with
  nothing left pending. The next property shows what a publication does that a journal refused.
\<close>

theorem service_reduces:
  assumes "serves cd rt" "context_ok rt t"
    and "ti_EvaluationTick t > 0" "\<forall>w. ti_Wake t = Some w \<longrightarrow> wk_Tick w > 0" "entries_ok (ti_PolicyComponents t)"
    and "\<forall>x\<in>reduction_trees (tick_input rt t). encodable cd x" "\<forall>x. length (cd_sha256 cd x) = 64"
  shows "\<exists>out err rt'. Tick cd os uuid rt t = ((Some out, err), rt') \<and> ru_snapshot rt' = Some (out_Snapshot out) \<and>
    represents (ru_acceptor rt) (out_Snapshot out) \<and> ru_pending rt' = [] \<and> serves cd rt'"
proof -
  have ok: "runtime_ok cd rt" "started rt" using serves_ok [OF assms(1)] by auto
  then obtain st xs outs where st: "acceptor_inv st" "in_step st rt" "run_steps (Accept cd) st xs = (outs, ru_acceptor rt)"
    "ru_pending rt = events_of (zip xs outs)" by (auto simp: runtime_ok_def)
  have "input_ok (tick_input rt t)" "in_Events (tick_input rt t) = events_of (zip xs outs)"
    using assms(3-5) ok(2) st(4) by (simp_all add: input_ok_def tick_input_def started_def)
  from pipeline_batch [OF st(1) in_step_carries [OF st(2) assms(2)] this(1) st(3) this(2) assms(6,7)]
  obtain out where out: "Reduce cd (tick_input rt t) = Inr out" "represents (ru_acceptor rt) (out_Snapshot out)" by blast
  obtain err rt' where "store_output cd os uuid (adopt_output rt out) (ru_consumed rt) t out = (err, rt')" by fastforce
  with out(1) ok(2) have tick: "Tick cd os uuid rt t = ((Some out, err), rt')" by (simp add: Tick_def started_def)
  from Tick_state [OF tick] serves_tick [OF assms(1,2) tick] tick out(2) show ?thesis by blast
qed

section \<open>A sample service\<close>

definition sample_journal :: Journal where
  "sample_journal = \<lparr>jo_domain = DomainRoot, jo_listable = True, jo_entries = [], jo_mirror = None, jo_mirrorFailures = 0\<rparr>"

definition sample_options :: RuntimeOptions where
  "sample_options = \<lparr>op_Enabled = True, op_Preconditions = \<lparr>pc_AtomicPolicyStartup = True, pc_DomainMismatch = True,
     pc_Suspension = True, pc_RedactedStatus = True\<rparr>, op_BootID = ''boot-1'',
     op_Checkpoints = Some (sample_store, Disk_none), op_RootJournal = Some sample_journal, op_UserJournal = None,
     op_Random = True\<rparr>"

definition sample_runtime :: Runtime where
  "sample_runtime = (case Runtime_New flat_codec (\<lambda>rs. rs) calm sample_options of Inr rt \<Rightarrow> rt | Inl _ \<Rightarrow> blank_runtime sample_options)"

definition sample_spool :: spool where "sample_spool = (\<lambda>es r. Inr (es @ [Ours r]))"

definition full_spool :: spool where "full_spool = (\<lambda>es r. Inl (ErrSpool ''no space''))"

definition sample_tick :: TickInput where
  "sample_tick = \<lparr>ti_Policy = sample_policy, ti_PolicyComponents = [], ti_EvaluationTick = 5, ti_Wake = None\<rparr>"

lemma sample_starts: "Runtime_New flat_codec (\<lambda>rs. rs) calm sample_options = Inr sample_runtime"
proof -
  have "case Runtime_New flat_codec (\<lambda>rs. rs) calm sample_options of Inl _ \<Rightarrow> False | Inr _ \<Rightarrow> True" by code_simp
  then show ?thesis by (simp add: sample_runtime_def split: sum.splits)
qed

lemma sample_serves: "serves flat_codec sample_runtime"
proof (rule serves_new [OF sample_starts])
  have "ru_parent sample_runtime = None" by code_simp
  then show "\<forall>c. ru_parent sample_runtime = Some c \<longrightarrow> unbroken (ru_journals sample_runtime) (ck_ConsumedTo c)" by simp
qed (simp_all add: sample_options_def honest_disk_def Disk_none_def)

lemma sample_publish:
  "fst (Publish flat_codec sample_spool sample_runtime [sample_fact 1 True, sample_fact 4 True] DomainRoot) =
     (Report_zero\<lparr>re_Accepted := 2, re_Watermark := 2\<rparr>, None)"
  by code_simp

theorem service_reduces_witness:
  "\<exists>out err rt'. Tick flat_codec calm None
     (snd (Publish flat_codec sample_spool sample_runtime [sample_fact 1 True, sample_fact 4 True] DomainRoot)) sample_tick =
       ((Some out, err), rt') \<and> ru_pending rt' = []"
proof -
  let ?p = "Publish flat_codec sample_spool sample_runtime [sample_fact 1 True, sample_fact 4 True] DomainRoot"
  have "?p = ((Report_zero\<lparr>re_Accepted := 2, re_Watermark := 2\<rparr>, None), snd ?p)"
    using sample_publish by (metis prod.collapse)
  from serves_publish [OF sample_serves this] have s: "serves flat_codec (snd ?p)" .
  have "ru_snapshot (snd ?p) = None" by code_simp
  then have "context_ok (snd ?p) sample_tick" by (simp add: context_ok_def)
  from service_reduces [OF s this] show ?thesis
    using flat_encodes by (fastforce simp: sample_tick_def entries_ok_def)
qed

section \<open>Out of step\<close>

text \<open>
  An event whose journal append failed has taken a fold position but is not pending. Once a later
  event is queued, the pending positions no longer continue the snapshot's.
\<close>

fun continues :: "u64 \<Rightarrow> Event list \<Rightarrow> bool" where
  "continues position [] = True"
| "continues position (e # es) =
     (ac_FoldPosition (ev_Acceptance e) = position + 1 \<and> continues (ac_FoldPosition (ev_Acceptance e)) es)"

definition folded_position :: "Runtime \<Rightarrow> u64" where
  "folded_position rt = (case ru_snapshot rt of None \<Rightarrow> ru_consumed rt | Some p \<Rightarrow> sn_ConsumedFoldPosition p)"

definition jammed :: "Runtime \<Rightarrow> bool" where
  "jammed rt \<longleftrightarrow> ru_enabled rt \<and> \<not> continues (folded_position rt) (ru_pending rt)"

lemma continues_append: "\<not> continues position es \<Longrightarrow> \<not> continues position (es @ es')"
  by (induction position es rule: continues.induct) auto

lemma reduced_position: "reduce_event s e = Inr s' \<Longrightarrow>
    ac_FoldPosition (ev_Acceptance e) = fo_folded s + 1 \<and> fo_folded s' = ac_FoldPosition (ev_Acceptance e)"
  by (auto simp: reduce_event_def applyAccepted_def applyConflict_def Let_def
      split: if_splits option.splits sum.splits prod.splits)

lemma reduced_continues: "reduce_events s es = Inr s' \<Longrightarrow> continues (fo_folded s) es"
proof (induction es arbitrary: s)
  case (Cons e es)
  then obtain s1 where "reduce_event s e = Inr s1" "reduce_events s1 es = Inr s'" by (auto split: sum.splits)
  with Cons.IH reduced_position show ?case by fastforce
qed simp

lemma jammed_cong:
  "ru_enabled rt' = ru_enabled rt \<Longrightarrow> ru_snapshot rt' = ru_snapshot rt \<Longrightarrow> ru_consumed rt' = ru_consumed rt \<Longrightarrow>
     ru_pending rt' = ru_pending rt @ es \<Longrightarrow> jammed rt \<Longrightarrow> jammed rt'"
  by (cases "ru_snapshot rt") (simp_all add: jammed_def folded_position_def continues_append)

lemma publish_jammed: "jammed rt \<Longrightarrow> jammed (snd (publish_facts cd sp d rt report fs))"
  by (erule publish_facts_preserves [rotated -1]; erule jammed_cong [rotated -1]) simp_all

text \<open>
  C39: a jam is permanent. Once the pending fold positions no longer continue the snapshot's, every
  tick fails, whatever its context, and changes nothing; and no publication, successful or not,
  repairs it. Only a restart does.
\<close>

theorem jam_is_permanent:
  assumes "jammed rt"
  shows "(\<exists>err. Tick cd os uuid rt t = ((None, Some (RuntimeReduce err)), rt)) \<and>
    jammed (snd (Publish cd sp rt fs d)) \<and> jammed (SetUserLink rt state)"
proof (intro conjI)
  have "\<not> (\<exists>out. Reduce cd (tick_input rt t) = Inr out)"
  proof
    assume "\<exists>out. Reduce cd (tick_input rt t) = Inr out"
    then obtain s where "reduce_events (fold_start (tick_input rt t)) (ru_pending rt) = Inr s"
      by (auto elim!: Reduce_E simp: tick_input_def)
    from reduced_continues [OF this] assms show False
      by (auto simp: jammed_def folded_position_def fold_start_def tick_input_def split: option.splits)
  qed
  with assms show "\<exists>err. Tick cd os uuid rt t = ((None, Some (RuntimeReduce err)), rt)"
    by (cases "Reduce cd (tick_input rt t)") (auto simp: Tick_def jammed_def)
  show "jammed (snd (Publish cd sp rt fs d))"
    using assms publish_jammed by (simp add: Publish_def)
  show "jammed (SetUserLink rt state)" by (rule jammed_cong [OF _ _ _ _ assms, of _ "[]"]) (simp_all add: SetUserLink_def)
qed

text \<open>A journal that refuses one append and takes the next is enough.\<close>

lemma failed_append_jams:
  "snd (fst (Publish flat_codec full_spool sample_runtime [sample_fact 1 True] DomainRoot)) =
     Some (RuntimeJournal (ErrSpool ''no space''))"
  "jammed (snd (Publish flat_codec sample_spool
     (snd (Publish flat_codec full_spool sample_runtime [sample_fact 1 True] DomainRoot)) [sample_fact 2 True] DomainRoot))"
  by code_simp+

theorem jam_is_permanent_witness:
  "\<exists>err rt. Tick flat_codec calm None rt sample_tick = ((None, Some (RuntimeReduce err)), rt) \<and>
     snd (Publish flat_codec sample_spool (snd (Publish flat_codec full_spool sample_runtime
       [sample_fact 1 True] DomainRoot)) [sample_fact 2 True] DomainRoot) = rt"
  using jam_is_permanent [OF failed_append_jams(2), of flat_codec calm None sample_tick] by blast

section \<open>Restarts\<close>

text \<open>
  Duplicates, conflicts and stale arrivals are journalled with host sequence zero. A runtime that
  starts without a lineage reads only the newest record of each journal, so one such record at the
  end makes it start from host sequence zero again, whatever the journal holds before it.
\<close>

lemma host_sequence_reissued:
  assumes "Newest j = Inr (Some r)" "jr_HostSequence r = 0" "ru_journals rt = [(d, j)]" "start_fresh rt = Inr rt'"
  shows "st_HostSequence (ru_acceptor rt') = 0"
  using assms by (auto simp: start_fresh_def Let_def Restore_def State_Clone_def
      split: option.splits sum.splits checkpoint_error.splits)

text \<open>
  A runtime that resumes re-accepts the retained records in the order of their host sequences, so a
  conflict is offered before the accepted fact it contradicts.
\<close>

lemma conflict_resumed_first:
  assumes "RecordsAfter j (ck_ConsumedTo c) = Inr ([accepted, conflict], b)"
    and "jr_HostSequence accepted \<noteq> 0" "jr_HostSequence conflict = 0" "ru_journals rt = [(d, j)]"
    and arrange: "\<forall>rs. mset (arrange rs) = mset rs"
  shows "resumeUnfolded cd arrange rt c = reaccept cd rt [conflict, accepted]"
proof -
  have "mset (map jr_HostSequence (arrange [accepted, conflict])) = mset [jr_HostSequence accepted, 0]"
    using arrange assms(3) by (simp add: mset_map)
  from mset_eq_imp_distinct_iff [OF this] have "distinct (map jr_HostSequence (arrange [accepted, conflict]))"
    using assms(2) by simp
  then have "sort_slice jr_HostSequence (arrange [accepted, conflict]) = [conflict, accepted]"
    using arrange assms(3) by (intro sort_key_distinct_unique) (simp_all add: add_mset_commute)
  with assms show ?thesis by (simp add: resumeUnfolded_def)
qed

end
