(* ===== verification/Restart.thy ===== *)
theory Restart
  imports Service
begin

text \<open>
  A process that restarts picks up where the last one stopped: what was published since the last
  checkpoint is in the journals, \<^verbatim>\<open>New\<close> offers it to the restored acceptor again, and every tick
  then returns what the last process would have returned.
\<close>

section \<open>What a publication leaves in the journals\<close>

text \<open>The record of an event, and a spool that keeps every entry it takes.\<close>

definition entry_of :: "codec \<Rightarrow> Event \<Rightarrow> Record" where
  "entry_of cd e = \<lparr>jr_HostSequence = ac_HostSequence (ev_Acceptance e),
     jr_FoldPosition = ac_FoldPosition (ev_Acceptance e), jr_Outcome = ac_Outcome (ev_Acceptance e),
     jr_Role = ac_Role (ev_Acceptance e),
     jr_Digest = (case Digest cd (ev_Fact e) of Inr d \<Rightarrow> d | Inl _ \<Rightarrow> ''''), jr_Fact = ev_Fact e\<rparr>"

definition keeps_all :: "spool \<Rightarrow> bool" where
  "keeps_all sp \<longleftrightarrow> (\<forall>es r es'. sp es r = Inr es' \<longrightarrow> es' = es @ [Ours r])"

abbreviation spoken_in :: "domain \<Rightarrow> Event list \<Rightarrow> Event list" where
  "spoken_in d es \<equiv> filter (\<lambda>e. f_Domain (ev_Fact e) = d) es"

text \<open>Since \<open>js0\<close>, each journal has gained the records of the events of its own domain, in order.\<close>

definition gained :: "codec \<Rightarrow> Event list \<Rightarrow> domain \<times> Journal \<Rightarrow> domain \<times> Journal \<Rightarrow> bool" where
  "gained cd es x0 x \<longleftrightarrow> fst x = fst x0 \<and> jo_listable (snd x) = jo_listable (snd x0) \<and>
     jo_entries (snd x) = jo_entries (snd x0) @ map (Ours \<circ> entry_of cd) (spoken_in (fst x0) es)"

definition logged :: "codec \<Rightarrow> (domain \<times> Journal) list \<Rightarrow> (domain \<times> Journal) list \<Rightarrow> Event list \<Rightarrow> bool" where
  "logged cd js0 js es \<longleftrightarrow> list_all2 (gained cd es) js0 js \<and> (\<forall>e\<in>set es. f_Domain (ev_Fact e) \<in> fst ` set js0)"

lemma append_gains:
  assumes "keeps_all sp" "Journal_Append cd sp j f (ac_HostSequence a) (ac_FoldPosition a) (ac_Outcome a) (ac_Role a) = (None, j')"
  shows "jo_entries j' = jo_entries j @ [Ours (entry_of cd \<lparr>ev_Acceptance = a, ev_Fact = f\<rparr>)]"
    "jo_listable j' = jo_listable j"
  using assms
  by (auto simp: Journal_Append_def entry_of_def Digest_def mirrorRecord_def keeps_all_def Let_def
      split: if_splits sum.splits option.splits)

lemma gained_elsewhere:
  "list_all2 (gained cd es) js0 js \<Longrightarrow> f_Domain (ev_Fact e) \<notin> fst ` set js \<Longrightarrow> list_all2 (gained cd (es @ [e])) js0 js"
  by (induction js0 js rule: list_all2_induct) (auto simp: gained_def)

lemma gained_update:
  assumes "list_all2 (gained cd es) js0 js" "distinct (map fst js)" "map_of js (f_Domain (ev_Fact e)) = Some j"
    and "jo_entries j' = jo_entries j @ [Ours (entry_of cd e)]" "jo_listable j' = jo_listable j"
  shows "list_all2 (gained cd (es @ [e])) js0 (AList.update (f_Domain (ev_Fact e)) j' js)"
  using assms
proof (induction js0 js rule: list_all2_induct)
  case (Cons x0 js0 x js)
  obtain k i where x: "x = (k, i)" by (cases x)
  show ?case
  proof (cases "k = f_Domain (ev_Fact e)")
    case True
    with Cons.prems x have "list_all2 (gained cd (es @ [e])) js0 js" by (intro gained_elsewhere [OF Cons.hyps(2)]) auto
    moreover have "i = j" using True Cons.prems x by simp
    moreover have "gained cd (es @ [e]) x0 (k, j')"
      using Cons.hyps(1) Cons.prems(3,4) x True calculation by (simp add: gained_def)
    ultimately show ?thesis using True x by simp
  next
    case False
    moreover have "gained cd (es @ [e]) x0 x" using Cons.hyps(1) False x by (simp add: gained_def)
    ultimately show ?thesis using Cons x by simp
  qed
qed simp

lemma gained_keys: "list_all2 (gained cd es) js0 js \<Longrightarrow> map fst js = map fst js0"
  by (induction js0 js rule: list_all2_induct) (simp_all add: gained_def)

lemma publish_facts_logs:
  assumes "publish_facts cd sp d rt report fs = ((report', None), rt')" "logged cd js0 (ru_journals rt) (ru_pending rt)"
    and "keeps_all sp" "distinct (map fst js0)" "d \<in> fst ` set js0"
  shows "logged cd js0 (ru_journals rt') (ru_pending rt')"
  using assms(1,2)
proof (induction fs arbitrary: rt report)
  case (Cons f fs)
  obtain a err st where a: "Accept cd (ru_acceptor rt) (f, d) = ((a, err), st)" by (metis surj_pair)
  show ?case
  proof (cases err)
    case (Some e)
    with Cons a show ?thesis by auto
  next
    case None
    note out = accepted_outcome [OF a [unfolded None]]
    have keys: "map fst (ru_journals rt) = map fst js0" using Cons.prems(2) gained_keys by (auto simp: logged_def)
    then obtain j where j: "map_of (ru_journals rt) d = Some j"
      using assms(5) by (metis list.set_map map_of_eq_None_iff not_None_eq)
    from a None have dom: "f_Domain f = d" by (cases rule: Accept_E) (auto dest: classified_domain)
    obtain jerr j' where app: "Journal_Append cd sp j f (ac_HostSequence a)
        (ac_FoldPosition a) (ac_Outcome a) (ac_Role a) = (jerr, j')" by fastforce
    let ?e = "\<lparr>ev_Acceptance = a, ev_Fact = f\<rparr>"
    let ?rt = "queue_event (rt\<lparr>ru_acceptor := st, ru_journals := AList.update d j' (ru_journals rt)\<rparr>) a f"
    have jerr: "jerr = None" using Cons.prems(1) a None out j app by (cases jerr) (auto simp: Let_def)
    then have "publish_facts cd sp d ?rt (count_outcome (ac_Outcome a) report) fs = ((report', None), rt')"
      using Cons.prems(1) a None out j app by (simp add: Let_def)
    moreover have "logged cd js0 (ru_journals ?rt) (ru_pending ?rt)"
      using gained_update [of cd "ru_pending rt" js0 "ru_journals rt" ?e j j'] Cons.prems(2) assms(4,5) keys j dom out
        append_gains [OF assms(3) app [unfolded jerr]]
      by (simp add: queue_event_def logged_def)
    ultimately show ?thesis by (rule Cons.IH)
  qed
qed simp

section \<open>Reading it back\<close>

text \<open>Journals that can be read, in fold order, with nothing beyond a watermark.\<close>

definition caught_up :: "(domain \<times> Journal) list \<Rightarrow> u64 \<Rightarrow> bool" where
  "caught_up js watermark \<longleftrightarrow> (\<forall>(d, j)\<in>set js. jo_listable j \<and> legible (jo_entries j) \<and>
     sorted_wrt (<) (map jr_FoldPosition (ours (jo_entries j))) \<and>
     (\<forall>r\<in>set (ours (jo_entries j)). jr_FoldPosition r \<le> watermark))"

lemma ours_map [simp]: "ours (map (Ours \<circ> g) es) = map g es"
  by (induction es) simp_all

lemma legible_simps [simp]: "legible (xs @ map (Ours \<circ> g) es) = legible xs"
  by (auto simp: legible_def)

lemma gained_after:
  assumes g: "gained cd es (d, j0) (d', j)" and c: "caught_up [(d, j0)] w"
    and es: "sorted_wrt (<) (map (ac_FoldPosition \<circ> ev_Acceptance) es)" "\<forall>e\<in>set es. w < ac_FoldPosition (ev_Acceptance e)"
  shows "RecordsAfter j w = Inr (map (entry_of cd) (spoken_in d es),
    consecutive (w + 1) (map (entry_of cd) (spoken_in d es)))"
proof -
  let ?new = "map (entry_of cd) (spoken_in d es)"
  have j: "ours (jo_entries j) = ours (jo_entries j0) @ ?new" "jo_listable j" "legible (jo_entries j)"
    using g c by (simp_all add: gained_def caught_up_def)
  have "sorted_wrt (<) (map jr_FoldPosition ?new)" and new: "\<forall>r\<in>set ?new. w < jr_FoldPosition r"
    using es by (auto simp: entry_of_def sorted_wrt_map sorted_wrt_filter)
  then have "sorted_wrt (<) (map jr_FoldPosition (ours (jo_entries j)))"
    using c by (fastforce simp: j caught_up_def sorted_wrt_append)
  from tailAfter_filter [OF j(2,3) this, of w]
  have "tailAfter j w = Inr (filter (\<lambda>r. w < jr_FoldPosition r) (ours (jo_entries j0)) @ filter (\<lambda>r. w < jr_FoldPosition r) ?new)"
    unfolding j filter_append .
  moreover have "filter (\<lambda>r. w < jr_FoldPosition r) (ours (jo_entries j0)) = []"
    using c by (auto simp: caught_up_def filter_empty_conv not_less)
  moreover have "filter (\<lambda>r. w < jr_FoldPosition r) ?new = ?new" using new by (simp only: filter_id_conv)
  ultimately show ?thesis by (simp only: RecordsAfter_def append_Nil sum.case)
qed

lemma retained_logged:
  assumes "list_all2 (gained cd es) js0 js" "caught_up js0 w"
    and es: "sorted_wrt (<) (map (ac_FoldPosition \<circ> ev_Acceptance) es)" "\<forall>e\<in>set es. w < ac_FoldPosition (ev_Acceptance e)"
  shows "retained_after js w = Inr (map (entry_of cd) (concat (map (\<lambda>d. spoken_in d es) (map fst js0))))"
  using assms(1,2)
proof (induction js0 js rule: list_all2_induct)
  case (Cons x0 js0 x js)
  obtain d0 j0 d j where x: "x0 = (d0, j0)" "x = (d, j)" by fastforce
  have "caught_up [(d0, j0)] w" "caught_up js0 w" using Cons.prems by (simp_all add: x caught_up_def)
  with Cons.IH gained_after [OF Cons.hyps(1) [unfolded x] _ es] show ?case by (simp add: x)
qed simp

lemma mset_by_domain:
  assumes "distinct ds" "\<forall>e\<in>set es. f_Domain (ev_Fact e) \<in> set ds"
  shows "mset (concat (map (\<lambda>d. spoken_in d es) ds)) = mset es"
proof -
  have "mset (concat (map (\<lambda>d. spoken_in d es) ds)) = mset (filter (\<lambda>e. f_Domain (ev_Fact e) \<in> set ds) es)"
    using assms(1)
  proof (induction ds)
    case (Cons d ds)
    have "mset (filter (\<lambda>e. f_Domain (ev_Fact e) \<in> set (d # ds)) es) =
        mset (spoken_in d es) + mset (filter (\<lambda>e. f_Domain (ev_Fact e) \<in> set ds) es)"
      using Cons.prems by (induction es) auto
    with Cons show ?case by simp
  qed simp
  also have "filter (\<lambda>e. f_Domain (ev_Fact e) \<in> set ds) es = es" using assms(2) by (simp add: filter_id_conv)
  finally show ?thesis .
qed

text \<open>Accepted events are in one order, by fold position and by host sequence alike.\<close>

lemma run_order:
  assumes "run_steps (Accept cd) st xs = (outs, st')"
    and "\<forall>e\<in>set (events_of (zip xs outs)). ac_Outcome (ev_Acceptance e) = OutcomeAccepted"
    and "unat (st_FoldPosition st) + length (events_of (zip xs outs)) < 2 ^ 64"
      "unat (st_HostSequence st) + length (events_of (zip xs outs)) < 2 ^ 64"
  shows "sorted_wrt (<) (map (ac_FoldPosition \<circ> ev_Acceptance) (events_of (zip xs outs))) \<and>
    sorted_wrt (<) (map (ac_HostSequence \<circ> ev_Acceptance) (events_of (zip xs outs))) \<and>
    (\<forall>e\<in>set (events_of (zip xs outs)). st_FoldPosition st < ac_FoldPosition (ev_Acceptance e) \<and>
       st_HostSequence st < ac_HostSequence (ev_Acceptance e))"
  using assms
proof (induction xs arbitrary: st outs)
  case (Cons x xs)
  obtain f auth where x: "x = (f, auth)" by fastforce
  obtain a err st1 outs1 where acc: "Accept cd st (f, auth) = ((a, err), st1)"
    and rest: "run_steps (Accept cd) st1 xs = (outs1, st')" and outs: "outs = (a, err) # outs1"
    using Cons.prems(1) x by (auto simp: Let_def split: prod.splits)
  show ?case
  proof (cases err)
    case (Some e)
    from acc Some have "st1 = st" by (cases rule: Accept_E) auto
    with Cons.IH [OF rest] Cons.prems Some x outs show ?thesis by simp
  next
    case None
    have out: "ac_Outcome a = OutcomeAccepted" using Cons.prems(2) x outs None by simp
    from acc None out have step: "ac_FoldPosition a = st_FoldPosition st + 1" "st_FoldPosition st1 = st_FoldPosition st + 1"
      "ac_HostSequence a = st_HostSequence st + 1" "st_HostSequence st1 = st_HostSequence st + 1"
      by (cases rule: Accept_E; auto simp: go_consts dest!: decide_result(1))+
    have room: "unat (st_FoldPosition st) + 1 + length (events_of (zip xs outs1)) < 2 ^ 64"
      "unat (st_HostSequence st) + 1 + length (events_of (zip xs outs1)) < 2 ^ 64"
      using Cons.prems(3,4) x outs None by simp_all
    then have u: "unat (st_FoldPosition st + 1) = unat (st_FoldPosition st) + 1"
      "unat (st_HostSequence st + 1) = unat (st_HostSequence st) + 1" by (simp_all add: unat_word_ariths)
    then have less: "st_FoldPosition st < st_FoldPosition st + 1" "st_HostSequence st < st_HostSequence st + 1"
      by (simp_all add: word_less_nat_alt)
    have "\<forall>e\<in>set (events_of (zip xs outs1)). ac_Outcome (ev_Acceptance e) = OutcomeAccepted"
      using Cons.prems(2) x outs None by simp
    from Cons.IH [OF rest this] room u step less x outs None show ?thesis
      by (auto intro: less_trans [OF less(1)] less_trans [OF less(2)])
  qed
qed simp

lemma resumed_order:
  assumes log: "logged cd js0 js es" and "caught_up js0 w" "distinct (map fst js0)" and arrange: "\<forall>rs. mset (arrange rs) = mset rs"
    and es: "sorted_wrt (<) (map (ac_FoldPosition \<circ> ev_Acceptance) es)" "sorted_wrt (<) (map (ac_HostSequence \<circ> ev_Acceptance) es)"
      "\<forall>e\<in>set es. w < ac_FoldPosition (ev_Acceptance e)"
  shows "\<exists>rs. retained_after js w = Inr rs \<and> sort_slice jr_HostSequence (arrange rs) = map (entry_of cd) es"
proof -
  let ?rs = "map (entry_of cd) (concat (map (\<lambda>d. spoken_in d es) (map fst js0)))"
  have "mset (concat (map (\<lambda>d. spoken_in d es) (map fst js0))) = mset es"
    by (rule mset_by_domain) (use log assms(3) in \<open>auto simp: logged_def\<close>)
  then have "mset ?rs = mset (map (entry_of cd) es)" by (simp only: mset_map)
  with arrange have m: "mset (map (entry_of cd) es) = mset (arrange ?rs)" by simp
  have k: "map jr_HostSequence (map (entry_of cd) es) = map (ac_HostSequence \<circ> ev_Acceptance) es"
    by (simp add: entry_of_def)
  have "mset (map jr_HostSequence (map (entry_of cd) es)) = mset (map jr_HostSequence (arrange ?rs))"
    using m by (simp only: mset_map)
  from mset_eq_imp_distinct_iff [OF this] have "distinct (map jr_HostSequence (arrange ?rs))"
    using es(2) unfolding k by (simp add: strict_sorted_iff)
  moreover have "sorted (map jr_HostSequence (map (entry_of cd) es))"
    using es(2) unfolding k by (simp add: strict_sorted_iff)
  ultimately have "sort_slice jr_HostSequence (arrange ?rs) = map (entry_of cd) es"
    using m by (intro sort_key_distinct_unique)
  with retained_logged [of cd es js0 js w] log assms(2) es show ?thesis by (simp add: logged_def)
qed

section \<open>Offering it again\<close>

lemma reaccept_run:
  assumes "run_steps (Accept cd) (ru_acceptor rt) xs = (outs, st')" "map jr_Fact rs = map ev_Fact (events_of (zip xs outs))"
  shows "reaccept cd rt rs = Inr (rt\<lparr>ru_acceptor := st', ru_pending := ru_pending rt @ events_of (zip xs outs)\<rparr>)"
  using assms
proof (induction xs arbitrary: rt outs rs)
  case (Cons x xs)
  obtain f auth where x: "x = (f, auth)" by fastforce
  obtain a err st1 outs1 where acc: "Accept cd (ru_acceptor rt) (f, auth) = ((a, err), st1)"
    and rest: "run_steps (Accept cd) st1 xs = (outs1, st')" and outs: "outs = (a, err) # outs1"
    using Cons.prems(1) x by (auto simp: Let_def split: prod.splits)
  show ?case
  proof (cases err)
    case (Some e)
    from acc Some have "st1 = ru_acceptor rt" by (cases rule: Accept_E) auto
    with Cons.IH [of rt outs1 rs] rest Cons.prems Some x outs show ?thesis by simp
  next
    case None
    then obtain r rs1 where rs: "rs = r # rs1" "jr_Fact r = f" "map jr_Fact rs1 = map ev_Fact (events_of (zip xs outs1))"
      using Cons.prems(2) x outs by (cases rs) auto
    from acc None have dom: "f_Domain f = auth" by (cases rule: Accept_E) (auto dest: classified_domain)
    let ?rt = "rt\<lparr>ru_acceptor := st1, ru_pending := ru_pending rt @ [\<lparr>ev_Acceptance = a, ev_Fact = f\<rparr>]\<rparr>"
    have "reaccept cd rt rs = reaccept cd ?rt rs1"
      using rs dom acc None accepted_outcome [OF acc [unfolded None]] by simp
    with Cons.IH [of ?rt outs1 rs1] rest rs(3) x outs None show ?thesis by simp
  qed
qed simp

text \<open>Events that agree on what a reduction reads give the same reduction.\<close>

lemma same_events_Reduce:
  assumes r: "Reduce cd i = Inr out" and prior: "in_Prior i \<noteq> None" and same: "list_all2 same_event (in_Events i) ds"
  shows "Reduce cd (i\<lparr>in_Events := ds\<rparr>) = Inr out"
proof -
  let ?i = "i\<lparr>in_Events := ds\<rparr>"
  have "validate_watermarks ?i = None"
    using r by (auto simp: Reduce_def validateInput_def validate_watermarks_def split: option.splits if_splits)
  moreover have "validate_watermarks (replayed_input ?i ds) = None"
    by (simp add: validate_watermarks_def split: option.splits)
  moreover have "validate_prior (replayed_input ?i ds) = validate_prior ?i" unfolding validate_prior_def replayed_fields ..
  moreover have e: "in_Events ?i = ds" by simp
  ultimately have v: "validateInput (replayed_input ?i ds) = validateInput ?i"
    unfolding validateInput_def replayed_fields e by simp
  have eq: "replayed_input ?i ds = replayed_input i ds" by (simp add: replayed_input_def)
  have start: "fold_start (replayed_input ?i ds) = fold_start ?i" using replayed_start [of ?i ds] prior by simp
  have render: "renderComponents ct src (replayed_input ?i ds) = renderComponents ct src ?i" for ct src
    unfolding renderComponents_def replayed_render ..
  have asm: "assemble (replayed_input ?i ds) s cs = assemble ?i s cs" for s cs
    by (rule same_assemble) (simp add: same_fold_def)
  have con: "conclude cd (replayed_input ?i ds) = conclude cd ?i" unfolding conclude_def [abs_def] replayed_fields ..
  have "Reduce cd (replayed_input ?i ds) = Reduce cd ?i"
    unfolding Reduce_def v start render asm con replayed_fields e ..
  with same_Reduce [OF r prior same] eq show ?thesis by metis
qed

lemma same_events_sym: "list_all2 same_event es ds \<Longrightarrow> list_all2 same_event ds es"
  by (induction es ds rule: list_all2_induct) (simp_all add: same_event_def same_acceptance_def)

section \<open>Starting again\<close>

text \<open>Publications the journals took, one after another.\<close>

fun publish_all :: "codec \<Rightarrow> spool \<Rightarrow> Runtime \<Rightarrow> (Fact list \<times> domain) list \<Rightarrow> Runtime option" where
  "publish_all cd sp rt [] = Some rt"
| "publish_all cd sp rt ((fs, d) # bs) =
     (case Publish cd sp rt fs d of ((_, None), rt') \<Rightarrow> publish_all cd sp rt' bs | _ \<Rightarrow> None)"

text \<open>The options of a process started in the same boot over what a runtime left on disk.\<close>

definition restarts_from :: "RuntimeOptions \<Rightarrow> Runtime \<Rightarrow> bool" where
  "restarts_from op rt \<longleftrightarrow> op_Enabled op \<and> Missing (op_Preconditions op) = '''' \<and> op_Random op \<and>
     op_BootID op = ru_bootID rt \<and> op_Checkpoints op = Some (ru_store rt, ru_disk rt) \<and>
     (\<exists>root. op_RootJournal op = Some root \<and> ru_journals rt = (DomainRoot, root) #
        (case op_UserJournal op of None \<Rightarrow> [] | Some user \<Rightarrow> [(DomainUser, user)]))"

definition same_context :: "Runtime \<Rightarrow> Runtime \<Rightarrow> bool" where
  "same_context rt rt' \<longleftrightarrow> ru_enabled rt' = ru_enabled rt \<and> ru_bootID rt' = ru_bootID rt \<and> ru_store rt' = ru_store rt \<and>
     ru_disk rt' = ru_disk rt \<and> ru_snapshot rt' = ru_snapshot rt \<and> ru_consumed rt' = ru_consumed rt \<and>
     ru_accepted rt' = ru_accepted rt"

lemma publish_context: "same_context rt0 rt \<Longrightarrow> same_context rt0 (snd (Publish cd sp rt fs d))"
proof -
  assume "same_context rt0 rt"
  then have "same_context rt0 (snd (publish_facts cd sp d rt report fs))" for report
    by (rule publish_facts_preserves [rotated -1]) (simp_all add: same_context_def)
  with \<open>same_context rt0 rt\<close> show ?thesis by (simp add: Publish_def)
qed

lemma publish_logs:
  assumes "Publish cd sp rt fs d = ((report, None), rt')" "logged cd js0 (ru_journals rt) (ru_pending rt)"
    and "keeps_all sp" "distinct (map fst js0)"
  shows "logged cd js0 (ru_journals rt') (ru_pending rt')"
proof (rule publish_facts_logs)
  show "publish_facts cd sp d rt Report_zero fs = ((report, None), rt')" using assms(1) by (auto simp: Publish_def split: if_splits)
  have "d \<in> fst ` set (ru_journals rt)" using assms(1) by (auto simp: Publish_def map_of_eq_None_iff split: if_splits)
  then show "d \<in> fst ` set js0" using gained_keys [of cd "ru_pending rt" js0 "ru_journals rt"] assms(2)
    by (metis list.set_map logged_def)
qed (use assms in auto)

lemma publish_all_keeps:
  assumes "publish_all cd sp rt bs = Some rt'" "runtime_ok cd rt" "same_context rt0 rt"
    and "logged cd js0 (ru_journals rt) (ru_pending rt)" "keeps_all sp" "distinct (map fst js0)"
  shows "runtime_ok cd rt' \<and> same_context rt0 rt' \<and> logged cd js0 (ru_journals rt') (ru_pending rt')"
  using assms(1-4)
proof (induction bs arbitrary: rt)
  case (Cons b bs)
  obtain fs d where b: "b = (fs, d)" by fastforce
  obtain report err rt1 where p: "Publish cd sp rt fs d = ((report, err), rt1)" by (metis surj_pair)
  with Cons.prems(1) b have err: "err = None" and rest: "publish_all cd sp rt1 bs = Some rt'" by (auto split: option.splits)
  show ?case
    using Cons.IH [OF rest publish_keeps [OF Cons.prems(2) p [unfolded err]] _
        publish_logs [OF p [unfolded err] Cons.prems(4) assms(5,6)]] publish_context [OF Cons.prems(3)] p
    by (metis snd_conv)
qed simp

text \<open>A service has one journal per domain.\<close>

lemma publish_facts_journals:
  "distinct (map fst (ru_journals rt)) \<Longrightarrow> distinct (map fst (ru_journals (snd (publish_facts cd sp d rt report fs))))"
proof (induction fs arbitrary: rt report)
  case (Cons f fs)
  obtain a err st where a: "Accept cd (ru_acceptor rt) (f, d) = ((a, err), st)" by (metis surj_pair)
  obtain jerr j where j: "Journal_Append cd sp (the (map_of (ru_journals rt) d)) f (ac_HostSequence a)
      (ac_FoldPosition a) (ac_Outcome a) (ac_Role a) = (jerr, j)" by fastforce
  show ?case using a j Cons by (cases err; cases jerr) (simp_all add: Let_def queue_event_def distinct_update)
qed simp

lemma reaccept_journals: "reaccept cd rt rs = Inr rt' \<Longrightarrow> ru_journals rt' = ru_journals rt"
  by (induction rs arbitrary: rt) (auto split: prod.splits option.splits if_splits)

lemma serves_journals: "serves cd rt \<Longrightarrow> distinct (map fst (ru_journals rt))"
proof (induction rule: serves.induct)
  case (serves_new arrange os op rt)
  then have "ru_journals rt = (DomainRoot, the (op_RootJournal op)) #
      (case op_UserJournal op of None \<Rightarrow> [] | Some user \<Rightarrow> [(DomainUser, user)])"
    by (auto simp: Runtime_New_def start_resumed_def start_fresh_def resumeUnfolded_def Let_def dest!: reaccept_journals
        split: if_splits option.splits sum.splits prod.splits checkpoint_error.splits bool.splits)
  then show ?case by (auto simp: go_consts split: option.split)
next
  case (serves_publish rt sp fs d report rt')
  then have "rt' = snd (Publish cd sp rt fs d)" by simp
  with serves_publish.IH show ?case by (simp add: Publish_def publish_facts_journals)
next
  case (serves_tick rt t os uuid r rt')
  then show ?case by (auto simp: Tick_def store_output_def adopt_output_def Let_def
      split: if_splits sum.splits option.splits prod.splits)
qed (simp add: SetUserLink_def)

lemma tick_stores:
  assumes "Tick cd os uuid rt t = ((Some out, None), rt')" "out_Changed out"
  shows "\<exists>c. ru_parent rt' = Some c \<and> carried c \<and> ck_Snapshot c = out_Snapshot out"
proof -
  obtain id' first c where "SealFrom cd (ru_parent rt) (ru_broken rt) id' out first (ti_Wake t) = Inr c" "ru_parent rt' = Some c"
    using assms by (auto simp: Tick_def store_output_def adopt_output_def Let_def split: if_splits sum.splits option.splits prod.splits)
  with SealFrom_fields show ?thesis by blast
qed

lemma restart_state:
  assumes ok: "runtime_ok cd rt" and c: "ru_snapshot rt = Some (ck_Snapshot c)" "carried c"
    and log: "logged cd js0 (ru_journals rt) (ru_pending rt)" "caught_up js0 (ru_consumed rt)"
    and op: "restarts_from op rt" and resume: "Store_Resume cd (ru_store rt) os (ru_disk rt) = Inr r" "Usable r" "rs_Checkpoint r = Some c"
    and boot: "ru_bootID rt \<noteq> ''''" and arrange: "\<forall>rs. mset (arrange rs) = mset rs"
    and acc: "\<forall>e\<in>set (ru_pending rt). ac_Outcome (ev_Acceptance e) = OutcomeAccepted"
    and room: "unat (ru_consumed rt) + length (ru_pending rt) < 2 ^ 64" "unat (ru_accepted rt) + length (ru_pending rt) < 2 ^ 64"
  shows "\<exists>rt'. Runtime_New cd arrange os op = Inr rt' \<and> ru_enabled rt' \<and> ru_bootID rt' = ru_bootID rt \<and>
    ru_snapshot rt' = ru_snapshot rt \<and> ru_consumed rt' = ru_consumed rt \<and> ru_accepted rt' = ru_accepted rt \<and>
    same_state (ru_acceptor rt) (ru_acceptor rt') \<and> list_all2 same_event (ru_pending rt) (ru_pending rt')"
proof -
  obtain st xs outs where st: "acceptor_inv st" "in_step st rt" "run_steps (Accept cd) st xs = (outs, ru_acceptor rt)"
    "ru_pending rt = events_of (zip xs outs)" using ok by (auto simp: runtime_ok_def)
  have rep: "represents st (ck_Snapshot c)" using st(2) c(1) by (simp add: in_step_def)
  have pos: "ck_ConsumedTo c = ru_consumed rt" "sn_ConsumedFoldPosition (ck_Snapshot c) = ru_consumed rt"
    "sn_ConsumedHostSequence (ck_Snapshot c) = ru_accepted rt" "st_FoldPosition st = ru_consumed rt" "st_HostSequence st = ru_accepted rt"
    using rep st(2) c by (simp_all add: represents_def in_step_def carried_def)
  obtain outs' st' where run: "run_steps (Accept cd) (checkpoint_state c) xs = (outs', st')" "same_state (ru_acceptor rt) st'"
    and alike: "list_all2 (\<lambda>(a, e) (b, d). e = d \<and> same_acceptance a b) outs outs'"
    using restored.run_sim [OF restored_same [OF rep c(2)] st(3)] by blast
  have es: "list_all2 same_event (ru_pending rt) (events_of (zip xs outs'))"
    unfolding st(4) by (rule alike_events [OF alike]) (use length_run_steps [of "Accept cd" st xs] st(3) in simp)
  then have facts: "map jr_Fact (map (entry_of cd) (ru_pending rt)) = map ev_Fact (events_of (zip xs outs'))"
    by (induction rule: list_all2_induct) (simp_all add: same_event_def entry_of_def)
  obtain root where o: "op_Enabled op" "Missing (op_Preconditions op) = ''''" "op_Random op" "op_BootID op = ru_bootID rt"
    "op_Checkpoints op = Some (ru_store rt, ru_disk rt)" "op_RootJournal op = Some root" "ru_journals rt = (DomainRoot, root) #
        (case op_UserJournal op of None \<Rightarrow> [] | Some user \<Rightarrow> [(DomainUser, user)])"
    using op by (auto simp: restarts_from_def)
  have "map fst js0 = map fst (ru_journals rt)" using gained_keys log(1) by (metis logged_def)
  then have dist: "distinct (map fst js0)" by (auto simp: o(7) go_consts split: option.split)
  have order: "sorted_wrt (<) (map (ac_FoldPosition \<circ> ev_Acceptance) (ru_pending rt))"
    "sorted_wrt (<) (map (ac_HostSequence \<circ> ev_Acceptance) (ru_pending rt))"
    "\<forall>e\<in>set (ru_pending rt). ru_consumed rt < ac_FoldPosition (ev_Acceptance e)"
    using run_order [OF st(3)] acc room pos unfolding st(4) by auto
  obtain rs where rs: "retained_after (ru_journals rt) (ru_consumed rt) = Inr rs"
    "sort_slice jr_HostSequence (arrange rs) = map (entry_of cd) (ru_pending rt)"
    using resumed_order [OF log dist arrange order] by blast
  let ?rt = "(blank_runtime op)\<lparr>ru_journals := ru_journals rt, ru_resume := r, ru_snapshot := Some (ck_Snapshot c), ru_parent := Some c,
      ru_consumed := ru_consumed rt, ru_accepted := ru_accepted rt, ru_acceptor := checkpoint_state c\<rparr>"
  have restore: "Restore (checkpoint_state c) = Inr (checkpoint_state c)"
    using restored_valid [OF st(1) rep c(2)] by (auto simp: restoreAcceptor_def split: sum.splits)
  have "Runtime_New cd arrange os op = reaccept cd ?rt (map (entry_of cd) (ru_pending rt))"
    using o boot resume restore rs pos
    by (simp add: Runtime_New_def start_resumed_def resumeUnfolded_def Let_def)
  also have "\<dots> = Inr (?rt\<lparr>ru_acceptor := st', ru_pending := ru_pending ?rt @ events_of (zip xs outs')\<rparr>)"
    by (rule reaccept_run) (use run(1) facts in simp_all)
  finally show ?thesis using run(2) es c(1) o(1,4) by (simp add: blank_runtime_def)
qed

lemma Tick_output:
  "fst (fst (Tick cd os uuid rt t)) =
     (if ru_enabled rt then (case Reduce cd (tick_input rt t) of Inr out \<Rightarrow> Some out | Inl _ \<Rightarrow> None) else None)"
  by (simp add: Tick_def split: sum.split prod.split)

lemma same_tick:
  assumes "list_all2 same_event (ru_pending rt) (ru_pending rt')" "ru_snapshot rt \<noteq> None" "ru_enabled rt' = ru_enabled rt"
    "ru_bootID rt' = ru_bootID rt" "ru_snapshot rt' = ru_snapshot rt" "ru_consumed rt' = ru_consumed rt" "ru_accepted rt' = ru_accepted rt"
  shows "fst (fst (Tick cd os' uuid rt' t)) = fst (fst (Tick cd os' uuid rt t))"
proof -
  have i: "tick_input rt' t = (tick_input rt t)\<lparr>in_Events := ru_pending rt'\<rparr>"
    "tick_input rt t = (tick_input rt' t)\<lparr>in_Events := ru_pending rt\<rparr>"
    using assms by (simp_all add: tick_input_def)
  have "Reduce cd (tick_input rt t) = Inr out \<Longrightarrow> Reduce cd (tick_input rt' t) = Inr out" for out
    unfolding i(1) by (erule same_events_Reduce) (use assms in \<open>simp_all add: tick_input_def\<close>)
  moreover have "Reduce cd (tick_input rt' t) = Inr out \<Longrightarrow> Reduce cd (tick_input rt t) = Inr out" for out
    unfolding i(2) by (erule same_events_Reduce) (use assms same_events_sym [OF assms(1)] in \<open>simp_all add: tick_input_def\<close>)
  ultimately have "(case Reduce cd (tick_input rt' t) of Inr out \<Rightarrow> Some out | Inl _ \<Rightarrow> None) =
      (case Reduce cd (tick_input rt t) of Inr out \<Rightarrow> Some out | Inl _ \<Rightarrow> None)"
    by (metis (no_types, lifting) sum.case_eq_if sum.collapse(2))
  then show ?thesis using assms(3) by (simp only: Tick_output)
qed

text \<open>
  C37: a restart loses nothing. Let a service store a checkpoint and then take publications whose
  facts are all new. A process that starts in the same boot over what is then on disk, and resumes
  that checkpoint, comes up with the same snapshot and with an acceptor that says the same as the old
  one, and every tick returns the output the old process would have returned (snapshot, diff and
  proposals, or none), in whatever order the journals are read. The journals held nothing beyond the
  checkpoint when it was stored, and the spool drops nothing.
\<close>

theorem restart_reconstructs:
  assumes "serves cd rt" "context_ok rt t0" "Tick cd os0 uuid rt t0 = ((Some out, None), rt0)" "out_Changed out"
    and "caught_up (ru_journals rt0) (ru_consumed rt0)" "keeps_all sp" "publish_all cd sp rt0 bs = Some rt1"
    and "\<forall>e\<in>set (ru_pending rt1). ac_Outcome (ev_Acceptance e) = OutcomeAccepted"
    and "unat (ru_consumed rt1) + length (ru_pending rt1) < 2 ^ 64" "unat (ru_accepted rt1) + length (ru_pending rt1) < 2 ^ 64"
    and "restarts_from op rt1" "Store_Resume cd (ru_store rt1) os (ru_disk rt1) = Inr r" "Usable r" "rs_Checkpoint r = ru_parent rt0"
    and "\<forall>rs. mset (arrange rs) = mset rs"
  shows "\<exists>rt2. Runtime_New cd arrange os op = Inr rt2 \<and> ru_snapshot rt2 = Some (out_Snapshot out) \<and>
    same_state (ru_acceptor rt1) (ru_acceptor rt2) \<and>
    (\<forall>os' uuid' t. fst (fst (Tick cd os' uuid' rt2 t)) = fst (fst (Tick cd os' uuid' rt1 t)))"
proof -
  have ok: "runtime_ok cd rt0" "started rt0" using serves_ok [OF serves_tick [OF assms(1-3)]] by auto
  obtain c where c: "ru_parent rt0 = Some c" "carried c" "ck_Snapshot c = out_Snapshot out" using tick_stores [OF assms(3,4)] by blast
  have rt0: "ru_pending rt0 = []" "ru_snapshot rt0 = Some (out_Snapshot out)" using Tick_state [OF assms(3)] by auto
  have log0: "logged cd (ru_journals rt0) (ru_journals rt0) (ru_pending rt0)"
    by (simp add: logged_def rt0 list_all2_refl gained_def)
  have dist: "distinct (map fst (ru_journals rt0))" by (rule serves_journals [OF serves_tick [OF assms(1-3)]])
  have k: "runtime_ok cd rt1" "same_context rt0 rt1" "logged cd (ru_journals rt0) (ru_journals rt1) (ru_pending rt1)"
    using publish_all_keeps [OF assms(7) ok(1) _ log0 assms(6) dist, of rt0] by (auto simp: same_context_def)
  have "ru_snapshot rt1 = Some (ck_Snapshot c)" "caught_up (ru_journals rt0) (ru_consumed rt1)" "ru_bootID rt1 \<noteq> ''''" "ru_enabled rt1"
    using k(2) rt0 c ok(2) assms(5) by (simp_all add: same_context_def started_def)
  from restart_state [OF k(1) this(1) c(2) k(3) this(2) assms(11-13) _ this(3) assms(15,8-10)] this(1,4) c(1,3) assms(14)
  obtain rt2 where "Runtime_New cd arrange os op = Inr rt2" "ru_enabled rt2" "ru_bootID rt2 = ru_bootID rt1"
    "ru_snapshot rt2 = ru_snapshot rt1" "ru_consumed rt2 = ru_consumed rt1" "ru_accepted rt2 = ru_accepted rt1"
    "same_state (ru_acceptor rt1) (ru_acceptor rt2)" "list_all2 same_event (ru_pending rt1) (ru_pending rt2)" by auto
  with same_tick [of rt1 rt2 cd] \<open>ru_snapshot rt1 = _\<close> \<open>ru_enabled rt1\<close> c(3) show ?thesis by auto
qed

definition sample_before :: Runtime where
  "sample_before = snd (Publish flat_codec sample_spool sample_runtime [sample_fact 1 True] DomainRoot)"

definition sample_batches :: "(Fact list \<times> domain) list" where
  "sample_batches = [([sample_fact 2 True], DomainRoot)]"

definition sample_restart :: "Runtime \<Rightarrow> RuntimeOptions" where
  "sample_restart rt = sample_options\<lparr>op_Checkpoints := Some (ru_store rt, ru_disk rt),
     op_RootJournal := map_of (ru_journals rt) DomainRoot\<rparr>"

definition restartable :: "(Output option \<times> runtime_error option) \<times> Runtime \<Rightarrow> bool" where
  "restartable ticked = (case ticked of
     ((Some out, None), rt0) \<Rightarrow>
       (case publish_all flat_codec sample_spool rt0 sample_batches of
          Some rt1 \<Rightarrow>
            out_Changed out \<and> caught_up (ru_journals rt0) (ru_consumed rt0) \<and>
            map (ac_Outcome \<circ> ev_Acceptance) (ru_pending rt1) = [OutcomeAccepted] \<and>
            ru_consumed rt1 = 1 \<and> ru_accepted rt1 = 1 \<and> map fst (ru_journals rt1) = [DomainRoot] \<and> ru_bootID rt1 = ''boot-1'' \<and>
            (case Store_Resume flat_codec (ru_store rt1) calm (ru_disk rt1) of
               Inr r \<Rightarrow> Usable r \<and> rs_Checkpoint r = ru_parent rt0 | Inl _ \<Rightarrow> False)
        | None \<Rightarrow> False)
   | _ \<Rightarrow> False)"

lemma sample_restartable: "restartable (Tick flat_codec calm (Some ''c1'') sample_before sample_tick)"
  by code_simp

lemma sample_before_serves: "serves flat_codec sample_before" "context_ok sample_before sample_tick"
proof -
  let ?p = "Publish flat_codec sample_spool sample_runtime [sample_fact 1 True] DomainRoot"
  have "snd (fst ?p) = None" by code_simp
  then have "?p = ((fst (fst ?p), None), sample_before)" by (metis prod.collapse sample_before_def)
  then show "serves flat_codec sample_before" by (rule serves_publish [OF sample_serves])
  have "ru_snapshot sample_before = None" by code_simp
  then show "context_ok sample_before sample_tick" by (simp add: context_ok_def)
qed

theorem restart_reconstructs_witness:
  "\<exists>out rt0 rt1 rt2. Tick flat_codec calm (Some ''c1'') sample_before sample_tick = ((Some out, None), rt0) \<and>
     publish_all flat_codec sample_spool rt0 sample_batches = Some rt1 \<and> length (ru_pending rt1) = 1 \<and>
     Runtime_New flat_codec rev calm (sample_restart rt1) = Inr rt2 \<and>
     (\<forall>os' uuid' t. fst (fst (Tick flat_codec os' uuid' rt2 t)) = fst (fst (Tick flat_codec os' uuid' rt1 t)))"
proof -
  obtain out rt0 rt1 r where tick: "Tick flat_codec calm (Some ''c1'') sample_before sample_tick = ((Some out, None), rt0)"
    and bs: "publish_all flat_codec sample_spool rt0 sample_batches = Some rt1"
    and ev: "out_Changed out" "caught_up (ru_journals rt0) (ru_consumed rt0)"
      "map (ac_Outcome \<circ> ev_Acceptance) (ru_pending rt1) = [OutcomeAccepted]"
      "ru_consumed rt1 = 1" "ru_accepted rt1 = 1" "map fst (ru_journals rt1) = [DomainRoot]" "ru_bootID rt1 = ''boot-1''"
    and r: "Store_Resume flat_codec (ru_store rt1) calm (ru_disk rt1) = Inr r" "Usable r" "rs_Checkpoint r = ru_parent rt0"
    using sample_restartable by (auto simp: restartable_def split: prod.splits option.splits sum.splits)
  obtain e where e: "ru_pending rt1 = [e]" "ac_Outcome (ev_Acceptance e) = OutcomeAccepted" using ev(3) by auto
  obtain root where "ru_journals rt1 = [(DomainRoot, root)]" using ev(6) by auto
  then have "restarts_from (sample_restart rt1) rt1"
    using ev(7) by (simp add: restarts_from_def sample_restart_def sample_options_def Missing_def)
  moreover have "keeps_all sample_spool" by (simp add: keeps_all_def sample_spool_def)
  ultimately show ?thesis
    using restart_reconstructs [OF sample_before_serves tick ev(1,2) _ bs _ _ _ _ r, of "sample_restart rt1" rev] tick bs e ev
    by auto
qed

end
