(* ===== verification/Tunnel.thy ===== *)
theory Tunnel
  imports Prelude
begin

text \<open>
  The tunnel supervision rule (\<^verbatim>\<open>internal/tunnelplan/planner.go\<close>), the file it remembers the
  previous cycle in (\<^verbatim>\<open>internal/rootdaemon/tunnelstate.go\<close>) and the step of the root daemon's
  cycle that joins them (\<^verbatim>\<open>internal/rootdaemon/cycle.go\<close>); then what the rule decides over any
  sequence of cycles.

  Durations are integers (nanoseconds); the two failure counters are 32-bit words and wrap.
  The digest of a signature (\<^verbatim>\<open>Signature.Digest\<close>) only labels records and is not modelled.
\<close>

section \<open>Data\<close>

datatype TunnelCause = CauseProcessGone | CauseWakeGap | CauseCarrierChanged
  | CauseLinkReturned | CausePayloadFailed | CauseRoutesDrifted

datatype TunnelAction = ActionNone | ActionRebuildTunnel | ActionReapplyRoutes

datatype tunnel_error = TunnelErrInvalidPolicy | TunnelErrInvalidInput

type_synonym signature = string
type_synonym duration = int

definition Signature_Entries :: "signature \<Rightarrow> nat" where
  "Signature_Entries s = (if s = '''' then 0 else count_list s CHR '' '' + 1)"

fun join_spaced :: "string list \<Rightarrow> string" where
  "join_spaced [] = ''''"
| "join_spaced [p] = p"
| "join_spaced (p # ps) = p @ '' '' @ join_spaced ps"

text \<open>A carried destination is the pair of the destination and the interface that carries it.\<close>

definition NewSignature :: "(string \<times> string) list \<Rightarrow> signature" where
  "NewSignature carried = join_spaced (sort_slice (\<lambda>p. p) (map (\<lambda>(destination, interface). destination @ ''='' @ interface) carried))"

record TunnelPolicy =
  tp_Interval :: duration
  tp_WakeThreshold :: duration
  tp_PayloadFailures :: u32
  tp_LinkFailures :: u32

record Observed =
  ob_Complete :: bool
  ob_ProcessObserved :: bool
  ob_ProcessRunning :: bool
  ob_ProcessReplaced :: bool
  ob_Slept :: duration
  ob_TickGap :: duration
  ob_Carrier :: signature
  ob_LinkPresent :: bool
  ob_PayloadOK :: bool
  ob_RoutesDrifted :: bool

record TunnelState =
  ts_Known :: bool
  ts_Carrier :: signature
  ts_LinkPresent :: bool
  ts_PayloadFailures :: u32
  ts_LinkFailures :: u32

definition TunnelState_zero :: TunnelState where
  "TunnelState_zero = \<lparr>ts_Known = False, ts_Carrier = '''', ts_LinkPresent = False, ts_PayloadFailures = 0, ts_LinkFailures = 0\<rparr>"

record Grounds =
  gr_Complete :: bool
  gr_ProcessObserved :: bool
  gr_ProcessRunning :: bool
  gr_ProcessReplaced :: bool
  gr_Slept :: duration
  gr_TickGap :: duration
  gr_Carrier :: signature
  gr_CarrierEntries :: nat
  gr_LinkPresent :: bool
  gr_LinkFailures :: u32
  gr_PayloadOK :: bool
  gr_PayloadFailures :: u32
  gr_RoutesDrifted :: bool

record TunnelPlan =
  tn_Action :: TunnelAction
  tn_Causes :: "TunnelCause list"
  tn_Grounds :: Grounds

section \<open>Decide\<close>

definition next_state :: "TunnelPolicy \<Rightarrow> TunnelState \<Rightarrow> Observed \<Rightarrow> TunnelState" where
  "next_state p previous ob =
     (let next = \<lparr>ts_Known = True, ts_Carrier = ob_Carrier ob, ts_LinkPresent = ts_LinkPresent previous,
                  ts_PayloadFailures = ts_PayloadFailures previous, ts_LinkFailures = ts_LinkFailures previous\<rparr>;
          next = (if \<not> ob_Complete ob
                  then (let next = next\<lparr>ts_Carrier := ts_Carrier previous\<rparr>
                        in if \<not> ts_Known previous then next\<lparr>ts_Known := False\<rparr> else next)
                  else if ob_LinkPresent ob then next\<lparr>ts_LinkPresent := True, ts_LinkFailures := 0\<rparr>
                  else (let alreadyAbsent = ts_Known previous \<and> \<not> ts_LinkPresent previous;
                            failures = ts_LinkFailures previous + 1
                        in next\<lparr>ts_LinkFailures := failures,
                                ts_LinkPresent := \<not> alreadyAbsent \<and> failures < tp_LinkFailures p\<rparr>))
      in next\<lparr>ts_PayloadFailures := if ob_PayloadOK ob then 0 else ts_PayloadFailures next + 1\<rparr>)"

definition causes_of :: "TunnelPolicy \<Rightarrow> TunnelState \<Rightarrow> Observed \<Rightarrow> TunnelCause list" where
  "causes_of p previous ob =
     (if ob_ProcessObserved ob \<and> (\<not> ob_ProcessRunning ob \<or> ob_ProcessReplaced ob) then [CauseProcessGone] else []) @
     (if ob_TickGap ob \<ge> tp_WakeThreshold p then [CauseWakeGap] else []) @
     (if ob_Complete ob \<and> ts_Known previous \<and> ob_Carrier ob \<noteq> ts_Carrier previous then [CauseCarrierChanged] else [])"

definition Decide :: "TunnelPolicy \<Rightarrow> TunnelState \<Rightarrow> Observed \<Rightarrow> tunnel_error + TunnelPlan \<times> TunnelState" where
  "Decide p previous ob =
     (if tp_WakeThreshold p \<le> 0 \<or> tp_PayloadFailures p = 0 \<or> tp_LinkFailures p = 0 \<or> tp_Interval p \<le> 0 \<or>
         tp_WakeThreshold p \<le> tp_Interval p then Inl TunnelErrInvalidPolicy
      else if ob_Slept ob < 0 \<or> ob_TickGap ob < 0 then Inl TunnelErrInvalidInput
      else
        (let next = next_state p previous ob;
             causes = causes_of p previous ob;
             action = (if length causes > 0 then ActionRebuildTunnel else ActionNone);
             grounds = \<lparr>gr_Complete = ob_Complete ob, gr_ProcessObserved = ob_ProcessObserved ob,
               gr_ProcessRunning = ob_ProcessRunning ob, gr_ProcessReplaced = ob_ProcessReplaced ob,
               gr_Slept = ob_Slept ob, gr_TickGap = ob_TickGap ob,
               gr_Carrier = (if ob_Complete ob then ob_Carrier ob else ''''),
               gr_CarrierEntries = (if ob_Complete ob then Signature_Entries (ob_Carrier ob) else 0),
               gr_LinkPresent = ts_LinkPresent next, gr_LinkFailures = ts_LinkFailures next,
               gr_PayloadOK = ob_PayloadOK ob, gr_PayloadFailures = ts_PayloadFailures next,
               gr_RoutesDrifted = ob_RoutesDrifted ob\<rparr>
         in Inr (\<lparr>tn_Action = action, tn_Causes = causes, tn_Grounds = grounds\<rparr>, next)))"

section \<open>The remembered cycle\<close>

text \<open>
  The state file: \<^const>\<open>None\<close> when there is none, it cannot be read or it does not decode. \<open>stages\<close>
  and \<open>publishes\<close> say whether the write of the pending file and the rename succeed; either failing
  leaves the file as it was. A daemon configured without a state file is one whose writes all fail.
\<close>

type_synonym state_file = "TunnelState option"

definition TunnelStore_Load :: "state_file \<Rightarrow> TunnelState" where
  "TunnelStore_Load f = (case f of None \<Rightarrow> TunnelState_zero | Some s \<Rightarrow> s)"

definition TunnelStore_Save :: "bool \<Rightarrow> bool \<Rightarrow> state_file \<Rightarrow> TunnelState \<Rightarrow> bool \<times> state_file" where
  "TunnelStore_Save stages publishes f s =
     (if \<not> stages then (False, f) else if \<not> publishes then (False, f) else (True, Some s))"

text \<open>The end of a cycle: a refused decision leaves no plan, and the result of the save is dropped.\<close>

definition decide_cycle :: "TunnelPolicy \<Rightarrow> state_file \<Rightarrow> Observed \<times> bool \<times> bool \<Rightarrow> TunnelPlan option \<times> state_file" where
  "decide_cycle p f = (\<lambda>(ob, stages, publishes).
     (case Decide p (TunnelStore_Load f) ob of
        Inl _ \<Rightarrow> (None, f)
      | Inr (plan, next) \<Rightarrow> (Some plan, snd (TunnelStore_Save stages publishes f next))))"

section \<open>What the rule decides\<close>

definition tunnel_policy_ok :: "TunnelPolicy \<Rightarrow> bool" where
  "tunnel_policy_ok p \<longleftrightarrow> 0 < tp_Interval p \<and> tp_Interval p < tp_WakeThreshold p \<and>
     tp_PayloadFailures p \<noteq> 0 \<and> tp_LinkFailures p \<noteq> 0"

definition reading_ok :: "Observed \<Rightarrow> bool" where
  "reading_ok ob \<longleftrightarrow> 0 \<le> ob_Slept ob \<and> 0 \<le> ob_TickGap ob"

lemma Decide_ok:
  assumes "tunnel_policy_ok p"
  shows "(\<exists>r. Decide p s ob = Inr r) \<longleftrightarrow> reading_ok ob"
    and "Decide p s ob = Inr (plan, st) \<Longrightarrow> st = next_state p s ob \<and> tn_Causes plan = causes_of p s ob \<and>
      (tn_Action plan = ActionRebuildTunnel \<longleftrightarrow> causes_of p s ob \<noteq> [])"
  using assms by (auto simp: Decide_def tunnel_policy_ok_def reading_ok_def Let_def split: if_splits)

text \<open>The cycles that reach the memory, and the carrier of the newest complete one.\<close>

definition remembered :: "Observed \<times> bool \<times> bool \<Rightarrow> bool" where
  "remembered = (\<lambda>(ob, stages, publishes). reading_ok ob \<and> ob_Complete ob \<and> stages \<and> publishes)"

definition last_carrier :: "(Observed \<times> bool \<times> bool) list \<Rightarrow> signature option" where
  "last_carrier xs = (case filter remembered (rev xs) of [] \<Rightarrow> None | (ob, _) # _ \<Rightarrow> Some (ob_Carrier ob))"

lemma last_carrier_snoc:
  "last_carrier (xs @ [x]) = (if remembered x then Some (ob_Carrier (fst x)) else last_carrier xs)"
  by (cases x) (simp add: last_carrier_def)

text \<open>Cycles whose saves all succeed, and the carrier of the newest complete one.\<close>

definition saved_cycles :: "Observed list \<Rightarrow> (Observed \<times> bool \<times> bool) list" where
  "saved_cycles obs = map (\<lambda>ob. (ob, True, True)) obs"

definition newest_carrier :: "Observed list \<Rightarrow> signature option" where
  "newest_carrier obs = (case filter (\<lambda>ob. reading_ok ob \<and> ob_Complete ob) (rev obs) of [] \<Rightarrow> None | ob # _ \<Rightarrow> Some (ob_Carrier ob))"

lemma saved_carrier: "last_carrier (saved_cycles obs) = newest_carrier obs"
proof (induction obs rule: rev_induct)
  case Nil
  show ?case by (simp add: last_carrier_def newest_carrier_def saved_cycles_def)
next
  case (snoc ob obs)
  have "last_carrier (saved_cycles (obs @ [ob])) = last_carrier (saved_cycles obs @ [(ob, True, True)])"
    by (simp add: saved_cycles_def)
  with snoc show ?case unfolding last_carrier_snoc by (simp add: remembered_def newest_carrier_def)
qed

definition recalls :: "signature option \<Rightarrow> TunnelState \<Rightarrow> bool" where
  "recalls c s \<longleftrightarrow> (case c of None \<Rightarrow> \<not> ts_Known s | Some carrier \<Rightarrow> ts_Known s \<and> ts_Carrier s = carrier)"

lemma next_state_recalls:
  "recalls (if ob_Complete ob then Some (ob_Carrier ob) else c) (next_state p s ob) \<longleftrightarrow>
     (if ob_Complete ob then True else recalls c s)"
  by (auto simp: recalls_def next_state_def Let_def split: option.splits)

lemma cycle_recalls:
  assumes p: "tunnel_policy_ok p" and s: "recalls c (TunnelStore_Load f)"
  shows "recalls (if remembered x then Some (ob_Carrier (fst x)) else c) (TunnelStore_Load (snd (decide_cycle p f x)))"
proof -
  obtain ob stages publishes where x: "x = (ob, stages, publishes)" by (cases x)
  show ?thesis
  proof (cases "reading_ok ob")
    case True
    then obtain plan st where d: "Decide p (TunnelStore_Load f) ob = Inr (plan, st)" using Decide_ok(1) [OF p] by (metis surj_pair)
    then have "st = next_state p (TunnelStore_Load f) ob" using Decide_ok(2) [OF p] by blast
    with d True s next_state_recalls [of ob c p "TunnelStore_Load f"] show ?thesis
      by (auto simp: x decide_cycle_def TunnelStore_Save_def TunnelStore_Load_def [of "Some _"] remembered_def)
  next
    case False
    then obtain e where "Decide p (TunnelStore_Load f) ob = Inl e"
      using Decide_ok(1) [OF p, of "TunnelStore_Load f" ob] by (cases "Decide p (TunnelStore_Load f) ob") auto
    with False s show ?thesis by (simp add: x decide_cycle_def remembered_def)
  qed
qed

lemma run_recalls:
  assumes "tunnel_policy_ok p"
  shows "recalls (last_carrier xs) (TunnelStore_Load (snd (run_steps (decide_cycle p) None xs)))"
proof (induction xs rule: rev_induct)
  case Nil
  show ?case by (simp add: recalls_def last_carrier_def TunnelStore_Load_def TunnelState_zero_def)
next
  case (snoc x xs)
  have "snd (run_steps (decide_cycle p) None (xs @ [x])) = snd (decide_cycle p (snd (run_steps (decide_cycle p) None xs)) x)"
    by (simp add: run_steps_append split: prod.split)
  with cycle_recalls [OF assms snoc, of x] show ?case by (simp add: last_carrier_snoc)
qed

text \<open>
  C40: a rebuild has evidence. Under a valid policy, after any cycles whose state was saved
  (incomplete ones and ones with a refused reading included), the next cycle decides to rebuild the
  tunnel exactly when it saw the process gone or replaced, or came a wake threshold after the previous
  cycle, or it is complete and its carrier differs from the carrier of the newest complete cycle
  before it. Before a complete cycle a carrier is never a cause.
\<close>

theorem rebuild_iff_evidence:
  assumes "tunnel_policy_ok p" "reading_ok ob"
  shows "\<exists>plan. fst (decide_cycle p (snd (run_steps (decide_cycle p) None (saved_cycles obs))) (ob, saves)) = Some plan \<and>
    (tn_Action plan = ActionRebuildTunnel \<longleftrightarrow>
       ob_ProcessObserved ob \<and> (\<not> ob_ProcessRunning ob \<or> ob_ProcessReplaced ob) \<or>
       tp_WakeThreshold p \<le> ob_TickGap ob \<or>
       ob_Complete ob \<and> (\<exists>carrier. newest_carrier obs = Some carrier \<and> ob_Carrier ob \<noteq> carrier))"
proof -
  let ?s = "TunnelStore_Load (snd (run_steps (decide_cycle p) None (saved_cycles obs)))"
  obtain plan st where d: "Decide p ?s ob = Inr (plan, st)" using Decide_ok(1) [OF assms(1)] assms(2) by (metis surj_pair)
  obtain stages publishes where "saves = (stages, publishes)" by (cases saves)
  then have "fst (decide_cycle p (snd (run_steps (decide_cycle p) None (saved_cycles obs))) (ob, saves)) = Some plan"
    by (simp add: decide_cycle_def d)
  moreover have "tn_Action plan = ActionRebuildTunnel \<longleftrightarrow> causes_of p ?s ob \<noteq> []"
    using Decide_ok(2) [OF assms(1) d] by blast
  ultimately show ?thesis using run_recalls [OF assms(1), of "saved_cycles obs"]
    by (auto simp: saved_carrier causes_of_def recalls_def split: option.splits if_splits)
qed

definition sample_tunnel_policy :: TunnelPolicy where
  "sample_tunnel_policy = \<lparr>tp_Interval = 30, tp_WakeThreshold = 90, tp_PayloadFailures = 3, tp_LinkFailures = 2\<rparr>"

definition sample_cycle :: "bool \<Rightarrow> signature \<Rightarrow> Observed" where
  "sample_cycle complete carrier = \<lparr>ob_Complete = complete, ob_ProcessObserved = True, ob_ProcessRunning = True,
     ob_ProcessReplaced = False, ob_Slept = 0, ob_TickGap = 30, ob_Carrier = carrier, ob_LinkPresent = complete,
     ob_PayloadOK = True, ob_RoutesDrifted = False\<rparr>"

theorem rebuild_iff_evidence_witness:
  "\<exists>plan. fst (decide_cycle sample_tunnel_policy (snd (run_steps (decide_cycle sample_tunnel_policy) None
     (saved_cycles [sample_cycle True ''a=en0'', sample_cycle False '''']))) (sample_cycle True ''a=en1'', True, True)) = Some plan \<and>
     tn_Action plan = ActionRebuildTunnel"
proof -
  let ?obs = "[sample_cycle True ''a=en0'', sample_cycle False '''']"
  have "tunnel_policy_ok sample_tunnel_policy" "reading_ok (sample_cycle True ''a=en1'')" by code_simp+
  moreover have "newest_carrier ?obs = Some ''a=en0''" by code_simp
  moreover have "ob_Complete (sample_cycle True ''a=en1'')" "ob_Carrier (sample_cycle True ''a=en1'') = ''a=en1''"
    by (simp_all add: sample_cycle_def)
  ultimately show ?thesis
    using rebuild_iff_evidence [of sample_tunnel_policy "sample_cycle True ''a=en1''" ?obs "(True, True)"] by auto
qed

text \<open>
  A cycle that saw nothing still counts as a failure of the payload path, although it leaves the
  carrier and the link failures alone.
\<close>

lemma blind_cycle_counts_payload:
  "\<not> ob_Complete ob \<Longrightarrow> \<not> ob_PayloadOK ob \<Longrightarrow>
     ts_PayloadFailures (next_state p s ob) = ts_PayloadFailures s + 1 \<and> ts_LinkFailures (next_state p s ob) = ts_LinkFailures s"
  by (simp add: next_state_def Let_def)

text \<open>When the save fails, the next cycle compares against the cycle before, not against none.\<close>

lemma failed_save_keeps_memory:
  "TunnelStore_Load (snd (decide_cycle p f (ob, stages, False))) = TunnelStore_Load f"
  by (auto simp: decide_cycle_def TunnelStore_Save_def split: sum.split)

end
