(* ===== verification/Spec2Isabelle.thy ===== *)
theory Spec2Isabelle
  imports Output_Laws Pritunl_Laws Durability Restart Tunnel
begin

text \<open>
  A verification of the decision-making core of hexroute, a macOS control plane that watches a
  host's connectivity, keeps an observe-only read model of it and decides when a VPN or a tunnel is
  to be recovered.

  \<^bold>\<open>The program and how its parts interact.\<close>

  Sources on the host state \<^emph>\<open>facts\<close> about eight components (\<^verbatim>\<open>src/internal/connectivity\<close>). The
  ownership table compiled into the program says which source may speak about which component
  (\<^verbatim>\<open>src/internal/safety/connectivity.go\<close>). The \<^emph>\<open>acceptor\<close> (\<^verbatim>\<open>src/internal/connectivityaccept\<close>)
  gives every admissible fact a place in one host order and decides whether it is new, a retry, a
  conflict or late. The \<^emph>\<open>reducer\<close> (\<^verbatim>\<open>src/internal/connectivityreduce\<close>) folds the acceptor's events
  onto the previous snapshot, derives the state of every component, compares it with policy and
  proposes changes. The \<^emph>\<open>runtime\<close> (\<^verbatim>\<open>src/internal/connectivityruntime\<close>) joins them: it accepts and
  journals (\<^verbatim>\<open>src/internal/connectivityjournal\<close>) what is published, reduces at every tick, and
  appends a sealed checkpoint of every effective reduction to a lineage on disk
  (\<^verbatim>\<open>src/internal/connectivitycheckpoint\<close>), from which the next process resumes and against which the
  journals can be replayed. Beside the read model stand two deciders: the Pritunl planner
  (\<^verbatim>\<open>src/internal/pritunlplan\<close>) over a general recovery state machine (\<^verbatim>\<open>src/internal/control\<close>), and
  the tunnel supervision rule (\<^verbatim>\<open>src/internal/tunnelplan\<close>) that the root daemon runs each cycle.

  \<^bold>\<open>Theories, in the order of the data.\<close>

  \<^item> \<open>Prelude\<close>: how Go's types are read, sorting, association lists, words, runs of a step function,
    and the locales \<open>invariant_step\<close> and \<open>numbering\<close> (an invariant kept by a step holds along runs;
    a counter that a step advances numbers its outputs).
  \<^item> \<open>Fact\<close>: \<^verbatim>\<open>model.go\<close>, \<^verbatim>\<open>payload.go\<close> and \<^verbatim>\<open>Validate\<close> of \<^verbatim>\<open>codec.go\<close>. \<open>Canonical\<close>:
    \<^verbatim>\<open>src/internal/policy/canonical.go\<close> and \<^verbatim>\<open>Encode\<close>, \<^verbatim>\<open>Digest\<close>, \<^verbatim>\<open>Decode\<close>. \<open>Ownership\<close>: the
    ownership table and its \<^verbatim>\<open>init\<close>, panics included, with the locale \<open>ownership_envelope\<close>.
  \<^item> \<open>Acceptor\<close>: \<^verbatim>\<open>acceptor.go\<close>; \<open>State\<close> is the Go \<^verbatim>\<open>State\<close>, \<open>Accept\<close> is \<^verbatim>\<open>Acceptor.Accept\<close>.
    \<open>Streams\<close>: what runs of it do to one source, with a ledger as the abstract specification.
    \<open>Acceptance_Laws\<close>: C1 to C10.
  \<^item> \<open>Snapshot\<close>, \<open>Desired\<close>, \<open>Diff\<close>, \<open>Proposal\<close>, \<open>Reduce\<close>: the five files of the reducer.
    \<open>Reduction\<close>: well-formedness of its tables and when the fold goes through. \<open>Pipeline\<close>: the
    refinement between acceptor and snapshot. \<open>Reduction_Laws\<close> and \<open>Output_Laws\<close>: C11 to C22.
  \<^item> \<open>Control\<close>: \<^verbatim>\<open>machine.go\<close> and \<^verbatim>\<open>types.go\<close>; \<open>Control_Laws\<close>: C23 to C28. \<open>Pritunl\<close>:
    \<^verbatim>\<open>planner.go\<close>; \<open>Pritunl_Laws\<close>: C29 to C33, with the locale \<open>planner_effects\<close>.
  \<^item> \<open>Checkpoint\<close>: \<^verbatim>\<open>checkpoint.go\<close>, \<^verbatim>\<open>digest.go\<close> and \<^verbatim>\<open>SealFrom\<close>. \<open>Store\<close>: \<^verbatim>\<open>store.go\<close> and
    \<^verbatim>\<open>resume.go\<close> over a directory value \<open>Disk\<close>. \<open>Store_Laws\<close>: C34. \<open>Durability\<close>: C35.
  \<^item> \<open>Journal\<close>: \<^verbatim>\<open>journal.go\<close>. \<open>Replay\<close>: \<^verbatim>\<open>replay.go\<close> and \<^verbatim>\<open>verify.go\<close>. \<open>Replay_Laws\<close>: the locale
    \<open>lockstep\<close> (two runs of a step from related states stay related), its interpretation on \<open>Accept\<close>,
    and C36.
  \<^item> \<open>Runtime\<close>: \<^verbatim>\<open>runtime.go\<close>; \<open>Runtime_Laws\<close>: publishing and ticking keep it in step. \<open>Service\<close>:
    starting, whole services as the inductive predicate \<open>serves\<close>, C38 and C39. \<open>Restart\<close>: what
    publications leave in the journals and what a new process makes of it, C37.
  \<^item> \<open>Tunnel\<close>: \<^verbatim>\<open>tunnelplan/planner.go\<close>, \<^verbatim>\<open>rootdaemon/tunnelstate.go\<close> and the end of a cycle; C40.

  \<^bold>\<open>What the properties show.\<close>

  \<^item> Facts and acceptance (C1 to C10): an identity is decided for a whole retry window; a skipped
    sequence stays visible and an owed restatement stays owed until it is made; every reachable state
    can be restored; both orders are consecutive; exactly the inadmissible is rejected, and it changes
    nothing; only the declared owner is authoritative; the ownership table is complete and unambiguous;
    decoding inverts encoding; a valid fact has exactly the payload of its component and its counters
    do not wrap.
  \<^item> Reduction (C11 to C16): a batch of the acceptor never wedges the reducer; the snapshot refines the
    acceptor; the watermarks are exact; a component says what its owner said last; a settled state is
    current, unconflicted and fresh; after a sleep or a reboot an observed component needs a
    restatement.
  \<^item> Output (C17 to C22): the aggregate state, the generation, the retained conflicts and the proposals
    are what the components and the policy warrant, and a proposal is bound to its content.
  \<^item> Recovery (C23 to C33): invariants, termination of the backoff loop, budgets and spacing of
    recoveries and of requests to root, safe mode, stale writers; the grounds of a reconnect, the
    well-formedness of the planner under all its operations, compensation included, and the atomicity
    of operator actions. What a suspension does to safe mode is the lemma
    \<open>suspension_clears_safe_mode\<close>; it is not what the specification asks for.
  \<^item> Persistence (C34 to C36): resume takes the newest provable checkpoint; an append is atomic under
    every crash; an honest link replays to the digests it recorded.
  \<^item> Restart (C37): a process started over the checkpoint and the journals another one left answers every
    tick as that one would have, for publications whose facts were all new; what happens to duplicates
    and conflicts is the lemma \<open>conflict_resumed_first\<close>.
  \<^item> Service (C38, C39): a runtime over an honest lineage that its journals continue without a hole, and
    whose publications they took, reduces at every well-formed tick; and what it means that a journal
    refuses an event the acceptor has already counted.
  \<^item> Tunnel (C40): over cycles whose state was saved, a rebuild is decided exactly on the evidence the
    rule names. What a failed save leaves behind is the lemma \<open>failed_save_keeps_memory\<close>.

  \<^bold>\<open>Parameters, bounds and fuel.\<close>

  \<^item> \<open>codec\<close> stands for \<^verbatim>\<open>encoding/json\<close>, the RFC 8785 canonicalizer and SHA-256. What a property needs
    of them (a tree is encodable, a digest has 64 characters, no collision) is a named hypothesis of
    that property. \<open>sp\<close> is the append of the spool, \<open>os\<close> says which system calls fail, \<open>persist\<close> is the
    planner's persistence callback. \<open>arrange\<close> is the order in which the retained records of the
    journals reach the sort of \<^verbatim>\<open>resumeUnfolded\<close>: the order of a Go map and the freedom of an
    unstable sort, any permutation.
  \<^item> A checkpoint file holds the value that was written to it, and a published rename stays published
    (a crash of the process, not a loss of power); an entry of a journal holds its record, without the
    envelope around it.
  \<^item> Counters keep their width; where wrap-around would matter the hypothesis that it is not reached is
    stated (fewer than \<open>2 ^ 64\<close> arrivals, ticks below \<open>2 ^ 62\<close>).
  \<^item> Every loop is a terminating function; the one loop whose end depends on the data, \<^verbatim>\<open>backoff\<close>, is a
    \<open>partial_function\<close> and C24 shows that it returns. The walk over a lineage is bounded by the
    configured depth, as in the source.
  \<^item> A method that holds the component's mutex for its whole body is one step, so concurrent callers
    are a sequence of steps in some order; the properties quantify over all of them.

  \<^bold>\<open>Not modelled.\<close>

  \<^item> The spool, the event envelope and archive, telemetry, IPC, logging: wire formats and file system
    I/O below or beside the journal. Opening a journal (directories, setting a foreign format aside)
    and the control snapshot file are of the same kind.
  \<^item> The observation of the host, the executors that act on processes and routes, and the daemons'
    main loops: operating-system effects. Their results are arbitrary inputs of the model.
  \<^item> The policy language, its store with two-phase activation, approvals and signatures, and the
    network reconciler: protocols of their own size that no modelled part calls; the reducer takes the
    effective policy as an input.
  \<^item> The cloud services, the dashboard and configuration delivery: HTTP handlers and SQL.
  \<^item> Renderings, soak evidence chains and command-line tools over what the modelled parts produce.
\<close>

end
